(* ===== verification/Prelude.thy ===== *)
theory Prelude
  imports Main "HOL-Library.Word" "HOL-Library.List_Lexorder" "HOL-Library.Char_ord"
begin

text \<open>
  Shared vocabulary of the development: the Go types the models use, Go run-time panics and
  goja exceptions as values, the parts of the Go standard library the sources rely on
  (\<^verbatim>\<open>strings.Compare\<close>, \<^verbatim>\<open>bytes.Compare\<close>, \<^verbatim>\<open>encoding/binary\<close>, \<^verbatim>\<open>encoding/hex\<close>), and the lemmas
  about lists, words and byte strings that several components use.
\<close>

section \<open>Go types\<close>

type_synonym byte = "8 word"
type_synonym bytes = "byte list"
type_synonym uint64 = "64 word"
type_synonym uint32 = "32 word"
type_synonym int64 = "64 word"  \<comment> \<open>read through \<open>sint\<close>\<close>

text \<open>
  A Go \<^verbatim>\<open>string\<close> is a sequence of bytes; HOL's \<open>char\<close> is exactly one byte.
\<close>

definition bytes_of_string :: "string \<Rightarrow> bytes" where
  "bytes_of_string s = map of_char s"

definition string_of_bytes :: "bytes \<Rightarrow> string" where
  "string_of_bytes b = map (\<lambda>w. char_of (unat w)) b"

section \<open>Panics\<close>

text \<open>
  \<open>PSymbol m\<close> is \<^verbatim>\<open>panic(goja.NewSymbol(m))\<close> and \<open>PValue m\<close> is
  \<^verbatim>\<open>panic(vm.ToValue(m))\<close>: both surface as a JavaScript exception. \<open>PError m\<close> is a Go
  \<^verbatim>\<open>error\<close> value given to \<^verbatim>\<open>panic\<close>, \<open>PExit m\<close> is \<^verbatim>\<open>log.Fatalf\<close>, which ends the process,
  \<open>PNilValue\<close> is \<^verbatim>\<open>panic(nil)\<close>. The others are the panics
  of the Go run time.
\<close>

datatype go_panic =
    PSymbol string
  | PValue string
  | PError string
  | PNilDeref
  | PIndexOutOfRange
  | PSliceBounds
  | PMakeLen
  | PExit string
  | PNilValue
  | PNilMap

type_synonym 'a res = "go_panic + 'a"

definition bind_res :: "'a res \<Rightarrow> ('a \<Rightarrow> 'b res) \<Rightarrow> 'b res" where
  "bind_res m f = (case m of Inl e \<Rightarrow> Inl e | Inr x \<Rightarrow> f x)"

lemma bind_res_simps [simp]:
  "bind_res (Inl e) f = Inl e"
  "bind_res (Inr x) f = f x"
  by (simp_all add: bind_res_def)

lemma bind_res_eq_Inr [simp]:
  "bind_res m f = Inr y \<longleftrightarrow> (\<exists>x. m = Inr x \<and> f x = Inr y)"
  by (cases m) auto

section \<open>Collections of facts\<close>

text \<open>
  \<open>word_reading\<close> collects the rules that read machine words as mathematical integers.
\<close>

named_theorems word_reading "rules that read machine words as mathematical integers"

section \<open>Comparison of byte sequences\<close>

text \<open>\<^verbatim>\<open>strings.Compare\<close> and \<^verbatim>\<open>bytes.Compare\<close>: lexicographic, -1, 0 or 1.\<close>

fun lex_compare :: "'a::linorder list \<Rightarrow> 'a list \<Rightarrow> int" where
  "lex_compare [] [] = 0"
| "lex_compare [] (y # ys) = -1"
| "lex_compare (x # xs) [] = 1"
| "lex_compare (x # xs) (y # ys) =
     (if x < y then -1 else if y < x then 1 else lex_compare xs ys)"

lemma lex_compare_less_iff: "lex_compare xs ys < 0 \<longleftrightarrow> xs < ys"
  by (induction xs ys rule: lex_compare.induct) auto

lemma lex_compare_eq_iff: "lex_compare xs ys = 0 \<longleftrightarrow> xs = ys"
  by (induction xs ys rule: lex_compare.induct) auto

lemma lex_compare_swap: "lex_compare ys xs = - lex_compare xs ys"
  by (induction xs ys rule: lex_compare.induct) auto

lemma lex_compare_range: "lex_compare xs ys \<in> {-1, 0, 1}"
  by (induction xs ys rule: lex_compare.induct) auto

section \<open>Big-endian and little-endian numbers\<close>

primrec be_bytes :: "nat \<Rightarrow> nat \<Rightarrow> bytes" where
  "be_bytes 0 x = []"
| "be_bytes (Suc n) x = be_bytes n (x div 256) @ [of_nat x]"

definition be_val :: "bytes \<Rightarrow> nat" where
  "be_val bs = foldl (\<lambda>a b. a * 256 + unat b) 0 bs"

lemma be_val_Nil [simp]: "be_val [] = 0"
  by (simp add: be_val_def)

lemma be_val_snoc [simp]: "be_val (bs @ [b]) = be_val bs * 256 + unat b"
  by (simp add: be_val_def)

lemma unat_byte_less: "unat (b :: byte) < 256"
proof -
  have "unat b < 2 ^ LENGTH(8)" by (rule unsigned_less)
  then show ?thesis by simp
qed

lemma length_be_bytes [simp]: "length (be_bytes n x) = n"
  by (induction n arbitrary: x) auto

lemma unat_of_nat_byte: "unat (of_nat x :: byte) = x mod 256"
  by (simp add: unat_of_nat)

lemma be_val_be_bytes: "be_val (be_bytes n x) = x mod 256 ^ n"
proof (induction n arbitrary: x)
  case (Suc n)
  have "be_val (be_bytes (Suc n) x) = (x div 256) mod 256 ^ n * 256 + x mod 256"
    by (simp add: Suc.IH unat_of_nat_byte)
  then show ?case
    by (metis mod_mult2_eq mult.commute power_Suc)
qed simp

lemma be_val_less: "be_val bs < 256 ^ length bs"
proof (induction bs rule: rev_induct)
  case (snoc b bs)
  have b: "unat b < 256" by (rule unat_byte_less)
  have "be_val bs + 1 \<le> 256 ^ length bs" using snoc.IH by simp
  then have "(be_val bs + 1) * 256 \<le> 256 ^ length bs * 256" by (rule mult_right_mono) simp
  with b show ?case unfolding be_val_snoc by (simp add: algebra_simps)
qed simp

lemma be_bytes_be_val: "be_bytes (length bs) (be_val bs) = bs"
proof (induction bs rule: rev_induct)
  case (snoc b bs)
  have b: "unat b < 256" by (rule unat_byte_less)
  have "(of_nat (be_val bs * 256 + unat b) :: byte) = b"
  proof (rule word_unat_eq_iff [THEN iffD2])
    show "unat (of_nat (be_val bs * 256 + unat b) :: byte) = unat b"
      using b by (simp only: unat_of_nat_byte) simp
  qed
  moreover have "(be_val bs * 256 + unat b) div 256 = be_val bs" using b by simp
  ultimately show ?case using snoc.IH by simp
qed simp

lemma be_val_zeros: "be_val (replicate n 0 @ bs) = be_val bs"
proof -
  have "be_val (replicate n 0) = 0"
    by (induction n) (simp_all add: replicate_append_same [symmetric])
  then show ?thesis
    by (induction bs rule: rev_induct) (simp_all flip: append_assoc)
qed

section \<open>Hexadecimal text\<close>

text \<open>\<^verbatim>\<open>hex.EncodeToString\<close> and \<^verbatim>\<open>hex.DecodeString\<close> of the standard library.\<close>

definition hex_digit :: "nat \<Rightarrow> char" where
  "hex_digit n = ''0123456789abcdef'' ! n"

definition hex_value :: "char \<Rightarrow> nat option" where
  "hex_value c =
     (let n = (of_char c :: nat) in
      if 48 \<le> n \<and> n \<le> 57 then Some (n - 48)
      else if 97 \<le> n \<and> n \<le> 102 then Some (n - 87)
      else if 65 \<le> n \<and> n \<le> 70 then Some (n - 55)
      else None)"

primrec hex_EncodeToString :: "bytes \<Rightarrow> string" where
  "hex_EncodeToString [] = []"
| "hex_EncodeToString (b # bs) =
     hex_digit (unat b div 16) # hex_digit (unat b mod 16) # hex_EncodeToString bs"

fun hex_DecodeString :: "string \<Rightarrow> bytes option" where
  "hex_DecodeString [] = Some []"
| "hex_DecodeString [c] = None"
| "hex_DecodeString (c # d # s) =
     (case (hex_value c, hex_value d, hex_DecodeString s) of
        (Some x, Some y, Some bs) \<Rightarrow> Some (of_nat (x * 16 + y) # bs)
      | _ \<Rightarrow> None)"

lemma hex_value_digit: "n < 16 \<Longrightarrow> hex_value (hex_digit n) = Some n"
proof -
  have "\<forall>n \<in> set [0..<16]. hex_value (hex_digit n) = Some n"
    by code_simp
  then show "n < 16 \<Longrightarrow> ?thesis" by simp
qed

lemma hex_decode_encode [simp]: "hex_DecodeString (hex_EncodeToString bs) = Some bs"
proof (induction bs)
  case (Cons b bs)
  have b: "unat b < 256" by (rule unat_byte_less)
  then have "unat b div 16 < 16" by (simp add: less_mult_imp_div_less)
  with Cons show ?case by (simp add: hex_value_digit)
qed simp

lemma length_hex_encode [simp]: "length (hex_EncodeToString bs) = 2 * length bs"
  by (induction bs) auto

section \<open>Readings of words\<close>

lemma unat_less_of_word [word_reading]: "x < y \<longleftrightarrow> unat x < unat y"
  by (rule word_less_nat_alt)

lemma unat_le_of_word [word_reading]: "x \<le> y \<longleftrightarrow> unat x \<le> unat y"
  by (rule word_le_nat_alt)

text \<open>Signed 64-bit arithmetic that stays in range.\<close>

lemma sint_add_int64:
  assumes "- (2 ^ 63) \<le> sint (s :: int64) + z" "sint s + z < 2 ^ 63"
  shows "sint (s + of_int z) = sint s + z"
proof -
  have "s + of_int z = of_int (sint s + z)" by simp
  then have "sint (s + of_int z) = signed_take_bit 63 (sint s + z)"
    by (simp only: signed_of_int) simp
  with assms show ?thesis by (simp add: signed_take_bit_int_eq_self)
qed

lemma sint_of_int64: "- (2 ^ 63) \<le> z \<Longrightarrow> z < 2 ^ 63 \<Longrightarrow> sint (of_int z :: int64) = z"
  using sint_add_int64 [of 0 z] by simp

lemma string_of_bytes_of_string [simp]: "string_of_bytes (bytes_of_string s) = s"
proof -
  have "char_of (unat (of_char c :: byte)) = c" for c
  proof -
    have "(of_char c :: nat) < 256" by simp
    moreover have "unat (of_char c :: byte) = of_char c mod 256"
      by (metis of_char_of of_nat_of_char unat_of_nat_byte)
    ultimately show ?thesis by simp
  qed
  then show ?thesis by (simp add: string_of_bytes_def bytes_of_string_def comp_def)
qed

lemma bytes_of_string_of_bytes [simp]: "bytes_of_string (string_of_bytes b) = b"
proof -
  have "(of_char (char_of (unat x)) :: byte) = x" for x :: byte
  proof -
    have "(of_char (char_of (unat x)) :: byte) = of_nat (of_char (char_of (unat x)))" by (simp only: of_nat_of_char)
    also have "\<dots> = of_nat (unat x)" using unat_byte_less [of x] by (simp only: of_char_of mod_less)
    finally show ?thesis by simp
  qed
  then show ?thesis by (simp add: string_of_bytes_def bytes_of_string_def comp_def)
qed

lemma length_bytes_of_string [simp]: "length (bytes_of_string s) = length s"
  by (simp add: bytes_of_string_def)

lemma length_string_of_bytes [simp]: "length (string_of_bytes b) = length b"
  by (simp add: string_of_bytes_def)

end
