(* ===== verification/Args.thy ===== *)
theory Args
  imports Prelude
begin

text \<open>
  The argument checks of \<^verbatim>\<open>script/utils\<close>: what a native function sees of the JavaScript
  values it is called with, the shared exception values of \<^verbatim>\<open>errors.go\<close> and the accessors
  of \<^verbatim>\<open>function.go\<close>.
\<close>

section \<open>Exported JavaScript values\<close>

text \<open>
  \<^verbatim>\<open>Value.Export()\<close> gives a Go interface value; the sources only test its dynamic type.
  \<open>JInt\<close> is an \<^verbatim>\<open>int64\<close>, \<open>JStr\<close> a \<^verbatim>\<open>string\<close>, \<open>JBuf\<close> a \<^verbatim>\<open>goja.ArrayBuffer\<close> (its
  \<^verbatim>\<open>Bytes()\<close>), \<open>JGo\<close> a wrapped Go value of one of the types the callee knows, and
  \<open>JOther\<close> anything else (a float, a boolean, an object, null).
\<close>

datatype 'x jsval = JInt int64 | JStr string | JBuf bytes | JGo 'x | JOther

section \<open>errors.go\<close>

definition MaxSafeInteger :: uint64 where
  "MaxSafeInteger = push_bit 53 1 - 1"

definition IncorrectArgumentCount :: go_panic where
  "IncorrectArgumentCount = PSymbol ''Incorrect argument count''"

definition EmptyKeyString :: go_panic where
  "EmptyKeyString = PSymbol ''Empty key string''"

definition LargerThanMaxInteger :: go_panic where
  "LargerThanMaxInteger = PSymbol ''Larger than Number.MAX_SAFE_INTEGER''"

definition OverflowInSigned :: go_panic where
  "OverflowInSigned = PSymbol ''Overflow in signed multiplication''"

lemma MaxSafeInteger_value: "MaxSafeInteger = 9007199254740991"
  by (simp add: MaxSafeInteger_def push_bit_eq_mult)

lemma unat_MaxSafeInteger [word_reading]: "unat MaxSafeInteger = 9007199254740991"
  by (simp add: MaxSafeInteger_value)

lemma sint_MaxSafeInteger [word_reading]: "sint MaxSafeInteger = 9007199254740991"
  by (simp add: MaxSafeInteger_value)

section \<open>function.go\<close>

definition GetOneUint64 :: "'x jsval list \<Rightarrow> uint64 res" where
  "GetOneUint64 args =
     (if length args \<noteq> 1 then Inl IncorrectArgumentCount
      else case args ! 0 of
        JInt a \<Rightarrow> if MaxSafeInteger < a then Inl LargerThanMaxInteger else Inr a
      | _ \<Rightarrow> Inl (PSymbol ''The first argument must be number''))"

definition GetOneArrayBuffer :: "'x jsval list \<Rightarrow> bytes res" where
  "GetOneArrayBuffer args =
     (if length args \<noteq> 1 then Inl IncorrectArgumentCount
      else case args ! 0 of
        JBuf a \<Rightarrow> Inr a
      | _ \<Rightarrow> Inl (PSymbol ''The first argument must be ArrayBuffer''))"

definition GetTwoArrayBuffers :: "'x jsval list \<Rightarrow> (bytes \<times> bytes) res" where
  "GetTwoArrayBuffers args =
     (if length args \<noteq> 2 then Inl IncorrectArgumentCount
      else case args ! 0 of
        JBuf a \<Rightarrow>
          (case args ! 1 of
             JBuf b \<Rightarrow> Inr (a, b)
           | _ \<Rightarrow> Inl (PSymbol ''The second argument must be ArrayBuffer''))
      | _ \<Rightarrow> Inl (PSymbol ''The first argument must be ArrayBuffer''))"

text \<open>The message for a bad third argument says "second", as in the source.\<close>

definition GetThreeArrayBuffers :: "'x jsval list \<Rightarrow> (bytes \<times> bytes \<times> bytes) res" where
  "GetThreeArrayBuffers args =
     (if length args \<noteq> 3 then Inl IncorrectArgumentCount
      else case args ! 0 of
        JBuf a \<Rightarrow>
          (case args ! 1 of
             JBuf b \<Rightarrow>
               (case args ! 2 of
                  JBuf c \<Rightarrow> Inr (a, b, c)
                | _ \<Rightarrow> Inl (PSymbol ''The second argument must be ArrayBuffer''))
           | _ \<Rightarrow> Inl (PSymbol ''The second argument must be ArrayBuffer''))
      | _ \<Rightarrow> Inl (PSymbol ''The first argument must be ArrayBuffer''))"

subsection \<open>What an accepted argument list looks like\<close>

lemma GetOneUint64_Inr [simp]:
  "GetOneUint64 args = Inr v \<longleftrightarrow> args = [JInt v] \<and> unat v \<le> 9007199254740991"
  by (cases args)
    (auto simp: GetOneUint64_def word_reading not_less split: jsval.splits if_splits)

lemma GetOneArrayBuffer_Inr [simp]:
  "GetOneArrayBuffer args = Inr b \<longleftrightarrow> args = [JBuf b]"
  by (cases args) (auto simp: GetOneArrayBuffer_def split: jsval.splits)

lemma GetTwoArrayBuffers_Inr [simp]:
  "GetTwoArrayBuffers args = Inr (a, b) \<longleftrightarrow> args = [JBuf a, JBuf b]"
  by (auto simp: GetTwoArrayBuffers_def length_Suc_conv numeral_2_eq_2 split: jsval.splits)

lemma GetThreeArrayBuffers_Inr [simp]:
  "GetThreeArrayBuffers args = Inr (a, b, c) \<longleftrightarrow> args = [JBuf a, JBuf b, JBuf c]"
  by (auto simp: GetThreeArrayBuffers_def length_Suc_conv numeral_3_eq_3 numeral_2_eq_2
      split: jsval.splits)

lemma GetOneArrayBuffer_JBuf [simp]: "GetOneArrayBuffer [JBuf b] = Inr b"
  by simp

lemma GetTwoArrayBuffers_JBuf [simp]: "GetTwoArrayBuffers [JBuf a, JBuf b] = Inr (a, b)"
  by simp

lemma GetThreeArrayBuffers_JBuf [simp]:
  "GetThreeArrayBuffers [JBuf a, JBuf b, JBuf c] = Inr (a, b, c)"
  by simp

end
