(* ===== verification/Uint256_Api.thy ===== *)
theory Uint256_Api
  imports Prelude
begin

unbundle bit_operations_syntax

text \<open>
  The third-party package \<^verbatim>\<open>github.com/holiman/uint256\<close> as a parameter. The value of a
  \<^verbatim>\<open>*uint256.Int\<close> is a 256-bit word; every operation the sources call is a field of
  \<open>uint256_api\<close>. The locale \<open>uint256\<close> states the behaviour the package documents, and
  \<open>i256_ref\<close> is a complete 256-bit implementation that satisfies it.
\<close>

section \<open>The interface\<close>

type_synonym u256 = "256 word"

record uint256_api =
  i256_NewInt :: "uint64 \<Rightarrow> u256"
  i256_FromHex :: "string \<Rightarrow> u256 option"
  i256_SetBytes :: "bytes \<Rightarrow> u256"
  i256_AddOverflow :: "u256 \<Rightarrow> u256 \<Rightarrow> u256 \<times> bool"
  i256_Add :: "u256 \<Rightarrow> u256 \<Rightarrow> u256"
  i256_Sub :: "u256 \<Rightarrow> u256 \<Rightarrow> u256"
  i256_MulOverflow :: "u256 \<Rightarrow> u256 \<Rightarrow> u256 \<times> bool"
  i256_Mul :: "u256 \<Rightarrow> u256 \<Rightarrow> u256"
  i256_Div :: "u256 \<Rightarrow> u256 \<Rightarrow> u256"
  i256_Mod :: "u256 \<Rightarrow> u256 \<Rightarrow> u256"
  i256_DivMod :: "u256 \<Rightarrow> u256 \<Rightarrow> u256 \<times> u256"
  i256_Exp :: "u256 \<Rightarrow> u256 \<Rightarrow> u256"
  i256_Sqrt :: "u256 \<Rightarrow> u256"
  i256_Neg :: "u256 \<Rightarrow> u256"
  i256_Abs :: "u256 \<Rightarrow> u256"
  i256_And :: "u256 \<Rightarrow> u256 \<Rightarrow> u256"
  i256_Or :: "u256 \<Rightarrow> u256 \<Rightarrow> u256"
  i256_Not :: "u256 \<Rightarrow> u256"
  i256_Lsh :: "u256 \<Rightarrow> uint64 \<Rightarrow> u256"
  i256_Rsh :: "u256 \<Rightarrow> uint64 \<Rightarrow> u256"
  i256_SRsh :: "u256 \<Rightarrow> uint64 \<Rightarrow> u256"
  i256_Gt :: "u256 \<Rightarrow> u256 \<Rightarrow> bool"
  i256_Lt :: "u256 \<Rightarrow> u256 \<Rightarrow> bool"
  i256_Eq :: "u256 \<Rightarrow> u256 \<Rightarrow> bool"
  i256_Sgt :: "u256 \<Rightarrow> u256 \<Rightarrow> bool"
  i256_Slt :: "u256 \<Rightarrow> u256 \<Rightarrow> bool"
  i256_GtUint64 :: "u256 \<Rightarrow> uint64 \<Rightarrow> bool"
  i256_LtUint64 :: "u256 \<Rightarrow> uint64 \<Rightarrow> bool"
  i256_IsZero :: "u256 \<Rightarrow> bool"
  i256_Sign :: "u256 \<Rightarrow> int"
  i256_Uint64WithOverflow :: "u256 \<Rightarrow> uint64 \<times> bool"
  i256_WriteToArray32 :: "u256 \<Rightarrow> bytes"
  i256_Hex :: "u256 \<Rightarrow> string"
  i256_String :: "u256 \<Rightarrow> string"

text \<open>
  The documented behaviour. Shift counts are Go \<^verbatim>\<open>uint\<close>s; shifting by 256 or more clears
  the word (or fills it with the sign). \<open>SetBytes\<close> reads a big-endian number and keeps the
  last 32 bytes of a longer buffer. Nothing is assumed of \<open>String\<close>.
\<close>

locale uint256 =
  fixes U :: uint256_api
  assumes NewInt: "i256_NewInt U v = ucast v"
    and FromHex_Hex: "i256_FromHex U (i256_Hex U x) = Some x"
    and SetBytes: "i256_SetBytes U b = of_nat (be_val (drop (length b - 32) b))"
    and AddOverflow: "i256_AddOverflow U x y = (x + y, 2 ^ 256 \<le> unat x + unat y)"
    and Add: "i256_Add U x y = x + y"
    and Sub: "i256_Sub U x y = x - y"
    and MulOverflow: "i256_MulOverflow U x y = (x * y, 2 ^ 256 \<le> unat x * unat y)"
    and Mul: "i256_Mul U x y = x * y"
    and Div: "i256_Div U x y = x div y"
    and Mod: "y \<noteq> 0 \<Longrightarrow> i256_Mod U x y = x mod y"
    and DivMod: "y \<noteq> 0 \<Longrightarrow> i256_DivMod U x y = (x div y, x mod y)"
    and Exp: "i256_Exp U x y = x ^ unat y"
    and Sqrt: "(unat (i256_Sqrt U x))\<^sup>2 \<le> unat x" "unat x < (unat (i256_Sqrt U x) + 1)\<^sup>2"
    and Neg: "i256_Neg U x = - x"
    and Abs: "i256_Abs U x = (if 0 \<le> sint x then x else - x)"
    and And: "i256_And U x y = x AND y"
    and Or: "i256_Or U x y = x OR y"
    and Not: "i256_Not U x = NOT x"
    and Lsh: "i256_Lsh U x n = push_bit (unat n) x"
    and Rsh: "i256_Rsh U x n = drop_bit (unat n) x"
    and SRsh: "i256_SRsh U x n = signed_drop_bit (unat n) x"
    and Gt: "i256_Gt U x y \<longleftrightarrow> unat x > unat y"
    and Lt: "i256_Lt U x y \<longleftrightarrow> unat x < unat y"
    and Eq: "i256_Eq U x y \<longleftrightarrow> x = y"
    and Sgt: "i256_Sgt U x y \<longleftrightarrow> sint x > sint y"
    and Slt: "i256_Slt U x y \<longleftrightarrow> sint x < sint y"
    and GtUint64: "i256_GtUint64 U x v \<longleftrightarrow> unat x > unat v"
    and LtUint64: "i256_LtUint64 U x v \<longleftrightarrow> unat x < unat v"
    and IsZero: "i256_IsZero U x \<longleftrightarrow> x = 0"
    and Sign: "i256_Sign U x = sgn (sint x)"
    and Uint64WithOverflow: "i256_Uint64WithOverflow U x = (ucast x, 2 ^ 64 \<le> unat x)"
    and WriteToArray32: "i256_WriteToArray32 U x = be_bytes 32 (unat x)"
begin

lemmas arith_laws = Add Sub Mul AddOverflow MulOverflow Div Mod DivMod Neg Abs NewInt
lemmas order_laws = Gt Lt Eq Sgt Slt GtUint64 LtUint64 IsZero Sign

end

section \<open>A reference implementation\<close>

subsection \<open>Integer square root\<close>

fun isqrt :: "nat \<Rightarrow> nat" where
  "isqrt n =
     (if n = 0 then 0
      else let r = 2 * isqrt (n div 4) in if (r + 1)\<^sup>2 \<le> n then r + 1 else r)"

declare isqrt.simps [simp del]

lemma isqrt_correct: "(isqrt n)\<^sup>2 \<le> n \<and> n < (isqrt n + 1)\<^sup>2"
proof (induction n rule: isqrt.induct)
  case (1 n)
  show ?case
  proof (cases "n = 0")
    case False
    define q where "q = isqrt (n div 4)"
    have q: "q * q \<le> n div 4" "n div 4 < (q + 1) * (q + 1)"
      using "1.IH" False by (simp_all add: q_def power2_eq_square)
    have lo: "4 * (q * q) \<le> n" using q(1) by linarith
    have "n < 4 * ((q + 1) * (q + 1))" using q(2) by linarith
    then have hi: "n < (2 * q + 2) * (2 * q + 2)" by (simp add: algebra_simps)
    show ?thesis
      using lo hi False
      by (subst (1 2) isqrt.simps) (auto simp: Let_def q_def [symmetric] power2_eq_square algebra_simps)
  qed (simp add: isqrt.simps)
qed

subsection \<open>Hexadecimal numbers\<close>

fun hex_digits :: "nat \<Rightarrow> string" where
  "hex_digits n = (if n < 16 then [hex_digit n] else hex_digits (n div 16) @ [hex_digit (n mod 16)])"

declare hex_digits.simps [simp del]

definition hex_number :: "string \<Rightarrow> nat option" where
  "hex_number s =
     foldl (\<lambda>a c. case (a, hex_value c) of (Some x, Some d) \<Rightarrow> Some (x * 16 + d) | _ \<Rightarrow> None) (Some 0) s"

lemma hex_number_snoc:
  "hex_number (s @ [c]) =
     (case (hex_number s, hex_value c) of (Some x, Some d) \<Rightarrow> Some (x * 16 + d) | _ \<Rightarrow> None)"
  by (simp add: hex_number_def)

lemma hex_number_digits: "hex_number (hex_digits n) = Some n"
proof (induction n rule: hex_digits.induct)
  case (1 n)
  have "hex_number [] = Some 0" by (simp add: hex_number_def)
  then have single: "hex_number [hex_digit n] = Some n" if "n < 16" for n
    using hex_number_snoc [of "[]" "hex_digit n"] that by (simp add: hex_value_digit)
  show ?case
  proof (cases "n < 16")
    case True
    then show ?thesis by (simp add: hex_digits.simps single)
  next
    case False
    with "1.IH" have "hex_number (hex_digits (n div 16)) = Some (n div 16)" by simp
    with False show ?thesis
      by (subst hex_digits.simps) (simp add: hex_number_snoc hex_value_digit)
  qed
qed

lemma length_hex_digits: "n < 16 ^ k \<Longrightarrow> 0 < k \<Longrightarrow> length (hex_digits n) \<le> k"
proof (induction n arbitrary: k rule: hex_digits.induct)
  case (1 n)
  show ?case
  proof (cases "n < 16")
    case True
    with "1.prems" show ?thesis by (simp add: hex_digits.simps)
  next
    case False
    with "1.prems" obtain j where k: "k = Suc j" "0 < j"
      by (cases k; cases "k - 1") auto
    with "1.prems" have "n div 16 < 16 ^ j" by (simp add: less_mult_imp_div_less)
    with "1.IH" False k have "length (hex_digits (n div 16)) \<le> j" by blast
    with False k show ?thesis by (subst hex_digits.simps) simp
  qed
qed

definition ref_Hex :: "u256 \<Rightarrow> string" where
  "ref_Hex x = CHR ''0'' # CHR ''x'' # hex_digits (unat x)"

definition ref_FromHex :: "string \<Rightarrow> u256 option" where
  "ref_FromHex s =
     (case s of
        z # c # ds \<Rightarrow>
          if z = CHR ''0'' \<and> (c = CHR ''x'' \<or> c = CHR ''X'') \<and> ds \<noteq> [] \<and> length ds \<le> 64
          then map_option of_nat (hex_number ds) else None
      | _ \<Rightarrow> None)"

lemma ref_FromHex_Hex: "ref_FromHex (ref_Hex x) = Some x"
proof -
  have "unat x < 2 ^ LENGTH(256)" by (rule unsigned_less)
  then have "length (hex_digits (unat x)) \<le> 64"
    by (intro length_hex_digits) simp_all
  moreover have "hex_digits (unat x) \<noteq> []" by (subst hex_digits.simps) simp
  ultimately show ?thesis by (simp add: ref_FromHex_def ref_Hex_def hex_number_digits)
qed

subsection \<open>The instance\<close>

definition i256_ref :: uint256_api where
  "i256_ref = \<lparr>
     i256_NewInt = ucast,
     i256_FromHex = ref_FromHex,
     i256_SetBytes = (\<lambda>b. of_nat (be_val (drop (length b - 32) b))),
     i256_AddOverflow = (\<lambda>x y. (x + y, 2 ^ 256 \<le> unat x + unat y)),
     i256_Add = (+),
     i256_Sub = (-),
     i256_MulOverflow = (\<lambda>x y. (x * y, 2 ^ 256 \<le> unat x * unat y)),
     i256_Mul = (*),
     i256_Div = (div),
     i256_Mod = (mod),
     i256_DivMod = (\<lambda>x y. (x div y, x mod y)),
     i256_Exp = (\<lambda>x y. x ^ unat y),
     i256_Sqrt = (\<lambda>x. of_nat (isqrt (unat x))),
     i256_Neg = uminus,
     i256_Abs = (\<lambda>x. if 0 \<le> sint x then x else - x),
     i256_And = (AND),
     i256_Or = (OR),
     i256_Not = NOT,
     i256_Lsh = (\<lambda>x n. push_bit (unat n) x),
     i256_Rsh = (\<lambda>x n. drop_bit (unat n) x),
     i256_SRsh = (\<lambda>x n. signed_drop_bit (unat n) x),
     i256_Gt = (>),
     i256_Lt = (<),
     i256_Eq = (=),
     i256_Sgt = (\<lambda>x y. sint x > sint y),
     i256_Slt = (\<lambda>x y. sint x < sint y),
     i256_GtUint64 = (\<lambda>x v. unat x > unat v),
     i256_LtUint64 = (\<lambda>x v. unat x < unat v),
     i256_IsZero = (\<lambda>x. x = 0),
     i256_Sign = (\<lambda>x. sgn (sint x)),
     i256_Uint64WithOverflow = (\<lambda>x. (ucast x, 2 ^ 64 \<le> unat x)),
     i256_WriteToArray32 = (\<lambda>x. be_bytes 32 (unat x)),
     i256_Hex = ref_Hex,
     i256_String = ref_Hex \<rparr>"

lemma isqrt_word:
  fixes x :: u256
  shows "unat (of_nat (isqrt (unat x)) :: u256) = isqrt (unat x)"
proof -
  have "isqrt (unat x) \<le> (isqrt (unat x))\<^sup>2" by (simp add: power2_eq_square)
  also have "\<dots> \<le> unat x" using isqrt_correct by blast
  also have "\<dots> < 2 ^ LENGTH(256)" by (rule unsigned_less)
  finally show ?thesis by (simp add: unat_of_nat)
qed

interpretation i256_ref: uint256 i256_ref
proof unfold_locales
  fix x :: u256
  show "(unat (i256_Sqrt i256_ref x))\<^sup>2 \<le> unat x"
    using isqrt_correct [of "unat x"] by (simp add: i256_ref_def isqrt_word)
  show "unat x < (unat (i256_Sqrt i256_ref x) + 1)\<^sup>2"
    using isqrt_correct [of "unat x"] by (simp add: i256_ref_def isqrt_word)
qed (simp_all add: i256_ref_def ref_FromHex_Hex word_reading)

lemma uint256_i256_ref: "uint256 i256_ref"
  by (rule i256_ref.uint256_axioms)

section \<open>Facts about 256-bit values\<close>

lemma unat_u256_less: "unat (x :: u256) < 2 ^ 256"
proof -
  have "unat x < 2 ^ LENGTH(256)" by (rule unsigned_less)
  then show ?thesis by simp
qed

lemma unat_u256_add: "unat (x + y :: u256) = (unat x + unat y) mod 2 ^ 256"
  by (simp add: unat_word_ariths)

lemma unat_u256_mult: "unat (x * y :: u256) = (unat x * unat y) mod 2 ^ 256"
  by (simp add: unat_word_ariths)

lemma unat_uint64_less: "unat (v :: uint64) < 2 ^ 64"
proof -
  have "unat v < 2 ^ LENGTH(64)" by (rule unsigned_less)
  then show ?thesis by simp
qed

lemma u256_of_uint64: "unat (ucast (v :: uint64) :: u256) = unat v"
proof -
  have "unat v < 2 ^ 256" using unat_uint64_less [of v] by simp
  then show ?thesis by (simp add: unsigned_ucast_eq take_bit_nat_eq_self_iff)
qed

lemma uint64_of_u256: "unat (x :: u256) < 2 ^ 64 \<Longrightarrow> unat (ucast x :: uint64) = unat x"
  by (simp add: unsigned_ucast_eq take_bit_nat_eq_self_iff)

end
