(* ===== verification/U256.thy ===== *)
theory U256
  imports Args Uint256_Api
begin

text \<open>
  \<^verbatim>\<open>script/types/u256.go\<close>: the unsigned 256-bit integers offered to scripts. Each method is
  a function of the package parameter \<open>U\<close> and the receiver; methods that can panic return a
  \<open>res\<close>. Every operation of the source allocates its result, so values are immutable.
\<close>

section \<open>Data and constructors\<close>

record Uint256 = uX :: u256

abbreviation mkU :: "u256 \<Rightarrow> Uint256" where
  "mkU x \<equiv> \<lparr>uX = x\<rparr>"

definition HexToU256 :: "uint256_api \<Rightarrow> string \<Rightarrow> Uint256 res" where
  "HexToU256 U hex =
     (case i256_FromHex U hex of
        None \<Rightarrow> Inl (PSymbol ''invalid hex string'')
      | Some x \<Rightarrow> Inr (mkU x))"

definition BufToU256 :: "uint256_api \<Rightarrow> bytes \<Rightarrow> Uint256" where
  "BufToU256 U buf = mkU (i256_SetBytes U buf)"

definition U256_of :: "uint256_api \<Rightarrow> uint64 \<Rightarrow> Uint256 res" where
  "U256_of U v =
     (if MaxSafeInteger < v then Inl LargerThanMaxInteger else Inr (mkU (i256_NewInt U v)))"

section \<open>Arithmetic\<close>

definition U256_Incr :: "uint256_api \<Rightarrow> Uint256 \<Rightarrow> Uint256 res" where
  "U256_Incr U u =
     (case i256_AddOverflow U (uX u) (i256_NewInt U 1) of (result, overflow) \<Rightarrow>
        if overflow then Inl (PSymbol ''overflow in addition'') else Inr (mkU result))"

definition U256_Add :: "uint256_api \<Rightarrow> Uint256 \<Rightarrow> Uint256 \<Rightarrow> Uint256 res" where
  "U256_Add U u v =
     (case i256_AddOverflow U (uX u) (uX v) of (result, overflow) \<Rightarrow>
        if overflow then Inl (PSymbol ''overflow in addition'') else Inr (mkU result))"

definition U256_UnsafeAdd :: "uint256_api \<Rightarrow> Uint256 \<Rightarrow> Uint256 \<Rightarrow> Uint256" where
  "U256_UnsafeAdd U u v = mkU (i256_Add U (uX u) (uX v))"

definition U256_And :: "uint256_api \<Rightarrow> Uint256 \<Rightarrow> Uint256 \<Rightarrow> Uint256" where
  "U256_And U u v = mkU (i256_And U (uX u) (uX v))"

definition U256_Div :: "uint256_api \<Rightarrow> Uint256 \<Rightarrow> Uint256 \<Rightarrow> Uint256 res" where
  "U256_Div U u v =
     (if i256_IsZero U (uX v) then Inl (PSymbol ''divide by zero'')
      else Inr (mkU (i256_Div U (uX u) (uX v))))"

definition U256_Mod :: "uint256_api \<Rightarrow> Uint256 \<Rightarrow> Uint256 \<Rightarrow> Uint256 res" where
  "U256_Mod U u v =
     (if i256_IsZero U (uX v) then Inl (PSymbol ''divide by zero'')
      else Inr (mkU (i256_Mod U (uX u) (uX v))))"

definition U256_DivMod :: "uint256_api \<Rightarrow> Uint256 \<Rightarrow> Uint256 \<Rightarrow> (Uint256 \<times> Uint256) res" where
  "U256_DivMod U u v =
     (if i256_IsZero U (uX v) then Inl (PSymbol ''divide by zero'')
      else case i256_DivMod U (uX u) (uX v) of (quo, rem) \<Rightarrow> Inr (mkU quo, mkU rem))"

definition U256_Exp :: "uint256_api \<Rightarrow> Uint256 \<Rightarrow> Uint256 \<Rightarrow> Uint256" where
  "U256_Exp U u v = mkU (i256_Exp U (uX u) (uX v))"

definition U256_Mul :: "uint256_api \<Rightarrow> Uint256 \<Rightarrow> Uint256 \<Rightarrow> Uint256 res" where
  "U256_Mul U u v =
     (case i256_MulOverflow U (uX u) (uX v) of (result, overflow) \<Rightarrow>
        if overflow then Inl OverflowInSigned else Inr (mkU result))"

definition U256_UnsafeMul :: "uint256_api \<Rightarrow> Uint256 \<Rightarrow> Uint256 \<Rightarrow> Uint256" where
  "U256_UnsafeMul U u v = mkU (i256_Mul U (uX u) (uX v))"

definition U256_Not :: "uint256_api \<Rightarrow> Uint256 \<Rightarrow> Uint256" where
  "U256_Not U u = mkU (i256_Not U (uX u))"

definition U256_Or :: "uint256_api \<Rightarrow> Uint256 \<Rightarrow> Uint256 \<Rightarrow> Uint256" where
  "U256_Or U u v = mkU (i256_Or U (uX u) (uX v))"

definition U256_Lsh :: "uint256_api \<Rightarrow> Uint256 \<Rightarrow> uint64 \<Rightarrow> Uint256" where
  "U256_Lsh U u v = mkU (i256_Lsh U (uX u) v)"

definition U256_Rsh :: "uint256_api \<Rightarrow> Uint256 \<Rightarrow> uint64 \<Rightarrow> Uint256" where
  "U256_Rsh U u v = mkU (i256_Rsh U (uX u) v)"

definition U256_Sqrt :: "uint256_api \<Rightarrow> Uint256 \<Rightarrow> Uint256" where
  "U256_Sqrt U u = mkU (i256_Sqrt U (uX u))"

definition U256_Sub :: "uint256_api \<Rightarrow> Uint256 \<Rightarrow> Uint256 \<Rightarrow> Uint256 res" where
  "U256_Sub U u v =
     (if i256_Lt U (uX u) (uX v) then Inl (PSymbol ''Overflow in substraction'')
      else Inr (mkU (i256_Sub U (uX u) (uX v))))"

definition U256_UnsafeSub :: "uint256_api \<Rightarrow> Uint256 \<Rightarrow> Uint256 \<Rightarrow> Uint256" where
  "U256_UnsafeSub U u v = mkU (i256_Sub U (uX u) (uX v))"

section \<open>Comparisons\<close>

definition U256_Gt :: "uint256_api \<Rightarrow> Uint256 \<Rightarrow> Uint256 \<Rightarrow> bool" where
  "U256_Gt U u v = i256_Gt U (uX u) (uX v)"

definition U256_Gte :: "uint256_api \<Rightarrow> Uint256 \<Rightarrow> Uint256 \<Rightarrow> bool" where
  "U256_Gte U u v = (\<not> i256_Gt U (uX v) (uX u))"

definition U256_GtNum :: "uint256_api \<Rightarrow> Uint256 \<Rightarrow> uint64 \<Rightarrow> bool res" where
  "U256_GtNum U u v =
     (if MaxSafeInteger < v then Inl LargerThanMaxInteger else Inr (i256_GtUint64 U (uX u) v))"

definition U256_GteNum :: "uint256_api \<Rightarrow> Uint256 \<Rightarrow> uint64 \<Rightarrow> bool res" where
  "U256_GteNum U u v =
     (if MaxSafeInteger < v then Inl LargerThanMaxInteger
      else bind_res (U256_of U v) (\<lambda>w. Inr (\<not> i256_Gt U (uX w) (uX u))))"

definition U256_IsZero :: "uint256_api \<Rightarrow> Uint256 \<Rightarrow> bool" where
  "U256_IsZero U u = i256_IsZero U (uX u)"

definition U256_Equal :: "uint256_api \<Rightarrow> Uint256 \<Rightarrow> Uint256 \<Rightarrow> bool" where
  "U256_Equal U u v = i256_Eq U (uX u) (uX v)"

definition U256_Lt :: "uint256_api \<Rightarrow> Uint256 \<Rightarrow> Uint256 \<Rightarrow> bool" where
  "U256_Lt U u v = i256_Lt U (uX u) (uX v)"

definition U256_Lte :: "uint256_api \<Rightarrow> Uint256 \<Rightarrow> Uint256 \<Rightarrow> bool" where
  "U256_Lte U u v = (\<not> i256_Lt U (uX v) (uX u))"

definition U256_LtNum :: "uint256_api \<Rightarrow> Uint256 \<Rightarrow> uint64 \<Rightarrow> bool res" where
  "U256_LtNum U u v =
     (if MaxSafeInteger < v then Inl LargerThanMaxInteger else Inr (i256_LtUint64 U (uX u) v))"

definition U256_LteNum :: "uint256_api \<Rightarrow> Uint256 \<Rightarrow> uint64 \<Rightarrow> bool res" where
  "U256_LteNum U u v =
     (if MaxSafeInteger < v then Inl LargerThanMaxInteger
      else bind_res (U256_of U v) (\<lambda>w. Inr (\<not> i256_Lt U (uX w) (uX u))))"

section \<open>Conversions\<close>

definition U256_IsSafeInteger :: "uint256_api \<Rightarrow> Uint256 \<Rightarrow> bool" where
  "U256_IsSafeInteger U u =
     (case i256_Uint64WithOverflow U (uX u) of (u64, overflow) \<Rightarrow>
        u64 \<le> MaxSafeInteger \<and> \<not> overflow)"

definition U256_ToSafeInteger :: "uint256_api \<Rightarrow> Uint256 \<Rightarrow> int64 res" where
  "U256_ToSafeInteger U u =
     (case i256_Uint64WithOverflow U (uX u) of (u64, overflow) \<Rightarrow>
        let safe = (u64 \<le> MaxSafeInteger \<and> \<not> overflow) in
        if \<not> safe then Inl (PSymbol ''Overflow in ToSafeInteger'') else Inr u64)"

definition U256_ToBuf :: "uint256_api \<Rightarrow> Uint256 \<Rightarrow> 'x jsval list \<Rightarrow> bytes res" where
  "U256_ToBuf U u args =
     (if length args \<noteq> 0 then Inl (PValue ''ToBuf has no arguments.'')
      else Inr (i256_WriteToArray32 U (uX u)))"

definition U256_ToHex :: "uint256_api \<Rightarrow> Uint256 \<Rightarrow> 'x jsval list \<Rightarrow> string res" where
  "U256_ToHex U u args =
     (if length args \<noteq> 0 then Inl (PValue ''ToHex has no arguments.'')
      else Inr (i256_Hex U (uX u)))"

definition U256_String :: "uint256_api \<Rightarrow> Uint256 \<Rightarrow> string" where
  "U256_String U u = i256_String U (uX u)"

lemmas U256_arith_defs =
  U256_Incr_def U256_Add_def U256_UnsafeAdd_def U256_Div_def U256_Mod_def U256_DivMod_def
  U256_Exp_def U256_Mul_def U256_UnsafeMul_def U256_Sqrt_def U256_Sub_def U256_UnsafeSub_def

lemmas U256_compare_defs =
  U256_Gt_def U256_Gte_def U256_GtNum_def U256_GteNum_def U256_IsZero_def U256_Equal_def
  U256_Lt_def U256_Lte_def U256_LtNum_def U256_LteNum_def U256_of_def

text \<open>The mathematical value of an unsigned integer.\<close>

abbreviation uval :: "Uint256 \<Rightarrow> nat" where
  "uval u \<equiv> unat (uX u)"

section \<open>Behaviour under the documented laws of the package\<close>

context uint256
begin

lemma Add_result:
  "U256_Add U u v =
     (if uval u + uval v < 2 ^ 256 then Inr (mkU (uX u + uX v))
      else Inl (PSymbol ''overflow in addition''))"
  by (simp add: U256_Add_def arith_laws)

lemma Incr_result:
  "U256_Incr U u =
     (if uval u + 1 < 2 ^ 256 then Inr (mkU (uX u + 1))
      else Inl (PSymbol ''overflow in addition''))"
  by (simp add: U256_Incr_def arith_laws)

lemma Sub_result:
  "U256_Sub U u v =
     (if uval v \<le> uval u then Inr (mkU (uX u - uX v))
      else Inl (PSymbol ''Overflow in substraction''))"
  by (simp add: U256_Sub_def arith_laws order_laws)

lemma Mul_result:
  "U256_Mul U u v =
     (if uval u * uval v < 2 ^ 256 then Inr (mkU (uX u * uX v)) else Inl OverflowInSigned)"
  by (simp add: U256_Mul_def arith_laws)

lemma U256_of_result:
  "U256_of U v = (if unat v \<le> 2 ^ 53 - 1 then Inr (mkU (ucast v)) else Inl LargerThanMaxInteger)"
  by (simp add: U256_of_def arith_laws word_reading)

lemma uval_U256_of: "U256_of U v = Inr u \<Longrightarrow> uval u = unat v"
  by (auto simp: U256_of_result u256_of_uint64 split: if_splits)

lemma ToSafeInteger_result:
  "U256_ToSafeInteger U u =
     (if uval u \<le> 2 ^ 53 - 1 then Inr (ucast (uX u))
      else Inl (PSymbol ''Overflow in ToSafeInteger''))"
proof (cases "uval u < 2 ^ 64")
  case True
  then have "unat (ucast (uX u) :: uint64) = uval u" by (rule uint64_of_u256)
  with True show ?thesis
    by (simp add: U256_ToSafeInteger_def Uint64WithOverflow word_reading)
next
  case False
  then show ?thesis by (simp add: U256_ToSafeInteger_def Uint64WithOverflow)
qed

lemma IsSafeInteger_result: "U256_IsSafeInteger U u \<longleftrightarrow> uval u \<le> 2 ^ 53 - 1"
proof -
  have "U256_IsSafeInteger U u \<longleftrightarrow> (\<exists>n. U256_ToSafeInteger U u = Inr n)"
    by (simp add: U256_IsSafeInteger_def U256_ToSafeInteger_def Uint64WithOverflow)
  then show ?thesis by (simp add: ToSafeInteger_result)
qed

end

lemma uval_add: "uval u + uval v < 2 ^ 256 \<Longrightarrow> unat (uX u + uX v) = uval u + uval v"
  by (simp add: unat_u256_add)

lemma uval_mult: "uval u * uval v < 2 ^ 256 \<Longrightarrow> unat (uX u * uX v) = uval u * uval v"
  by (simp add: unat_u256_mult)

lemma uval_sub: "uval v \<le> uval u \<Longrightarrow> unat (uX u - uX v) = uval u - uval v"
  by (simp add: unat_sub word_reading)

lemma be_val_32_u256: "be_val (be_bytes 32 (unat (x :: u256))) = unat x"
  using unat_u256_less [of x] by (simp add: be_val_be_bytes)

section \<open>Properties\<close>

text \<open>
  The contract of a checked operation: when the exact result \<open>z\<close> is a 256-bit natural number
  the operation returns it, otherwise it panics with \<open>e\<close>.
\<close>

definition checked_result :: "Uint256 res \<Rightarrow> int \<Rightarrow> go_panic \<Rightarrow> bool" where
  "checked_result r z e \<longleftrightarrow>
     (if 0 \<le> z \<and> z < 2 ^ 256 then (\<exists>w. r = Inr w \<and> int (uval w) = z) else r = Inl e)"

lemma int_less_2_256: "int n < 2 ^ 256 \<longleftrightarrow> n < 2 ^ 256"
  by (metis of_nat_less_iff of_nat_numeral of_nat_power)

lemma checked_resultI:
  assumes "int n = z" and "n < 2 ^ 256 \<Longrightarrow> r = Inr w \<and> uval w = n"
    and "2 ^ 256 \<le> n \<Longrightarrow> r = Inl e"
  shows "checked_result r z e"
  using assms by (auto simp: checked_result_def int_less_2_256 not_less)

text \<open>
  C11: Checked unsigned arithmetic. \<open>Add\<close>, \<open>Incr\<close>, \<open>Sub\<close> and \<open>Mul\<close> return the exact sum,
  successor, difference and product, and panic exactly when it does not fit in 256 bits.\<close>

theorem u256_checked_arithmetic:
  assumes "uint256 U"
  shows "checked_result (U256_Add U u v) (int (uval u) + int (uval v)) (PSymbol ''overflow in addition'')
    \<and> checked_result (U256_Incr U u) (int (uval u) + 1) (PSymbol ''overflow in addition'')
    \<and> checked_result (U256_Sub U u v) (int (uval u) - int (uval v)) (PSymbol ''Overflow in substraction'')
    \<and> checked_result (U256_Mul U u v) (int (uval u) * int (uval v)) OverflowInSigned"
proof -
  note laws = uint256.Add_result [OF assms] uint256.Incr_result [OF assms]
    uint256.Sub_result [OF assms] uint256.Mul_result [OF assms]
  have one: "unat (uX u + 1) = uval u + 1" if "uval u + 1 < 2 ^ 256"
    using uval_add [of u "mkU 1"] that by simp
  have "checked_result (U256_Add U u v) (int (uval u) + int (uval v)) (PSymbol ''overflow in addition'')"
    by (rule checked_resultI [where n = "uval u + uval v" and w = "mkU (uX u + uX v)"]) (simp_all add: laws uval_add)
  moreover have "checked_result (U256_Incr U u) (int (uval u) + 1) (PSymbol ''overflow in addition'')"
    by (rule checked_resultI [where n = "uval u + 1" and w = "mkU (uX u + 1)"]) (simp_all add: laws one)
  moreover have "checked_result (U256_Sub U u v) (int (uval u) - int (uval v))
      (PSymbol ''Overflow in substraction'')"
  proof (cases "uval v \<le> uval u")
    case True
    then have "uval u - uval v < 2 ^ 256" using unat_u256_less [of "uX u"] by linarith
    with True show ?thesis
      by (intro checked_resultI [where n = "uval u - uval v" and w = "mkU (uX u - uX v)"]) (simp_all add: laws uval_sub)
  next
    case False
    then have "\<not> 0 \<le> int (uval u) - int (uval v)" by linarith
    with False show ?thesis unfolding checked_result_def laws by (simp only: if_False simp_thms)
  qed
  moreover have "checked_result (U256_Mul U u v) (int (uval u) * int (uval v)) OverflowInSigned"
    by (rule checked_resultI [where n = "uval u * uval v" and w = "mkU (uX u * uX v)"]) (simp_all add: laws uval_mult)
  ultimately show ?thesis by blast
qed

theorem u256_checked_arithmetic_witness:
  "uint256 i256_ref
    \<and> checked_result (U256_Add i256_ref (mkU 7) (mkU 5)) 12 (PSymbol ''overflow in addition'')
    \<and> checked_result (U256_Sub i256_ref (mkU 7) (mkU 5)) 2 (PSymbol ''Overflow in substraction'')"
  using uint256_i256_ref u256_checked_arithmetic [OF uint256_i256_ref, of "mkU 7" "mkU 5"]
  by simp

text \<open>
  Division. With a non-zero divisor, \<open>DivMod\<close> returns the quotient and remainder of
  Euclidean division, \<open>Div\<close> and \<open>Mod\<close> return the same two numbers; with a zero divisor all
  three panic.\<close>

theorem u256_division:
  assumes "uint256 U"
  shows "if uval v = 0
    then U256_Div U u v = Inl (PSymbol ''divide by zero'')
       \<and> U256_Mod U u v = Inl (PSymbol ''divide by zero'')
       \<and> U256_DivMod U u v = Inl (PSymbol ''divide by zero'')
    else \<exists>q r. U256_DivMod U u v = Inr (q, r) \<and> U256_Div U u v = Inr q \<and> U256_Mod U u v = Inr r
       \<and> uval u = uval q * uval v + uval r \<and> uval r < uval v"
proof (cases "uX v = 0")
  case True
  then show ?thesis
    by (simp add: U256_arith_defs uint256.IsZero [OF assms])
next
  case False
  then have v: "0 < uval v" by (simp add: unat_gt_0)
  have "uval u = unat (uX u div uX v) * uval v + unat (uX u mod uX v)"
    by (simp add: unat_div_distrib unat_mod_distrib)
  moreover have "unat (uX u mod uX v) < uval v"
    using v by (simp add: unat_mod_distrib)
  ultimately show ?thesis
    using False v
    by (simp add: U256_arith_defs uint256.IsZero [OF assms] uint256.arith_laws [OF assms])
qed

theorem u256_division_witness:
  "uint256 i256_ref \<and> uval (mkU 7) \<noteq> 0
    \<and> (\<exists>q r. U256_DivMod i256_ref (mkU 100) (mkU 7) = Inr (q, r) \<and> uval q = 14 \<and> uval r = 2)"
  using uint256_i256_ref u256_division [OF uint256_i256_ref, of "mkU 7" "mkU 100"]
  by (auto simp: U256_DivMod_def i256_ref.arith_laws i256_ref.IsZero)

text \<open>
  Comparisons. Every comparison between two integers, and between an integer and a safe
  JavaScript number, decides the order of the values; a number above 2^53-1 is refused by all
  four \<open>...Num\<close> variants.\<close>

theorem u256_comparisons:
  assumes "uint256 U"
  shows "(U256_Gt U u v \<longleftrightarrow> uval u > uval v) \<and> (U256_Gte U u v \<longleftrightarrow> uval u \<ge> uval v)
    \<and> (U256_Lt U u v \<longleftrightarrow> uval u < uval v) \<and> (U256_Lte U u v \<longleftrightarrow> uval u \<le> uval v)
    \<and> (U256_Equal U u v \<longleftrightarrow> uval u = uval v) \<and> (U256_IsZero U u \<longleftrightarrow> uval u = 0)
    \<and> (if unat n \<le> 2 ^ 53 - 1
        then U256_GtNum U u n = Inr (uval u > unat n) \<and> U256_GteNum U u n = Inr (uval u \<ge> unat n)
           \<and> U256_LtNum U u n = Inr (uval u < unat n) \<and> U256_LteNum U u n = Inr (uval u \<le> unat n)
        else \<forall>f \<in> {U256_GtNum, U256_GteNum, U256_LtNum, U256_LteNum}. f U u n = Inl LargerThanMaxInteger)"
  by (auto simp: U256_compare_defs uint256.order_laws [OF assms] uint256.NewInt [OF assms]
      u256_of_uint64 word_reading word_unat_eq_iff not_less)

theorem u256_comparisons_witness:
  "uint256 i256_ref \<and> U256_GteNum i256_ref (mkU 5) 5 = Inr True"
  using uint256_i256_ref u256_comparisons [OF uint256_i256_ref, of "mkU 5" "mkU 5" 5]
  by (auto simp: word_reading)

text \<open>
  Conversions round trip. The 32-byte big-endian buffer and the hexadecimal text of an
  integer read back as the same integer; a safe number becomes an integer and back unchanged, and
  \<open>ToSafeInteger\<close> succeeds exactly when \<open>IsSafeInteger\<close> holds, i.e. up to 2^53-1.\<close>

theorem u256_conversions:
  assumes "uint256 U"
  shows "(\<exists>b. U256_ToBuf U u ([] :: 'x jsval list) = Inr b \<and> length b = 32 \<and> BufToU256 U b = u)
    \<and> (\<exists>s. U256_ToHex U u ([] :: 'x jsval list) = Inr s \<and> HexToU256 U s = Inr u)
    \<and> (if uval u \<le> 2 ^ 53 - 1
        then U256_IsSafeInteger U u
           \<and> (\<exists>n. U256_ToSafeInteger U u = Inr n \<and> unat n = uval u \<and> U256_of U n = Inr u)
        else \<not> U256_IsSafeInteger U u
           \<and> U256_ToSafeInteger U u = Inl (PSymbol ''Overflow in ToSafeInteger''))"
proof -
  have buf: "\<exists>b. U256_ToBuf U u ([] :: 'x jsval list) = Inr b \<and> length b = 32 \<and> BufToU256 U b = u"
    by (simp add: U256_ToBuf_def BufToU256_def uint256.WriteToArray32 [OF assms]
        uint256.SetBytes [OF assms] be_val_32_u256)
  have hex: "\<exists>s. U256_ToHex U u ([] :: 'x jsval list) = Inr s \<and> HexToU256 U s = Inr u"
    by (simp add: U256_ToHex_def HexToU256_def uint256.FromHex_Hex [OF assms])
  have safe: "\<exists>n. U256_ToSafeInteger U u = Inr n \<and> unat n = uval u \<and> U256_of U n = Inr u"
    if small: "uval u \<le> 2 ^ 53 - 1"
  proof -
    have n: "unat (ucast (uX u) :: uint64) = uval u"
      using small by (intro uint64_of_u256) simp
    then have "(ucast (ucast (uX u) :: uint64) :: u256) = uX u"
      by (simp add: word_unat_eq_iff u256_of_uint64)
    with n small show ?thesis
      by (simp add: uint256.ToSafeInteger_result [OF assms] uint256.U256_of_result [OF assms])
  qed
  show ?thesis
    using buf hex safe
    by (simp add: uint256.IsSafeInteger_result [OF assms] uint256.ToSafeInteger_result [OF assms])
qed

theorem u256_conversions_witness:
  "uint256 i256_ref \<and> U256_IsSafeInteger i256_ref (mkU 42)"
  using uint256_i256_ref u256_conversions [OF uint256_i256_ref, of "mkU 42"] by auto

text \<open>
  Unchecked arithmetic wraps modulo 2^256, and agrees with the checked operation whenever
  that one returns; \<open>Sqrt\<close> is the integer square root.\<close>

theorem u256_unchecked_arithmetic:
  assumes "uint256 U"
  shows "int (uval (U256_UnsafeAdd U u v)) = (int (uval u) + int (uval v)) mod 2 ^ 256
    \<and> int (uval (U256_UnsafeSub U u v)) = (int (uval u) - int (uval v)) mod 2 ^ 256
    \<and> int (uval (U256_UnsafeMul U u v)) = (int (uval u) * int (uval v)) mod 2 ^ 256
    \<and> (\<forall>r. U256_Add U u v = Inr r \<longrightarrow> U256_UnsafeAdd U u v = r)
    \<and> (\<forall>r. U256_Sub U u v = Inr r \<longrightarrow> U256_UnsafeSub U u v = r)
    \<and> (\<forall>r. U256_Mul U u v = Inr r \<longrightarrow> U256_UnsafeMul U u v = r)
    \<and> (uval (U256_Sqrt U u))\<^sup>2 \<le> uval u \<and> uval u < (uval (U256_Sqrt U u) + 1)\<^sup>2"
proof -
  note res = uint256.Add_result [OF assms] uint256.Sub_result [OF assms] uint256.Mul_result [OF assms]
  have agree: "(\<forall>r. U256_Add U u v = Inr r \<longrightarrow> U256_UnsafeAdd U u v = r)
    \<and> (\<forall>r. U256_Sub U u v = Inr r \<longrightarrow> U256_UnsafeSub U u v = r)
    \<and> (\<forall>r. U256_Mul U u v = Inr r \<longrightarrow> U256_UnsafeMul U u v = r)"
    by (simp add: res U256_arith_defs uint256.arith_laws [OF assms] split: if_splits)
  have wrap: "int (uval (U256_UnsafeAdd U u v)) = (int (uval u) + int (uval v)) mod 2 ^ 256
    \<and> int (uval (U256_UnsafeSub U u v)) = (int (uval u) - int (uval v)) mod 2 ^ 256
    \<and> int (uval (U256_UnsafeMul U u v)) = (int (uval u) * int (uval v)) mod 2 ^ 256"
    by (simp add: U256_arith_defs uint256.arith_laws [OF assms] uint_word_ariths)
  show ?thesis
    using agree wrap uint256.Sqrt [OF assms, of "uX u"] by (simp add: U256_Sqrt_def)
qed

theorem u256_unchecked_arithmetic_witness:
  "uint256 i256_ref \<and> int (uval (U256_UnsafeAdd i256_ref (mkU (- 1)) (mkU 1))) = 0"
  using uint256_i256_ref
    u256_unchecked_arithmetic [OF uint256_i256_ref, of "mkU (- 1)" "mkU 1"]
  by (simp add: U256_UnsafeAdd_def i256_ref.arith_laws)

end
