(* ===== verification/S256.thy ===== *)
theory S256
  imports U256
begin

text \<open>
  \<^verbatim>\<open>script/types/s256.go\<close>: the signed 256-bit integers offered to scripts, in two's
  complement over the same 256-bit words as \<^verbatim>\<open>u256.go\<close>, and the conversions between the two.
\<close>

section \<open>Data and constructors\<close>

record Sint256 = sx :: u256

abbreviation mkS :: "u256 \<Rightarrow> Sint256" where
  "mkS x \<equiv> \<lparr>sx = x\<rparr>"

definition MinNegValue :: "uint256_api \<Rightarrow> u256" where
  "MinNegValue U = i256_Lsh U (i256_NewInt U 1) 255"

definition HexToS256 :: "uint256_api \<Rightarrow> string \<Rightarrow> Sint256 res" where
  "HexToS256 U hex =
     (case i256_FromHex U hex of
        None \<Rightarrow> Inl (PSymbol ''invalid hex string'')
      | Some x \<Rightarrow> Inr (mkS x))"

definition BufToS256 :: "uint256_api \<Rightarrow> bytes \<Rightarrow> Sint256" where
  "BufToS256 U buf = mkS (i256_SetBytes U buf)"

text \<open>\<open>-v\<close> is Go's 64-bit negation, so it wraps at the least \<^verbatim>\<open>int64\<close>.\<close>

definition S256_of :: "uint256_api \<Rightarrow> int64 \<Rightarrow> Sint256 res" where
  "S256_of U v =
     (if sint v > sint MaxSafeInteger \<or> sint (- v) > sint MaxSafeInteger
      then Inl LargerThanMaxInteger
      else if 0 \<le> sint v then Inr (mkS (i256_NewInt U v))
      else let tmp = i256_NewInt U (- v) in Inr (mkS (i256_Neg U tmp)))"

definition S256_ToU256 :: "Sint256 \<Rightarrow> Uint256" where
  "S256_ToU256 s = mkU (sx s)"

definition U256_ToS256 :: "Uint256 \<Rightarrow> Sint256" where
  "U256_ToS256 u = mkS (uX u)"

section \<open>Arithmetic\<close>

definition S256_Abs :: "uint256_api \<Rightarrow> Sint256 \<Rightarrow> Sint256 res" where
  "S256_Abs U s =
     (if i256_Eq U (sx s) (MinNegValue U) then Inl (PSymbol ''overflow in Abs'')
      else Inr (mkS (i256_Abs U (sx s))))"

definition S256_Neg :: "uint256_api \<Rightarrow> Sint256 \<Rightarrow> Sint256 res" where
  "S256_Neg U s =
     (if i256_Eq U (sx s) (MinNegValue U) then Inl (PSymbol ''overflow in Neg'')
      else Inr (mkS (i256_Neg U (sx s))))"

definition S256_Add :: "uint256_api \<Rightarrow> Sint256 \<Rightarrow> Sint256 \<Rightarrow> Sint256 res" where
  "S256_Add U s v =
     (let (result, overflow) =
        (if 0 \<le> i256_Sign U (sx s) \<and> 0 \<le> i256_Sign U (sx v)
         then i256_AddOverflow U (sx s) (sx v)
         else let result = i256_Add U (sx s) (sx v) in
           (result, i256_Sign U (sx s) < 0 \<and> i256_Sign U (sx v) < 0 \<and> 0 \<le> i256_Sign U result))
      in if overflow then Inl (PSymbol ''overflow in signed addition'') else Inr (mkS result))"

definition S256_Sub :: "uint256_api \<Rightarrow> Sint256 \<Rightarrow> Sint256 \<Rightarrow> Sint256 res" where
  "S256_Sub U s v =
     (let result = i256_Sub U (sx s) (sx v);
          uSign = i256_Sign U (sx s); vSign = i256_Sign U (sx v); rSign = i256_Sign U result;
          overflow = (uSign > 0 \<and> vSign < 0 \<and> rSign < 0) \<or> (uSign < 0 \<and> vSign > 0 \<and> rSign > 0)
      in if overflow then Inl (PSymbol ''overflow in signed substraction'') else Inr (mkS result))"

definition S256_Mul :: "uint256_api \<Rightarrow> Sint256 \<Rightarrow> Sint256 \<Rightarrow> Sint256 res" where
  "S256_Mul U s v =
     (if i256_Eq U (sx s) (MinNegValue U) \<or> i256_Eq U (sx v) (MinNegValue U)
      then Inl (PSymbol ''overflow in signed multiplication'')
      else let p = i256_Abs U (sx s); q = i256_Abs U (sx v);
               (result, overflow) = i256_MulOverflow U p q
           in if overflow then Inl (PSymbol ''overflow in signed multiplication'')
              else Inr (mkS (if i256_Sign U (sx s) * i256_Sign U (sx v) = -1
                             then i256_Neg U result else result)))"

definition S256_Div :: "uint256_api \<Rightarrow> Sint256 \<Rightarrow> Sint256 \<Rightarrow> Sint256 res" where
  "S256_Div U s v =
     (if i256_Eq U (sx s) (MinNegValue U) \<or> i256_Eq U (sx v) (MinNegValue U)
      then Inl (PSymbol ''overflow in division'')
      else if i256_IsZero U (sx v) then Inl (PSymbol ''divide by zero'')
      else let p = i256_Abs U (sx s); q = i256_Abs U (sx v); result = i256_Div U p q
           in Inr (mkS (if i256_Sign U (sx s) * i256_Sign U (sx v) = -1
                        then i256_Neg U result else result)))"

definition S256_Lsh :: "uint256_api \<Rightarrow> Sint256 \<Rightarrow> uint64 \<Rightarrow> Sint256" where
  "S256_Lsh U s v = mkS (i256_Lsh U (sx s) v)"

definition S256_Rsh :: "uint256_api \<Rightarrow> Sint256 \<Rightarrow> uint64 \<Rightarrow> Sint256" where
  "S256_Rsh U s v = mkS (i256_SRsh U (sx s) v)"

section \<open>Comparisons\<close>

definition S256_Equal :: "uint256_api \<Rightarrow> Sint256 \<Rightarrow> Sint256 \<Rightarrow> bool" where
  "S256_Equal U s v = i256_Eq U (sx s) (sx v)"

definition S256_IsZero :: "uint256_api \<Rightarrow> Sint256 \<Rightarrow> bool" where
  "S256_IsZero U s = i256_IsZero U (sx s)"

definition S256_Sign :: "uint256_api \<Rightarrow> Sint256 \<Rightarrow> int" where
  "S256_Sign U s = i256_Sign U (sx s)"

definition S256_Gt :: "uint256_api \<Rightarrow> Sint256 \<Rightarrow> Sint256 \<Rightarrow> bool" where
  "S256_Gt U s v = i256_Sgt U (sx s) (sx v)"

definition S256_Gte :: "uint256_api \<Rightarrow> Sint256 \<Rightarrow> Sint256 \<Rightarrow> bool" where
  "S256_Gte U s v = (\<not> i256_Sgt U (sx v) (sx s))"

definition S256_GtNum :: "uint256_api \<Rightarrow> Sint256 \<Rightarrow> int64 \<Rightarrow> bool res" where
  "S256_GtNum U s v =
     (if sint v > sint MaxSafeInteger \<or> sint (- v) > sint MaxSafeInteger
      then Inl LargerThanMaxInteger
      else bind_res (S256_of U v) (\<lambda>w. Inr (i256_Sgt U (sx s) (sx w))))"

definition S256_GteNum :: "uint256_api \<Rightarrow> Sint256 \<Rightarrow> int64 \<Rightarrow> bool res" where
  "S256_GteNum U s v =
     (if sint v > sint MaxSafeInteger \<or> sint (- v) > sint MaxSafeInteger
      then Inl LargerThanMaxInteger
      else bind_res (S256_of U v) (\<lambda>w. Inr (\<not> i256_Sgt U (sx w) (sx s))))"

definition S256_Lt :: "uint256_api \<Rightarrow> Sint256 \<Rightarrow> Sint256 \<Rightarrow> bool" where
  "S256_Lt U s v = i256_Slt U (sx s) (sx v)"

definition S256_Lte :: "uint256_api \<Rightarrow> Sint256 \<Rightarrow> Sint256 \<Rightarrow> bool" where
  "S256_Lte U s v = (\<not> i256_Slt U (sx v) (sx s))"

definition S256_LtNum :: "uint256_api \<Rightarrow> Sint256 \<Rightarrow> int64 \<Rightarrow> bool res" where
  "S256_LtNum U s v =
     (if sint v > sint MaxSafeInteger \<or> sint (- v) > sint MaxSafeInteger
      then Inl LargerThanMaxInteger
      else bind_res (S256_of U v) (\<lambda>w. Inr (i256_Slt U (sx s) (sx w))))"

text \<open>\<open>LteNum\<close> tests only the upper bound itself; \<open>S256\<close> tests both.\<close>

definition S256_LteNum :: "uint256_api \<Rightarrow> Sint256 \<Rightarrow> int64 \<Rightarrow> bool res" where
  "S256_LteNum U s v =
     (if sint v > sint MaxSafeInteger then Inl LargerThanMaxInteger
      else bind_res (S256_of U v) (\<lambda>w. Inr (\<not> i256_Slt U (sx w) (sx s))))"

section \<open>Conversions\<close>

text \<open>
  In \<open>IsSafeInteger\<close> and \<open>ToSafeInteger\<close> the value computed for a negative receiver is
  overwritten by the unconditional assignment that follows it.
\<close>

definition S256_IsSafeInteger :: "uint256_api \<Rightarrow> Sint256 \<Rightarrow> bool" where
  "S256_IsSafeInteger U s =
     (let (u64, overflow) = (0, False);
          (u64, overflow) =
            (if i256_Sign U (sx s) < 0
             then let y = i256_Neg U (sx s) in i256_Uint64WithOverflow U y
             else (u64, overflow));
          (u64, overflow) = i256_Uint64WithOverflow U (sx s)
      in u64 \<le> MaxSafeInteger \<and> \<not> overflow)"

definition S256_ToSafeInteger :: "uint256_api \<Rightarrow> Sint256 \<Rightarrow> int64 res" where
  "S256_ToSafeInteger U s =
     (let (u64, overflow) = (0, False);
          (u64, overflow) =
            (if i256_Sign U (sx s) < 0
             then let y = i256_Neg U (sx s) in i256_Uint64WithOverflow U y
             else (u64, overflow));
          (u64, overflow) = i256_Uint64WithOverflow U (sx s);
          safe = (u64 \<le> MaxSafeInteger \<and> \<not> overflow)
      in if \<not> safe then Inl (PSymbol ''Overflow in ToSafeInteger'')
         else if i256_Sign U (sx s) < 0 then Inr (- u64)
         else Inr u64)"

definition S256_ToBuf :: "uint256_api \<Rightarrow> Sint256 \<Rightarrow> 'x jsval list \<Rightarrow> bytes res" where
  "S256_ToBuf U s args =
     (if length args \<noteq> 0 then Inl (PValue ''ToBuf has no arguments.'')
      else Inr (i256_WriteToArray32 U (sx s)))"

definition S256_ToHex :: "uint256_api \<Rightarrow> Sint256 \<Rightarrow> 'x jsval list \<Rightarrow> string res" where
  "S256_ToHex U s args =
     (if length args \<noteq> 0 then Inl (PValue ''ToHex has no arguments.'')
      else Inr (i256_Hex U (sx s)))"

definition S256_String :: "uint256_api \<Rightarrow> Sint256 \<Rightarrow> string" where
  "S256_String U s =
     (if i256_Sign U (sx s) < 0 then ''-'' @ i256_String U (i256_Neg U (sx s))
      else i256_String U (sx s))"

section \<open>Two's complement arithmetic\<close>

abbreviation sval :: "Sint256 \<Rightarrow> int" where
  "sval s \<equiv> sint (sx s)"

text \<open>Reduction of an integer into the signed 256-bit range.\<close>

definition swrap :: "int \<Rightarrow> int" where
  "swrap z = (z + 2 ^ 255) mod 2 ^ 256 - 2 ^ 255"

lemma swrap_self: "- (2 ^ 255) \<le> z \<Longrightarrow> z < 2 ^ 255 \<Longrightarrow> swrap z = z"
  by (simp add: swrap_def)

lemma swrap_above: "2 ^ 255 \<le> z \<Longrightarrow> z < 3 * 2 ^ 255 \<Longrightarrow> swrap z = z - 2 ^ 256"
proof -
  assume z: "2 ^ 255 \<le> z" "z < 3 * 2 ^ 255"
  have "(z + 2 ^ 255) mod 2 ^ 256 = (z + 2 ^ 255 - 2 ^ 256) mod 2 ^ 256"
    by (metis minus_mod_self2)
  also have "\<dots> = z + 2 ^ 255 - 2 ^ 256" using z by (intro mod_pos_pos_trivial) simp_all
  finally show ?thesis by (simp add: swrap_def)
qed

lemma swrap_below: "- (3 * 2 ^ 255) \<le> z \<Longrightarrow> z < - (2 ^ 255) \<Longrightarrow> swrap z = z + 2 ^ 256"
proof -
  assume z: "- (3 * 2 ^ 255) \<le> z" "z < - (2 ^ 255)"
  have "(z + 2 ^ 255) mod 2 ^ 256 = (z + 2 ^ 255 + 2 ^ 256) mod 2 ^ 256"
    by (metis mod_add_self2)
  also have "\<dots> = z + 2 ^ 255 + 2 ^ 256" using z by (intro mod_pos_pos_trivial) simp_all
  finally show ?thesis by (simp add: swrap_def)
qed

lemma signed_take_bit_swrap: "signed_take_bit 255 z = swrap z"
  by (simp add: signed_take_bit_eq_take_bit_shift swrap_def take_bit_eq_mod)

lemma sint_u256_add: "sint (x + y :: u256) = swrap (sint x + sint y)"
  by (simp add: sint_word_ariths signed_take_bit_swrap)

lemma sint_u256_sub: "sint (x - y :: u256) = swrap (sint x - sint y)"
  by (simp add: sint_word_ariths signed_take_bit_swrap)

lemma sint_u256_mult: "sint (x * y :: u256) = swrap (sint x * sint y)"
  by (simp add: sint_word_ariths signed_take_bit_swrap)

lemma sint_u256_uminus: "sint (- x :: u256) = swrap (- sint x)"
  by (simp add: sint_word_ariths signed_take_bit_swrap)

lemma sint_u256_range: "- (2 ^ 255) \<le> sint (x :: u256)" "sint (x :: u256) < 2 ^ 255"
  using sint_greater_eq [of x] sint_less [of x] by simp_all

lemma swrap_cases:
  assumes "- (3 * 2 ^ 255) \<le> z" "z < 3 * 2 ^ 255"
  shows "(z < - (2 ^ 255) \<and> swrap z = z + 2 ^ 256) \<or> (- (2 ^ 255) \<le> z \<and> z < 2 ^ 255 \<and> swrap z = z)
    \<or> (2 ^ 255 \<le> z \<and> swrap z = z - 2 ^ 256)"
  using assms swrap_below [of z] swrap_self [of z] swrap_above [of z] by linarith

lemma uint_u256_range: "0 \<le> uint (x :: u256)" "uint (x :: u256) < 2 ^ 256"
  using unsigned_less [of x, where ?'a = int] by simp_all

lemma uint_u256_sint: "uint (x :: u256) = (if 0 \<le> sint x then sint x else sint x + 2 ^ 256)"
proof -
  have "sint x = swrap (uint x)" by (simp add: sint_uint signed_take_bit_swrap)
  moreover have "- (3 * 2 ^ 255) \<le> uint x" "uint x < 3 * 2 ^ 255"
    by (rule order_trans [OF _ uint_u256_range(1)], simp)
      (rule less_trans [OF uint_u256_range(2)], simp)
  note swrap_cases [OF this]
  ultimately show ?thesis
    using uint_u256_range [of x] by auto
qed

lemma sint_eq_iff_u256: "sint x = sint y \<longleftrightarrow> x = (y :: u256)"
  by (rule word_eq_iff_signed [symmetric])

lemma sgn_pos_mult_neg: "sgn (a :: int) * sgn b = -1 \<longleftrightarrow> (a < 0 \<and> 0 < b) \<or> (0 < a \<and> b < 0)"
  by (auto simp: sgn_if)

section \<open>Behaviour under the documented laws of the package\<close>

text \<open>The value the source calls \<^verbatim>\<open>MinNegValue\<close>, -2^255, is its own negation.\<close>

abbreviation is_min :: "Sint256 \<Rightarrow> bool" where
  "is_min s \<equiv> sval s = - (2 ^ 255)"

lemma sint_min_word: "sint (push_bit 255 1 :: u256) = - (2 ^ 255)"
  by (simp add: push_bit_eq_mult sint_uint signed_take_bit_swrap swrap_def)

lemma not_min_bound: "\<not> is_min s \<Longrightarrow> \<bar>sval s\<bar> < 2 ^ 255"
  using sint_u256_range [of "sx s"] by (simp add: abs_if)

lemma sint_neg_not_min: "\<not> is_min s \<Longrightarrow> sint (- sx s) = - sval s"
  using sint_u256_range [of "sx s"] by (simp add: sint_u256_uminus swrap_def)

context uint256
begin

lemma Sign_iff:
  "0 < i256_Sign U x \<longleftrightarrow> 0 < sint x" "i256_Sign U x < 0 \<longleftrightarrow> sint x < 0"
  "0 \<le> i256_Sign U x \<longleftrightarrow> 0 \<le> sint x"
  by (auto simp: Sign sgn_if)

lemma MinNeg: "MinNegValue U = push_bit 255 1"
  by (simp add: MinNegValue_def Lsh NewInt)

lemma is_MinNeg: "i256_Eq U (sx s) (MinNegValue U) \<longleftrightarrow> is_min s"
  by (simp add: MinNeg Eq sint_eq_iff_u256 [symmetric] sint_min_word)

lemma abs_value: "\<not> is_min s \<Longrightarrow> uint (i256_Abs U (sx s)) = \<bar>sval s\<bar>"
  by (simp add: Abs uint_u256_sint sint_neg_not_min)

lemma S256_Neg_result:
  "S256_Neg U s = (if is_min s then Inl (PSymbol ''overflow in Neg'') else Inr (mkS (- sx s)))"
  by (simp add: S256_Neg_def is_MinNeg Neg)

lemma S256_Add_result:
  "S256_Add U s v =
     (if sval s + sval v < - (2 ^ 255) then Inl (PSymbol ''overflow in signed addition'')
      else Inr (mkS (sx s + sx v)))"
proof (cases "0 \<le> sval s \<and> 0 \<le> sval v")
  case True
  then have "uint (sx s) + uint (sx v) < 2 ^ 256"
    using sint_u256_range [of "sx s"] sint_u256_range [of "sx v"] by (simp add: uint_u256_sint)
  then have "int (unat (sx s) + unat (sx v)) < 2 ^ 256" by simp
  then have "unat (sx s) + unat (sx v) < 2 ^ 256" unfolding int_less_2_256 .
  with True show ?thesis by (simp add: S256_Add_def Sign_iff AddOverflow)
next
  case False
  have "sval s < 0 \<and> sval v < 0 \<and> 0 \<le> sint (sx s + sx v) \<longleftrightarrow> sval s + sval v < - (2 ^ 255)"
    using sint_u256_range [of "sx s"] sint_u256_range [of "sx v"] swrap_cases [of "sval s + sval v"]
    unfolding sint_u256_add by auto
  with False show ?thesis by (auto simp: S256_Add_def Sign_iff Add Let_def)
qed

lemma S256_Sub_result:
  "S256_Sub U s v =
     (if (0 < sval s \<and> 2 ^ 255 \<le> sval s - sval v) \<or> sval s - sval v < - (2 ^ 255)
      then Inl (PSymbol ''overflow in signed substraction'') else Inr (mkS (sx s - sx v)))"
proof -
  note rng = sint_u256_range [of "sx s"] sint_u256_range [of "sx v"]
  note wrap = swrap_cases [of "sval s - sval v"]
  have "(0 < sval s \<and> sval v < 0 \<and> sint (sx s - sx v) < 0) \<longleftrightarrow>
      (0 < sval s \<and> 2 ^ 255 \<le> sval s - sval v)"
    using rng wrap unfolding sint_u256_sub by auto
  moreover have "(sval s < 0 \<and> 0 < sval v \<and> 0 < sint (sx s - sx v)) \<longleftrightarrow>
      sval s - sval v < - (2 ^ 255)"
    using rng wrap unfolding sint_u256_sub by auto
  ultimately show ?thesis
    by (simp add: S256_Sub_def Sign_iff Sub Let_def)
qed

lemma signed_product_word:
  "(if i256_Sign U (sx s) * i256_Sign U (sx v) = -1
    then i256_Neg U (i256_Abs U (sx s) * i256_Abs U (sx v)) else i256_Abs U (sx s) * i256_Abs U (sx v))
   = sx s * sx v"
  by (auto simp: Sign Abs Neg sgn_if not_le signed_eq_0_iff)

lemma S256_Mul_result:
  "S256_Mul U s v =
     (if is_min s \<or> is_min v \<or> 2 ^ 256 \<le> \<bar>sval s * sval v\<bar>
      then Inl (PSymbol ''overflow in signed multiplication'') else Inr (mkS (sx s * sx v)))"
proof (cases "is_min s \<or> is_min v")
  case False
  let ?p = "i256_Abs U (sx s)" and ?q = "i256_Abs U (sx v)"
  have "int (unat ?p * unat ?q) = \<bar>sval s * sval v\<bar>"
    using False abs_value [of s] abs_value [of v] by (simp add: abs_mult)
  then have "2 ^ 256 \<le> unat ?p * unat ?q \<longleftrightarrow> 2 ^ 256 \<le> \<bar>sval s * sval v\<bar>"
    using int_less_2_256 [of "unat ?p * unat ?q"] by (simp only: linorder_not_less [symmetric])
  with False show ?thesis
    by (simp add: S256_Mul_def is_MinNeg MulOverflow Let_def signed_product_word)
qed (auto simp: S256_Mul_def is_MinNeg)

lemma S256_Div_result:
  assumes "\<not> is_min s" "\<not> is_min v" "sval v \<noteq> 0"
  shows "\<exists>r. S256_Div U s v = Inr r \<and> sval r = sgn (sval s) * sgn (sval v) * (\<bar>sval s\<bar> div \<bar>sval v\<bar>)"
proof -
  let ?d = "i256_Abs U (sx s) div i256_Abs U (sx v)"
  let ?z = "\<bar>sval s\<bar> div \<bar>sval v\<bar>"
  have "uint ?d = ?z" using assms by (simp add: uint_div_distrib abs_value)
  moreover have "?z < 2 ^ 255"
    using not_min_bound [OF assms(1)] div_by_1 [of "\<bar>sval s\<bar>"]
      zdiv_mono2 [of "\<bar>sval s\<bar>" 1 "\<bar>sval v\<bar>"] assms(3) by linarith
  moreover have "0 \<le> ?z" by (simp add: pos_imp_zdiv_nonneg_iff assms(3))
  ultimately have d: "sint ?d = ?z"
    using sint_u256_range [of ?d] by (simp add: uint_u256_sint split: if_splits)
  then have "sint (- ?d) = - ?z"
    using \<open>?z < 2 ^ 255\<close> \<open>0 \<le> ?z\<close> by (simp add: sint_u256_uminus swrap_def)
  moreover have "sx v \<noteq> 0" using assms(3) by auto
  ultimately show ?thesis
    using assms d by (simp add: S256_Div_def is_MinNeg IsZero Div Neg Sign sgn_pos_mult_neg Let_def)
      (auto simp: sgn_if)
qed

end

subsection \<open>64-bit arguments\<close>

lemma sint_int64_range: "- (2 ^ 63) \<le> sint (v :: int64)" "sint (v :: int64) < 2 ^ 63"
  using sint_greater_eq [of v] sint_less [of v] by simp_all

lemma sint_int64_uminus: "sint v \<noteq> - (2 ^ 63) \<Longrightarrow> sint (- v :: int64) = - sint v"
  using sint_int64_range [of v] by (simp add: sint_word_ariths signed_take_bit_int_eq_self)

lemma sint_int64_min:
  assumes "sint v = - (2 ^ 63)"
  shows "- v = (v :: int64)"
proof -
  have "v = of_int (sint v)" by simp
  also have "\<dots> = of_int (- (2 ^ 63))" by (simp only: assms)
  finally show ?thesis by simp
qed

lemma uint_int64: "uint (v :: int64) = (if 0 \<le> sint v then sint v else sint v + 2 ^ 64)"
proof -
  have "uint v = sint v mod 2 ^ 64" by (simp add: uint_sint take_bit_eq_mod)
  moreover have "sint v mod 2 ^ 64 = (sint v + 2 ^ 64) mod 2 ^ 64" by simp
  ultimately show ?thesis using sint_int64_range [of v] by (auto simp del: mod_add_self2)
qed

lemma uint_ucast_uint64: "uint (ucast (v :: uint64) :: u256) = uint v"
  by (metis u256_of_uint64 uint_nat)

text \<open>
  The numbers the guard \<^verbatim>\<open>v > Max || -v > Max\<close> lets through: those of magnitude at most 2^53-1,
  and the least \<^verbatim>\<open>int64\<close>, whose negation wraps to itself.
\<close>

lemma num_guard:
  "(sint (v :: int64) > sint MaxSafeInteger \<or> sint (- v) > sint MaxSafeInteger) \<longleftrightarrow>
     \<not> (\<bar>sint v\<bar> \<le> 2 ^ 53 - 1 \<or> sint v = - (2 ^ 63))"
proof (cases "sint v = - (2 ^ 63)")
  case True
  have "sint (- v) = - (2 ^ 63)" by (subst sint_int64_min [OF True]) (rule True)
  with True show ?thesis by (simp add: sint_MaxSafeInteger)
next
  case False
  with sint_int64_uminus [OF False] show ?thesis by (simp add: sint_MaxSafeInteger abs_if) linarith
qed

lemma int_le_safe: "int n \<le> 2 ^ 53 - 1 \<longleftrightarrow> n \<le> 2 ^ 53 - 1"
  by simp

context uint256
begin

lemma S256_of_result:
  "if \<bar>sint v\<bar> \<le> 2 ^ 53 - 1 \<or> sint v = - (2 ^ 63)
   then \<exists>r. S256_of U v = Inr r \<and> sval r = sint v
   else S256_of U v = Inl LargerThanMaxInteger"
proof (cases "\<bar>sint v\<bar> \<le> 2 ^ 53 - 1 \<or> sint v = - (2 ^ 63)")
  case True
  have nonneg: "sint (ucast w :: u256) = uint w" for w :: uint64
    using uint_u256_sint [of "ucast w :: u256"] sint_u256_range [of "ucast w :: u256"]
      unat_uint64_less [of w] uint_int64 [of w] sint_int64_range [of w]
    by (auto simp: uint_ucast_uint64 split: if_splits)
  show ?thesis
  proof (cases "0 \<le> sint v")
    case True
    then show ?thesis
      using \<open>\<bar>sint v\<bar> \<le> 2 ^ 53 - 1 \<or> sint v = - (2 ^ 63)\<close> nonneg [of v]
      by (simp add: S256_of_def num_guard NewInt uint_int64)
  next
    case False
    have "uint (- v) = - sint v"
    proof (cases "sint v = - (2 ^ 63)")
      case True
      then show ?thesis by (simp add: sint_int64_min uint_int64)
    next
      case neq: False
      then show ?thesis using False by (simp add: uint_int64 sint_int64_uminus)
    qed
    then have "sint (- ucast (- v) :: u256) = sint v"
      using nonneg [of "- v"] False sint_int64_range [of v]
      by (simp add: sint_u256_uminus swrap_def)
    with False \<open>\<bar>sint v\<bar> \<le> 2 ^ 53 - 1 \<or> sint v = - (2 ^ 63)\<close> show ?thesis
      by (simp add: S256_of_def num_guard NewInt Neg Let_def)
  qed
next
  case False
  then show ?thesis by (simp add: S256_of_def num_guard)
qed

lemma S256_safe_integer:
  "S256_IsSafeInteger U s \<longleftrightarrow> 0 \<le> sval s \<and> sval s \<le> 2 ^ 53 - 1"
  "S256_ToSafeInteger U s =
     (if 0 \<le> sval s \<and> sval s \<le> 2 ^ 53 - 1 then Inr (ucast (sx s))
      else Inl (PSymbol ''Overflow in ToSafeInteger''))"
proof -
  have "uval (mkU (sx s)) \<le> 2 ^ 53 - 1 \<longleftrightarrow> uint (sx s) \<le> 2 ^ 53 - 1"
    by (simp only: uint_nat int_le_safe Uint256.select_convs)
  also have "\<dots> \<longleftrightarrow> 0 \<le> sval s \<and> sval s \<le> 2 ^ 53 - 1"
    using sint_u256_range [of "sx s"] by (auto simp: uint_u256_sint)
  finally have iff: "uval (mkU (sx s)) \<le> 2 ^ 53 - 1 \<longleftrightarrow> 0 \<le> sval s \<and> sval s \<le> 2 ^ 53 - 1" .
  have guard: "(ucast (sx s) :: uint64) \<le> MaxSafeInteger \<and> \<not> 2 ^ 64 \<le> unat (sx s) \<longleftrightarrow>
      0 \<le> sval s \<and> sval s \<le> 2 ^ 53 - 1"
    using IsSafeInteger_result [of "mkU (sx s)"] iff
    by (simp add: U256_IsSafeInteger_def Uint64WithOverflow)
  then show "S256_IsSafeInteger U s \<longleftrightarrow> 0 \<le> sval s \<and> sval s \<le> 2 ^ 53 - 1"
    by (simp add: S256_IsSafeInteger_def Uint64WithOverflow)
  show "S256_ToSafeInteger U s =
     (if 0 \<le> sval s \<and> sval s \<le> 2 ^ 53 - 1 then Inr (ucast (sx s))
      else Inl (PSymbol ''Overflow in ToSafeInteger''))"
    using guard
    by (auto simp: S256_ToSafeInteger_def Uint64WithOverflow Sign_iff Let_def)
qed

end

section \<open>Properties\<close>

text \<open>
  Signed addition. \<open>Add\<close> returns the exact sum whenever it fits in 256 bits and panics when
  two negative numbers underflow. When two non-negative numbers overflow it does not panic: the
  result is the sum minus 2^256, a negative number.\<close>

lemma s256_addition:
  assumes "uint256 U"
  shows "if sval s + sval v < - (2 ^ 255)
    then S256_Add U s v = Inl (PSymbol ''overflow in signed addition'')
    else \<exists>r. S256_Add U s v = Inr r
      \<and> sval r = (if sval s + sval v < 2 ^ 255 then sval s + sval v else sval s + sval v - 2 ^ 256)"
proof (cases "sval s + sval v < - (2 ^ 255)")
  case False
  then show ?thesis
    using sint_u256_range [of "sx s"] sint_u256_range [of "sx v"] swrap_cases [of "sval s + sval v"]
    by (auto simp: uint256.S256_Add_result [OF assms] sint_u256_add)
qed (simp add: uint256.S256_Add_result [OF assms])

text \<open>
  Signed subtraction. \<open>Sub\<close> returns the exact difference whenever it fits and panics when it
  does not, with one exception: \<open>0 - (-2^255)\<close> is not detected and returns -2^255.\<close>

lemma s256_subtraction:
  assumes "uint256 U"
  shows "if - (2 ^ 255) \<le> sval s - sval v \<and> sval s - sval v < 2 ^ 255
    then \<exists>r. S256_Sub U s v = Inr r \<and> sval r = sval s - sval v
    else if sval s = 0
      then sval v = - (2 ^ 255) \<and> (\<exists>r. S256_Sub U s v = Inr r \<and> sval r = - (2 ^ 255))
      else S256_Sub U s v = Inl (PSymbol ''overflow in signed substraction'')"
  using sint_u256_range [of "sx s"] sint_u256_range [of "sx v"] swrap_cases [of "sval s - sval v"]
  by (auto simp: uint256.S256_Sub_result [OF assms] sint_u256_sub)

text \<open>
  Signed multiplication. \<open>Mul\<close> refuses the least value as an operand; otherwise it returns the
  exact product when that fits in the signed range, panics when its magnitude reaches 2^256, and in
  the band between returns the product reduced by 2^256, with the wrong sign.\<close>

lemma s256_multiplication:
  assumes "uint256 U"
  shows "if is_min s \<or> is_min v \<or> 2 ^ 256 \<le> \<bar>sval s * sval v\<bar>
    then S256_Mul U s v = Inl (PSymbol ''overflow in signed multiplication'')
    else \<exists>r. S256_Mul U s v = Inr r
      \<and> sval r = (if 2 ^ 255 \<le> sval s * sval v then sval s * sval v - 2 ^ 256
                  else if sval s * sval v < - (2 ^ 255) then sval s * sval v + 2 ^ 256
                  else sval s * sval v)"
proof (cases "is_min s \<or> is_min v \<or> 2 ^ 256 \<le> \<bar>sval s * sval v\<bar>")
  case True
  then show ?thesis by (simp add: uint256.S256_Mul_result [OF assms])
next
  case False
  then have "- (2 ^ 256) < sval s * sval v" "sval s * sval v < 2 ^ 256"
    by (simp_all add: not_le abs_less_iff)
  then have "- (3 * 2 ^ 255) \<le> sval s * sval v" "sval s * sval v < 3 * 2 ^ 255" by simp_all
  from swrap_cases [OF this] False show ?thesis
    by (auto simp: uint256.S256_Mul_result [OF assms] sint_u256_mult)
qed

text \<open>
  Signed division truncates towards zero. The least value is refused as either operand
  (checked first), then a zero divisor.\<close>

lemma s256_division:
  assumes "uint256 U"
  shows "if is_min s \<or> is_min v then S256_Div U s v = Inl (PSymbol ''overflow in division'')
    else if sval v = 0 then S256_Div U s v = Inl (PSymbol ''divide by zero'')
    else \<exists>r. S256_Div U s v = Inr r
      \<and> sval r = sgn (sval s) * sgn (sval v) * (\<bar>sval s\<bar> div \<bar>sval v\<bar>)"
proof (cases "is_min s \<or> is_min v")
  case True
  then show ?thesis by (auto simp: S256_Div_def uint256.is_MinNeg [OF assms])
next
  case False
  show ?thesis
  proof (cases "sval v = 0")
    case True
    then have "sx v = 0" by (simp add: signed_eq_0_iff)
    then have zero: "i256_IsZero U (sx v)" by (simp add: uint256.IsZero [OF assms])
    show ?thesis
      using False True zero unfolding S256_Div_def uint256.is_MinNeg [OF assms] by simp
  next
    case neq: False
    with False uint256.S256_Div_result [OF assms, of s v] show ?thesis by simp
  qed
qed

text \<open>
  C12: signed arithmetic. \<open>Add\<close>, \<open>Sub\<close> and \<open>Mul\<close> return the exact result whenever it fits in 256 bits,
  \<open>Mul\<close> and \<open>Div\<close> refusing the least value as an operand. When it does not fit they panic, except in three
  cases where the result is silently off by 2^256: the sum of two non-negative numbers, \<open>0 - (-2^255)\<close>, and a
  product outside the signed range whose magnitude is below 2^256. Division truncates towards zero and refuses a zero divisor.
\<close>

theorem s256_arithmetic:
  assumes "uint256 U"
  shows "(if sval s + sval v < - (2 ^ 255) then S256_Add U s v = Inl (PSymbol ''overflow in signed addition'')
      else \<exists>r. S256_Add U s v = Inr r \<and> sval r = (if sval s + sval v < 2 ^ 255 then sval s + sval v else sval s + sval v - 2 ^ 256))
    \<and> (if - (2 ^ 255) \<le> sval s - sval v \<and> sval s - sval v < 2 ^ 255 then \<exists>r. S256_Sub U s v = Inr r \<and> sval r = sval s - sval v
      else if sval s = 0 then sval v = - (2 ^ 255) \<and> (\<exists>r. S256_Sub U s v = Inr r \<and> sval r = - (2 ^ 255))
      else S256_Sub U s v = Inl (PSymbol ''overflow in signed substraction''))
    \<and> (if is_min s \<or> is_min v \<or> 2 ^ 256 \<le> \<bar>sval s * sval v\<bar>
      then S256_Mul U s v = Inl (PSymbol ''overflow in signed multiplication'')
      else \<exists>r. S256_Mul U s v = Inr r \<and> sval r =
        (if 2 ^ 255 \<le> sval s * sval v then sval s * sval v - 2 ^ 256 else if sval s * sval v < - (2 ^ 255) then sval s * sval v + 2 ^ 256 else sval s * sval v))
    \<and> (if is_min s \<or> is_min v then S256_Div U s v = Inl (PSymbol ''overflow in division'')
      else if sval v = 0 then S256_Div U s v = Inl (PSymbol ''divide by zero'')
      else \<exists>r. S256_Div U s v = Inr r \<and> sval r = sgn (sval s) * sgn (sval v) * (\<bar>sval s\<bar> div \<bar>sval v\<bar>))"
  using s256_addition [OF assms(1)] s256_subtraction [OF assms(1)] s256_multiplication [OF assms(1)]
    s256_division [OF assms(1)] by (intro conjI)

theorem s256_arithmetic_witness:
  "uint256 i256_ref
    \<and> (\<exists>r. S256_Add i256_ref (mkS (2 ^ 255 - 1)) (mkS 2) = Inr r \<and> sval r = - (2 ^ 255) + 1)
    \<and> (\<exists>r. S256_Sub i256_ref (mkS 5) (mkS 7) = Inr r \<and> sval r = - 2)
    \<and> (\<exists>r. S256_Mul i256_ref (mkS 6) (mkS (- 7)) = Inr r \<and> sval r = - 42)
    \<and> (\<exists>r. S256_Div i256_ref (mkS (- 7)) (mkS 2) = Inr r \<and> sval r = - 3)"
  using uint256_i256_ref s256_arithmetic [OF uint256_i256_ref, of "mkS (2 ^ 255 - 1)" "mkS 2"]
    s256_arithmetic [OF uint256_i256_ref, of "mkS 5" "mkS 7"] s256_arithmetic [OF uint256_i256_ref, of "mkS 6" "mkS (- 7)"]
    s256_arithmetic [OF uint256_i256_ref, of "mkS (- 7)" "mkS 2"]
  by simp

text \<open>
  Signed comparisons decide the order of the signed values, also against a 64-bit number,
  which is refused beyond 2^53-1 in magnitude; the least \<^verbatim>\<open>int64\<close> slips through the guard of every
  variant and is compared correctly.\<close>

theorem s256_comparisons:
  assumes "uint256 U"
  shows "(S256_Gt U s v \<longleftrightarrow> sval s > sval v) \<and> (S256_Gte U s v \<longleftrightarrow> sval s \<ge> sval v)
    \<and> (S256_Lt U s v \<longleftrightarrow> sval s < sval v) \<and> (S256_Lte U s v \<longleftrightarrow> sval s \<le> sval v)
    \<and> (S256_Equal U s v \<longleftrightarrow> sval s = sval v) \<and> (S256_IsZero U s \<longleftrightarrow> sval s = 0)
    \<and> S256_Sign U s = sgn (sval s)
    \<and> (if \<bar>sint n\<bar> \<le> 2 ^ 53 - 1 \<or> sint n = - (2 ^ 63)
        then S256_GtNum U s n = Inr (sval s > sint n) \<and> S256_GteNum U s n = Inr (sval s \<ge> sint n)
           \<and> S256_LtNum U s n = Inr (sval s < sint n) \<and> S256_LteNum U s n = Inr (sval s \<le> sint n)
        else \<forall>f \<in> {S256_GtNum, S256_GteNum, S256_LtNum, S256_LteNum}. f U s n = Inl LargerThanMaxInteger)"
proof -
  have vals: "(S256_Gt U s v \<longleftrightarrow> sval s > sval v) \<and> (S256_Gte U s v \<longleftrightarrow> sval s \<ge> sval v)
    \<and> (S256_Lt U s v \<longleftrightarrow> sval s < sval v) \<and> (S256_Lte U s v \<longleftrightarrow> sval s \<le> sval v)
    \<and> (S256_Equal U s v \<longleftrightarrow> sval s = sval v) \<and> (S256_IsZero U s \<longleftrightarrow> sval s = 0)
    \<and> S256_Sign U s = sgn (sval s)"
    by (simp add: S256_Gt_def S256_Gte_def S256_Lt_def S256_Lte_def S256_Equal_def S256_IsZero_def
        S256_Sign_def uint256.order_laws [OF assms] sint_eq_iff_u256 signed_eq_0_iff not_less)
  note defs = S256_GtNum_def S256_GteNum_def S256_LtNum_def S256_LteNum_def
  show ?thesis
  proof (cases "\<bar>sint n\<bar> \<le> 2 ^ 53 - 1 \<or> sint n = - (2 ^ 63)")
    case True
    with uint256.S256_of_result [OF assms, of n] obtain r
      where r: "S256_of U n = Inr r" "sval r = sint n" by auto
    moreover have "sint n \<le> sint MaxSafeInteger" "sint (- n) \<le> sint MaxSafeInteger"
      using True num_guard [of n] by auto
    ultimately have "S256_GtNum U s n = Inr (sval s > sint n) \<and> S256_GteNum U s n = Inr (sval s \<ge> sint n)
           \<and> S256_LtNum U s n = Inr (sval s < sint n) \<and> S256_LteNum U s n = Inr (sval s \<le> sint n)"
      by (simp add: defs uint256.order_laws [OF assms] not_less)
    with True vals show ?thesis by simp
  next
    case False
    then have "S256_of U n = Inl LargerThanMaxInteger"
      using uint256.S256_of_result [OF assms, of n] by simp
    then have "\<forall>f \<in> {S256_GtNum, S256_GteNum, S256_LtNum, S256_LteNum}. f U s n = Inl LargerThanMaxInteger"
      by (simp add: defs)
    with False vals show ?thesis by simp
  qed
qed

theorem s256_comparisons_witness:
  "uint256 i256_ref \<and> S256_LtNum i256_ref (mkS (- 7)) (- 3) = Inr True"
  using uint256_i256_ref s256_comparisons [OF uint256_i256_ref, of "mkS (- 7)" "mkS 0" "- 3"]
  by simp

text \<open>
  Construction and conversions. A number of safe magnitude becomes the integer of the same
  value; \<open>Neg\<close> and \<open>Abs\<close> are exact and panic exactly at -2^255; the 32-byte buffer and the unsigned
  reinterpretation round trip. \<open>IsSafeInteger\<close> is false and \<open>ToSafeInteger\<close> panics for every negative
  number, even those that came from a safe number.\<close>

theorem s256_conversions:
  assumes "uint256 U"
  shows "(\<bar>sint n\<bar> \<le> 2 ^ 53 - 1 \<longrightarrow> (\<exists>r. S256_of U n = Inr r \<and> sval r = sint n))
    \<and> (if is_min s then S256_Neg U s = Inl (PSymbol ''overflow in Neg'')
          \<and> S256_Abs U s = Inl (PSymbol ''overflow in Abs'')
        else \<exists>m a. S256_Neg U s = Inr m \<and> sval m = - sval s \<and> S256_Abs U s = Inr a \<and> sval a = \<bar>sval s\<bar>)
    \<and> U256_ToS256 (S256_ToU256 s) = s
    \<and> (\<exists>b. S256_ToBuf U s ([] :: 'x jsval list) = Inr b \<and> BufToS256 U b = s)
    \<and> (S256_IsSafeInteger U s \<longleftrightarrow> 0 \<le> sval s \<and> sval s \<le> 2 ^ 53 - 1)
    \<and> (sval s < 0 \<longrightarrow> S256_ToSafeInteger U s = Inl (PSymbol ''Overflow in ToSafeInteger''))"
proof -
  have neg: "if is_min s then S256_Neg U s = Inl (PSymbol ''overflow in Neg'')
          \<and> S256_Abs U s = Inl (PSymbol ''overflow in Abs'')
        else \<exists>m a. S256_Neg U s = Inr m \<and> sval m = - sval s \<and> S256_Abs U s = Inr a \<and> sval a = \<bar>sval s\<bar>"
    by (auto simp: S256_Neg_def S256_Abs_def uint256.is_MinNeg [OF assms] uint256.Neg [OF assms]
        uint256.Abs [OF assms] sint_neg_not_min)
  have buf: "\<exists>b. S256_ToBuf U s ([] :: 'x jsval list) = Inr b \<and> BufToS256 U b = s"
    by (simp add: S256_ToBuf_def BufToS256_def uint256.WriteToArray32 [OF assms]
        uint256.SetBytes [OF assms] be_val_32_u256)
  show ?thesis
    using neg buf uint256.S256_of_result [OF assms, of n] uint256.S256_safe_integer [OF assms, of s]
    by (auto simp: U256_ToS256_def S256_ToU256_def)
qed

theorem s256_conversions_witness:
  "uint256 i256_ref \<and> \<bar>sint (- 5 :: int64)\<bar> \<le> 2 ^ 53 - 1
    \<and> (\<exists>r. S256_of i256_ref (- 5) = Inr r \<and> sval r = - 5)
    \<and> S256_ToSafeInteger i256_ref (mkS (- 5)) = Inl (PSymbol ''Overflow in ToSafeInteger'')"
  using uint256_i256_ref s256_conversions [OF uint256_i256_ref, of "- 5" "mkS (- 5)"]
  by auto

end
