(* ===== verification/IntOrder.thy ===== *)
theory IntOrder
  imports U256 S256 "HOL-Library.Multiset"
begin

text \<open>
  The order of the 256-bit integers as instances of the library's class \<open>linorder\<close>: what the comparison methods
  a script calls compute is the order of the class, so what is known of \<open>sort\<close>, \<open>Min\<close> and \<open>Max\<close> holds of a script
  that sorts with them.
\<close>

section \<open>Unsigned\<close>

instantiation Uint256_ext :: (linorder) linorder
begin

definition less_eq_Uint256_ext :: "'a Uint256_scheme \<Rightarrow> 'a Uint256_scheme \<Rightarrow> bool" where
  "less_eq_Uint256_ext u v \<longleftrightarrow> uX u < uX v \<or> uX u = uX v \<and> Uint256.more u \<le> Uint256.more v"

definition less_Uint256_ext :: "'a Uint256_scheme \<Rightarrow> 'a Uint256_scheme \<Rightarrow> bool" where
  "less_Uint256_ext u v \<longleftrightarrow> uX u < uX v \<or> uX u = uX v \<and> Uint256.more u < Uint256.more v"

instance
  by standard (auto simp: less_eq_Uint256_ext_def less_Uint256_ext_def)

end

lemma Uint256_order: "(u :: Uint256) \<le> v \<longleftrightarrow> uX u \<le> uX v" "(u :: Uint256) < v \<longleftrightarrow> uX u < uX v"
  by (auto simp: less_eq_Uint256_ext_def less_Uint256_ext_def)

section \<open>Signed\<close>

instantiation Sint256_ext :: (linorder) linorder
begin

definition less_eq_Sint256_ext :: "'a Sint256_scheme \<Rightarrow> 'a Sint256_scheme \<Rightarrow> bool" where
  "less_eq_Sint256_ext s t \<longleftrightarrow> sint (sx s) < sint (sx t) \<or> sx s = sx t \<and> Sint256.more s \<le> Sint256.more t"

definition less_Sint256_ext :: "'a Sint256_scheme \<Rightarrow> 'a Sint256_scheme \<Rightarrow> bool" where
  "less_Sint256_ext s t \<longleftrightarrow> sint (sx s) < sint (sx t) \<or> sx s = sx t \<and> Sint256.more s < Sint256.more t"

instance
proof (standard, goal_cases)
  case (4 s t)
  then show ?case by (auto simp: less_eq_Sint256_ext_def)
next
  case (5 s t)
  then show ?case by (auto simp: less_eq_Sint256_ext_def not_less le_less sint_eq_iff_u256)
qed (auto simp: less_eq_Sint256_ext_def less_Sint256_ext_def)

end

lemma Sint256_order: "(s :: Sint256) \<le> t \<longleftrightarrow> sint (sx s) \<le> sint (sx t)" "(s :: Sint256) < t \<longleftrightarrow> sint (sx s) < sint (sx t)"
  by (auto simp: less_eq_Sint256_ext_def less_Sint256_ext_def le_less sint_eq_iff_u256)

section \<open>The methods compute the order\<close>

lemma U256_methods_order:
  assumes "uint256 U"
  shows "U256_Lte U u v \<longleftrightarrow> u \<le> v" "U256_Lt U u v \<longleftrightarrow> u < v" "U256_Gte U u v \<longleftrightarrow> v \<le> u" "U256_Gt U u v \<longleftrightarrow> v < u"
  using u256_comparisons [OF assms, of u v 0] by (auto simp: Uint256_order word_le_nat_alt word_less_nat_alt)

lemma S256_methods_order:
  assumes "uint256 U"
  shows "S256_Lte U s t \<longleftrightarrow> s \<le> t" "S256_Lt U s t \<longleftrightarrow> s < t" "S256_Gte U s t \<longleftrightarrow> t \<le> s" "S256_Gt U s t \<longleftrightarrow> t < s"
  using s256_comparisons [OF assms, of s t 0] by (simp_all add: Sint256_order)

text \<open>A script that sorts balances with \<^verbatim>\<open>Lte\<close> gets the one sorted list of them.\<close>

lemma sorted_by_Lte:
  assumes "uint256 U" "mset ys = mset xs" "sorted_wrt (U256_Lte U) ys"
  shows "ys = sort xs"
proof (rule properties_for_sort [symmetric])
  show "mset ys = mset xs" by (rule assms(2))
  have "U256_Lte U = (\<le>)" by (intro ext) (simp add: U256_methods_order [OF assms(1)])
  with assms(3) show "sorted ys" by simp
qed

lemma sorted_by_signed_Lte:
  assumes "uint256 U" "mset ys = mset xs" "sorted_wrt (S256_Lte U) ys"
  shows "ys = sort xs"
proof (rule properties_for_sort [symmetric])
  show "mset ys = mset xs" by (rule assms(2))
  have "S256_Lte U = (\<le>)" by (intro ext) (simp add: S256_methods_order [OF assms(1)])
  with assms(3) show "sorted ys" by simp
qed

end
