(* ===== verification/Btree_Api.thy ===== *)
theory Btree_Api
  imports Prelude
begin

text \<open>
  The third-party package \<^verbatim>\<open>modernc.org/b/v2\<close> (an ordered container with a comparison function)
  as a parameter: the type \<open>'t\<close> of trees, the type \<open>'e\<close> of enumerators and the operations the
  sources call. The locale \<open>btree\<close> states the documented behaviour over an abstraction function to
  sorted association lists; \<open>alist_btree\<close> is an implementation that satisfies it.
\<close>

section \<open>The interface\<close>

text \<open>
  \<open>bt_Put\<close> passes the state of the closure (the \<^verbatim>\<open>estimatedSize\<close> field it captures) through the
  callback. \<open>bt_Next\<close> and \<open>bt_Prev\<close> read the tree the enumerator points to; \<open>None\<close> is a non-nil
  error. \<open>bt_SeekFirst\<close> and \<open>bt_SeekLast\<close> return an error on an empty tree.
\<close>

record ('t, 'e, 'v) btree_api =
  bt_TreeNew :: "(string \<Rightarrow> string \<Rightarrow> int) \<Rightarrow> 't"
  bt_Clear :: "'t \<Rightarrow> 't"
  bt_Set :: "'t \<Rightarrow> string \<Rightarrow> 'v \<Rightarrow> 't"
  bt_Put :: "'t \<Rightarrow> string \<Rightarrow> ('v \<Rightarrow> bool \<Rightarrow> int64 \<Rightarrow> ('v \<times> bool) \<times> int64) \<Rightarrow> int64 \<Rightarrow> 't \<times> int64"
  bt_Delete :: "'t \<Rightarrow> string \<Rightarrow> 't \<times> bool"
  bt_Get :: "'t \<Rightarrow> string \<Rightarrow> 'v \<times> bool"
  bt_Len :: "'t \<Rightarrow> int"
  bt_Seek :: "'t \<Rightarrow> string \<Rightarrow> 'e \<times> bool"
  bt_SeekFirst :: "'t \<Rightarrow> string + 'e"
  bt_SeekLast :: "'t \<Rightarrow> string + 'e"
  bt_Next :: "'t \<Rightarrow> 'e \<Rightarrow> (string \<times> 'v) option \<times> 'e"
  bt_Prev :: "'t \<Rightarrow> 'e \<Rightarrow> (string \<times> 'v) option \<times> 'e"
  bt_Close :: "'e \<Rightarrow> 'e"

abbreviation key_sorted :: "('k::linorder \<times> 'v) list \<Rightarrow> bool" where
  "key_sorted xs \<equiv> sorted_wrt (<) (map fst xs)"

locale btree =
  fixes B :: "('t, 'e, 'v) btree_api"
    and zero :: 'v
    and wf :: "'t \<Rightarrow> bool"
    and items :: "'t \<Rightarrow> (string \<times> 'v) list"
    and rest :: "'t \<Rightarrow> 'e \<Rightarrow> (string \<times> 'v) list"
  assumes TreeNew: "wf (bt_TreeNew B lex_compare)" "items (bt_TreeNew B lex_compare) = []"
    and sorted: "wf t \<Longrightarrow> key_sorted (items t)"
    and Clear: "wf t \<Longrightarrow> wf (bt_Clear B t) \<and> items (bt_Clear B t) = []"
    and wf_Set: "wf t \<Longrightarrow> wf (bt_Set B t k v)"
    and Set: "wf t \<Longrightarrow> map_of (items (bt_Set B t k v)) = (map_of (items t))(k \<mapsto> v)"
    and Put: "wf t \<Longrightarrow> bt_Put B t k upd st =
      (case (case map_of (items t) k of Some old \<Rightarrow> upd old True st | None \<Rightarrow> upd zero False st) of
         ((newv, write), st') \<Rightarrow> (if write then bt_Set B t k newv else t, st'))"
    and wf_Delete: "wf t \<Longrightarrow> wf (fst (bt_Delete B t k))"
    and Delete: "wf t \<Longrightarrow> map_of (items (fst (bt_Delete B t k))) = (map_of (items t))(k := None)"
    and Delete_existed: "wf t \<Longrightarrow> snd (bt_Delete B t k) \<longleftrightarrow> map_of (items t) k \<noteq> None"
    and Get: "wf t \<Longrightarrow> bt_Get B t k =
      (case map_of (items t) k of Some v \<Rightarrow> (v, True) | None \<Rightarrow> (zero, False))"
    and Len: "wf t \<Longrightarrow> bt_Len B t = int (length (items t))"
    and SeekFirst: "wf t \<Longrightarrow> items t \<noteq> [] \<Longrightarrow> \<exists>e. bt_SeekFirst B t = Inr e \<and> rest t e = items t"
    and Next_end: "wf t \<Longrightarrow> rest t e = [] \<Longrightarrow> fst (bt_Next B t e) = None"
    and Next_item: "wf t \<Longrightarrow> rest t e = kv # r \<Longrightarrow> \<exists>e'. bt_Next B t e = (Some kv, e') \<and> rest t e' = r"

section \<open>Sorted association lists\<close>

lemma key_sorted_distinct: "key_sorted xs \<Longrightarrow> distinct (map fst xs)"
  by (simp add: strict_sorted_iff)

lemma key_sorted_unique:
  assumes "key_sorted xs" "key_sorted ys" "map_of xs = map_of ys"
  shows "xs = ys"
proof -
  have "set (map fst xs) = set (map fst ys)"
    using assms(3) by (metis dom_map_of_conv_image_fst set_map)
  then have keys: "map fst xs = map fst ys"
    using assms(1,2) by (metis strict_sorted_equal)
  have vals: "zs = map (\<lambda>k. (k, the (map_of zs k))) (map fst zs)" if "key_sorted zs" for zs :: "('a \<times> 'b) list"
    using key_sorted_distinct [OF that] by (simp add: comp_def, intro map_idI [symmetric]) force
  show ?thesis
    using vals [OF assms(1)] vals [OF assms(2)] keys assms(3) by metis
qed

fun kv_insert :: "'k::linorder \<Rightarrow> 'v \<Rightarrow> ('k \<times> 'v) list \<Rightarrow> ('k \<times> 'v) list" where
  "kv_insert k v [] = [(k, v)]"
| "kv_insert k v (p # ps) =
     (if fst p < k then p # kv_insert k v ps
      else if fst p = k then (k, v) # ps
      else (k, v) # p # ps)"

definition kv_remove :: "'k \<Rightarrow> ('k \<times> 'v) list \<Rightarrow> ('k \<times> 'v) list" where
  "kv_remove k ps = filter (\<lambda>p. fst p \<noteq> k) ps"

lemma set_kv_insert: "fst ` set (kv_insert k v ps) = insert k (fst ` set ps)"
  by (induction ps) auto

lemma key_sorted_kv_insert: "key_sorted ps \<Longrightarrow> key_sorted (kv_insert k v ps)"
proof (induction ps)
  case (Cons p ps)
  then show ?case
    using set_kv_insert [of k v ps] by auto
qed simp

lemma map_of_kv_insert: "key_sorted ps \<Longrightarrow> map_of (kv_insert k v ps) = (map_of ps)(k \<mapsto> v)"
  by (induction ps) (auto simp: fun_eq_iff)

lemma key_sorted_kv_remove: "key_sorted ps \<Longrightarrow> key_sorted (kv_remove k ps)"
  by (induction ps) (auto simp: kv_remove_def)

lemma map_of_kv_remove: "map_of (kv_remove k ps) = (map_of ps)(k := None)"
  by (induction ps) (auto simp: kv_remove_def fun_eq_iff)

lemma kv_insert_snoc:
  "\<forall>p \<in> set ps. fst p < k \<Longrightarrow> kv_insert k v ps = ps @ [(k, v)]"
  by (induction ps) auto

section \<open>An implementation by sorted association lists\<close>

text \<open>The tree is its sorted list of items, an enumerator an index into it.\<close>

definition alist_btree :: "'v \<Rightarrow> ((string \<times> 'v) list, int, 'v) btree_api" where
  "alist_btree z = \<lparr>
     bt_TreeNew = (\<lambda>_. []),
     bt_Clear = (\<lambda>_. []),
     bt_Set = (\<lambda>t k v. kv_insert k v t),
     bt_Put = (\<lambda>t k upd st.
       case (case map_of t k of Some old \<Rightarrow> upd old True st | None \<Rightarrow> upd z False st) of
         ((newv, write), st') \<Rightarrow> (if write then kv_insert k newv t else t, st')),
     bt_Delete = (\<lambda>t k. (kv_remove k t, map_of t k \<noteq> None)),
     bt_Get = (\<lambda>t k. case map_of t k of Some v \<Rightarrow> (v, True) | None \<Rightarrow> (z, False)),
     bt_Len = (\<lambda>t. int (length t)),
     bt_Seek = (\<lambda>t k. (int (length (takeWhile (\<lambda>p. fst p < k) t)), map_of t k \<noteq> None)),
     bt_SeekFirst = (\<lambda>t. if t = [] then Inl ''EOF'' else Inr 0),
     bt_SeekLast = (\<lambda>t. if t = [] then Inl ''EOF'' else Inr (int (length t) - 1)),
     bt_Next = (\<lambda>t e. if 0 \<le> e \<and> e < int (length t) then (Some (t ! nat e), e + 1) else (None, e)),
     bt_Prev = (\<lambda>t e. if 0 \<le> e \<and> e < int (length t) then (Some (t ! nat e), e - 1) else (None, e)),
     bt_Close = (\<lambda>e. e) \<rparr>"

definition alist_rest :: "(string \<times> 'v) list \<Rightarrow> int \<Rightarrow> (string \<times> 'v) list" where
  "alist_rest t e = (if 0 \<le> e then drop (nat e) t else [])"

lemma alist_rest_Cons:
  assumes "alist_rest t e = kv # r"
  shows "0 \<le> e \<and> e < int (length t) \<and> t ! nat e = kv \<and> alist_rest t (e + 1) = r"
proof -
  have e: "0 \<le> e" and d: "drop (nat e) t = kv # r"
    using assms by (auto simp: alist_rest_def split: if_splits)
  then have len: "nat e < length t" by (metis drop_eq_Nil2 leI list.distinct(1))
  then have "t ! nat e = kv" "drop (Suc (nat e)) t = r"
    using d by (simp_all add: Cons_nth_drop_Suc [symmetric])
  with e len show ?thesis by (auto simp: alist_rest_def nat_add_distrib)
qed

interpretation alist_btree:
  btree "alist_btree z" z "\<lambda>t. key_sorted t" "\<lambda>t. t" alist_rest
proof unfold_locales
  fix t :: "(string \<times> 'a) list" and e
  assume "key_sorted t" "alist_rest t e = []"
  then show "fst (bt_Next (alist_btree z) t e) = None"
    by (auto simp: alist_btree_def alist_rest_def)
next
  fix t :: "(string \<times> 'a) list" and e kv r
  assume "alist_rest t e = kv # r"
  then show "\<exists>e'. bt_Next (alist_btree z) t e = (Some kv, e') \<and> alist_rest t e' = r"
    using alist_rest_Cons [of t e kv r] by (simp add: alist_btree_def)
next
  fix t :: "(string \<times> 'a) list" and k upd st
  have set: "bt_Set (alist_btree z) = (\<lambda>t k v. kv_insert k v t)" by (simp add: alist_btree_def)
  show "bt_Put (alist_btree z) t k upd st =
      (case (case map_of t k of Some old \<Rightarrow> upd old True st | None \<Rightarrow> upd z False st) of
         ((newv, write), st') \<Rightarrow> (if write then bt_Set (alist_btree z) t k newv else t, st'))"
    unfolding set by (simp add: alist_btree_def)
qed (auto simp: alist_btree_def key_sorted_kv_insert map_of_kv_insert key_sorted_kv_remove
    map_of_kv_remove alist_rest_def)

lemma btree_alist: "btree (alist_btree z) z (\<lambda>t. key_sorted t) (\<lambda>t. t) alist_rest"
  by (rule alist_btree.btree_axioms)

end
