(* ===== verification/Msgp_Api.thy ===== *)
theory Msgp_Api
  imports Prelude
begin

text \<open>
  The third-party package \<^verbatim>\<open>github.com/tinylib/msgp/msgp\<close> (MessagePack) as a parameter: the
  append and read functions the sources call. The locale \<open>msgp\<close> states what the package documents:
  an append function adds one object to the buffer, a read function takes one object off the front
  and returns the remaining bytes. \<open>mini_msgp\<close> is a codec in MessagePack's formats satisfying it.
\<close>

section \<open>The interface\<close>

record msgp_api =
  mp_AppendInt :: "bytes \<Rightarrow> int64 \<Rightarrow> bytes"
  mp_ReadIntBytes :: "bytes \<Rightarrow> string + int64 \<times> bytes"
  mp_AppendInt64 :: "bytes \<Rightarrow> int64 \<Rightarrow> bytes"
  mp_ReadInt64Bytes :: "bytes \<Rightarrow> string + int64 \<times> bytes"
  mp_AppendByte :: "bytes \<Rightarrow> byte \<Rightarrow> bytes"
  mp_ReadByteBytes :: "bytes \<Rightarrow> string + byte \<times> bytes"
  mp_AppendString :: "bytes \<Rightarrow> string \<Rightarrow> bytes"
  mp_ReadStringBytes :: "bytes \<Rightarrow> string + string \<times> bytes"
  mp_AppendBytes :: "bytes \<Rightarrow> bytes \<Rightarrow> bytes"
  mp_ReadBytesBytes :: "bytes \<Rightarrow> string + bytes \<times> bytes"

text \<open>
  One object type: \<open>app\<close> appends the encoding of a value, \<open>rd\<close> reads it back. Strings and byte
  arrays have 32-bit lengths in MessagePack, hence the domain \<open>ok\<close>. \<open>sz\<close> is the number of payload
  bytes a decoded value must have come from.
\<close>

definition object_codec ::
  "('a \<Rightarrow> bool) \<Rightarrow> ('a \<Rightarrow> nat) \<Rightarrow> (bytes \<Rightarrow> 'a \<Rightarrow> bytes) \<Rightarrow> (bytes \<Rightarrow> string + 'a \<times> bytes) \<Rightarrow> bool" where
  "object_codec ok sz app rd \<longleftrightarrow>
     (\<forall>b x. app b x = b @ app [] x)
     \<and> (\<forall>x r. ok x \<longrightarrow> rd (app [] x @ r) = Inr (x, r))
     \<and> (\<forall>b x r. rd b = Inr (x, r) \<longrightarrow> sz x + length r < length b)"

locale msgp =
  fixes M :: msgp_api
  assumes Int: "object_codec (\<lambda>_. True) (\<lambda>_. 0) (mp_AppendInt M) (mp_ReadIntBytes M)"
    and Int64: "object_codec (\<lambda>_. True) (\<lambda>_. 0) (mp_AppendInt64 M) (mp_ReadInt64Bytes M)"
    and Byte: "object_codec (\<lambda>_. True) (\<lambda>_. 0) (mp_AppendByte M) (mp_ReadByteBytes M)"
    and String: "object_codec (\<lambda>s. length s < 2 ^ 32) length (mp_AppendString M) (mp_ReadStringBytes M)"
    and Bytes: "object_codec (\<lambda>s. length s < 2 ^ 32) length (mp_AppendBytes M) (mp_ReadBytesBytes M)"

lemma object_codec_append: "object_codec ok sz app rd \<Longrightarrow> app b x = b @ app [] x"
  unfolding object_codec_def by blast

lemma object_codec_read: "object_codec ok sz app rd \<Longrightarrow> ok x \<Longrightarrow> rd (app [] x @ r) = Inr (x, r)"
  unfolding object_codec_def by blast

lemma object_codec_size: "object_codec ok sz app rd \<Longrightarrow> rd b = Inr (x, r) \<Longrightarrow> sz x + length r < length b"
  unfolding object_codec_def by blast

section \<open>A codec in MessagePack's formats\<close>

text \<open>
  Integers: positive fixint below 128, otherwise int 64 (\<^verbatim>\<open>0xd3\<close>). Bytes: positive fixint below
  128, otherwise uint 8 (\<^verbatim>\<open>0xcc\<close>). Strings: fixstr below 32 bytes, otherwise str 32 (\<^verbatim>\<open>0xdb\<close>).
  Binary: bin 32 (\<^verbatim>\<open>0xc6\<close>).
\<close>

definition put_int :: "bytes \<Rightarrow> int64 \<Rightarrow> bytes" where
  "put_int b i = b @ (if unat i < 128 then [ucast i] else 0xd3 # be_bytes 8 (unat i))"

definition get_int :: "bytes \<Rightarrow> string + int64 \<times> bytes" where
  "get_int b =
     (case b of
        [] \<Rightarrow> Inl ''msgp: too few bytes left to read object''
      | h # r \<Rightarrow>
          if unat h < 128 then Inr (ucast h, r)
          else if h = 0xd3 \<and> 8 \<le> length r then Inr (of_nat (be_val (take 8 r)), drop 8 r)
          else Inl ''msgp: attempted to decode another type'')"

definition put_byte :: "bytes \<Rightarrow> byte \<Rightarrow> bytes" where
  "put_byte b x = b @ (if unat x < 128 then [x] else [0xcc, x])"

definition get_byte :: "bytes \<Rightarrow> string + byte \<times> bytes" where
  "get_byte b =
     (case b of
        [] \<Rightarrow> Inl ''msgp: too few bytes left to read object''
      | h # r \<Rightarrow>
          if unat h < 128 then Inr (h, r)
          else if h = 0xcc \<and> r \<noteq> [] then Inr (hd r, tl r)
          else Inl ''msgp: attempted to decode another type'')"

definition put_chunk :: "byte \<Rightarrow> bytes \<Rightarrow> bytes \<Rightarrow> bytes" where
  "put_chunk tag b s = b @ tag # be_bytes 4 (length s) @ s"

definition get_chunk :: "byte \<Rightarrow> bytes \<Rightarrow> string + bytes \<times> bytes" where
  "get_chunk tag b =
     (case b of
        [] \<Rightarrow> Inl ''msgp: too few bytes left to read object''
      | h # r \<Rightarrow>
          let n = be_val (take 4 r) in
          if h = tag \<and> 4 + n \<le> length r then Inr (take n (drop 4 r), drop (4 + n) r)
          else Inl ''msgp: attempted to decode another type'')"

definition put_string :: "bytes \<Rightarrow> string \<Rightarrow> bytes" where
  "put_string b s =
     (if length s < 32 then b @ of_nat (160 + length s) # bytes_of_string s
      else put_chunk 0xdb b (bytes_of_string s))"

definition get_string :: "bytes \<Rightarrow> string + string \<times> bytes" where
  "get_string b =
     (case b of
        [] \<Rightarrow> Inl ''msgp: too few bytes left to read object''
      | h # r \<Rightarrow>
          if 160 \<le> unat h \<and> unat h < 192 \<and> unat h - 160 \<le> length r
          then Inr (string_of_bytes (take (unat h - 160) r), drop (unat h - 160) r)
          else map_sum id (map_prod string_of_bytes id) (get_chunk 0xdb b))"

definition mini_msgp :: msgp_api where
  "mini_msgp = \<lparr>
     mp_AppendInt = put_int, mp_ReadIntBytes = get_int,
     mp_AppendInt64 = put_int, mp_ReadInt64Bytes = get_int,
     mp_AppendByte = put_byte, mp_ReadByteBytes = get_byte,
     mp_AppendString = put_string, mp_ReadStringBytes = get_string,
     mp_AppendBytes = put_chunk 0xc6, mp_ReadBytesBytes = get_chunk 0xc6 \<rparr>"

lemma codec_int: "object_codec (\<lambda>_. True) (\<lambda>_. 0) put_int get_int"
proof -
  have small: "unat (ucast i :: byte) = unat i" if "unat i < 128" for i :: int64
    using that by (simp add: unsigned_ucast_eq take_bit_nat_eq_self_iff)
  have big: "(of_nat (be_val (be_bytes 8 (unat i))) :: int64) = i" for i :: int64
  proof -
    have "unat i < 2 ^ LENGTH(64)" by (rule unsigned_less)
    then show ?thesis by (simp add: be_val_be_bytes)
  qed
  have round: "(ucast (ucast i :: byte) :: int64) = i" if "unat i < 128" for i :: int64
  proof (rule word_unat_eq_iff [THEN iffD2])
    have "unat (ucast w :: int64) = unat w" for w :: byte
      using unat_byte_less [of w] by (simp add: unsigned_ucast_eq take_bit_nat_eq_self_iff)
    then show "unat (ucast (ucast i :: byte) :: int64) = unat i"
      using small [OF that] by (simp only:)
  qed
  show ?thesis
    unfolding object_codec_def
    by (auto simp: put_int_def get_int_def small big round split: list.splits if_splits)
qed

lemma codec_byte: "object_codec (\<lambda>_. True) (\<lambda>_. 0) put_byte get_byte"
  unfolding object_codec_def
  by (auto simp: put_byte_def get_byte_def split: list.splits if_splits)

lemma get_put_chunk: "length s < 2 ^ 32 \<Longrightarrow> get_chunk tag (put_chunk tag [] s @ r) = Inr (s, r)"
  by (simp add: put_chunk_def get_chunk_def be_val_be_bytes)

lemma get_chunk_size: "get_chunk tag b = Inr (s, r) \<Longrightarrow> length s + length r < length b"
  by (auto simp: get_chunk_def Let_def split: list.splits if_splits)

lemma codec_chunk: "object_codec (\<lambda>s. length s < 2 ^ 32) length (put_chunk tag) (get_chunk tag)"
  unfolding object_codec_def
  using get_put_chunk [of _ tag] get_chunk_size [of tag] by (auto simp: put_chunk_def)

lemma codec_string: "object_codec (\<lambda>s. length s < 2 ^ 32) length put_string get_string"
proof -
  have app: "put_string b s = b @ put_string [] s" for b s
    by (simp add: put_string_def put_chunk_def)
  have rt: "get_string (put_string [] s @ r) = Inr (s, r)" if "length s < 2 ^ 32" for s r
  proof (cases "length s < 32")
    case True
    then have "unat (of_nat (160 + length s) :: byte) = 160 + length s"
      by (simp only: unat_of_nat_byte) simp
    with True show ?thesis by (simp add: put_string_def get_string_def)
  next
    case False
    have "put_chunk 0xdb [] (bytes_of_string s) @ r = 0xdb # be_bytes 4 (length s) @ bytes_of_string s @ r"
      by (simp add: put_chunk_def)
    moreover have "get_chunk 0xdb (put_chunk 0xdb [] (bytes_of_string s) @ r) = Inr (bytes_of_string s, r)"
      using that by (intro get_put_chunk) simp
    ultimately show ?thesis using False by (simp add: put_string_def get_string_def)
  qed
  have sz: "length s + length r < length b" if "get_string b = Inr (s, r)" for b s r
  proof (cases b)
    case (Cons h t)
    show ?thesis
    proof (cases "160 \<le> unat h \<and> unat h < 192 \<and> unat h - 160 \<le> length t")
      case True
      with that Cons show ?thesis by (auto simp: get_string_def)
    next
      case False
      with that Cons obtain s' where "get_chunk 0xdb b = Inr (s', r)" "s = string_of_bytes s'"
        by (cases "get_chunk 0xdb b") (auto simp: get_string_def)
      then show ?thesis using get_chunk_size by fastforce
    qed
  qed (use that in \<open>simp add: get_string_def\<close>)
  show ?thesis unfolding object_codec_def using app rt sz by blast
qed

interpretation mini_msgp: msgp mini_msgp
  by unfold_locales
    (simp_all only: mini_msgp_def msgp_api.select_convs codec_int codec_byte codec_string codec_chunk)

lemma msgp_mini: "msgp mini_msgp"
  by (rule mini_msgp.msgp_axioms)

end
