(* ===== verification/OrderedMap_Core.thy ===== *)
theory OrderedMap_Core
  imports Btree_Api Msgp_Api
begin

text \<open>
  What \<^verbatim>\<open>orderedintmap.go\<close>, \<^verbatim>\<open>orderedstrmap.go\<close> and \<^verbatim>\<open>orderedbufmap.go\<close> repeat with their own
  value type: the loop that reads \<open>count\<close> key/value pairs into a tree and the loop that dumps a
  tree, each with the value reader or writer as an argument; and the facts about them that the
  three maps share, proved once in the locale \<open>map_serial\<close>.
\<close>

section \<open>The loops\<close>

text \<open>
  \<^verbatim>\<open>for i := 0; i < count; i++ { k, b, err = ReadStringBytes(b); ...; m.tree.Set(k, v) }\<close>.
  On an error the pairs already read stay in the tree.
\<close>

primrec load_items ::
  "('t, 'e, 'v) btree_api \<Rightarrow> msgp_api \<Rightarrow> (bytes \<Rightarrow> string + 'v \<times> bytes) \<Rightarrow> nat \<Rightarrow> 't \<Rightarrow> bytes
     \<Rightarrow> 't \<times> (string + bytes)" where
  "load_items B M rd 0 t b = (t, Inr b)"
| "load_items B M rd (Suc n) t b =
     (case mp_ReadStringBytes M b of
        Inl err \<Rightarrow> (t, Inl err)
      | Inr (k, b1) \<Rightarrow>
          (case rd b1 of
             Inl err \<Rightarrow> (t, Inl err)
           | Inr (v, b2) \<Rightarrow> load_items B M rd n (bt_Set B t k v) b2))"

text \<open>
  \<^verbatim>\<open>for err == nil && k != "" { b = AppendString(b, k); b = append(b, v); k, v, err = e.Next() }\<close>,
  with the pair last returned by \<^verbatim>\<open>Next\<close> as an argument. Whether the loop ends depends on the
  enumerator, hence the option type.
\<close>

partial_function (option) dump_items ::
  "('t, 'e, 'v) btree_api \<Rightarrow> msgp_api \<Rightarrow> (bytes \<Rightarrow> 'v \<Rightarrow> bytes) \<Rightarrow> 't
     \<Rightarrow> (string \<times> 'v) option \<Rightarrow> 'e \<Rightarrow> bytes \<Rightarrow> bytes option" where
  "dump_items B M app t kv e b =
     (case kv of
        None \<Rightarrow> Some b
      | Some (k, v) \<Rightarrow>
          if k \<noteq> ''''
          then dump_items B M app t (fst (bt_Next B t e)) (snd (bt_Next B t e))
                 (app (mp_AppendString M b k) v)
          else Some b)"

text \<open>The body of \<^verbatim>\<open>dumpTo\<close>. An ignored error of \<^verbatim>\<open>SeekFirst\<close> leaves a nil enumerator.\<close>

definition dump_tree ::
  "('t, 'e, 'v) btree_api \<Rightarrow> msgp_api \<Rightarrow> (bytes \<Rightarrow> 'v \<Rightarrow> bytes) \<Rightarrow> 't \<Rightarrow> bytes \<Rightarrow> bytes res option" where
  "dump_tree B M app t b =
     (let b = mp_AppendInt M b (of_int (bt_Len B t)) in
      if bt_Len B t = 0 then Some (Inr b)
      else case bt_SeekFirst B t of
        Inl _ \<Rightarrow> Some (Inl PNilDeref)
      | Inr e \<Rightarrow> map_option Inr
          (dump_items B M app t (fst (bt_Next B t e)) (snd (bt_Next B t e)) b))"

text \<open>The tree part of \<^verbatim>\<open>loadFrom\<close>; a negative count reads nothing.\<close>

definition load_tree ::
  "('t, 'e, 'v) btree_api \<Rightarrow> msgp_api \<Rightarrow> (bytes \<Rightarrow> string + 'v \<times> bytes) \<Rightarrow> 't \<Rightarrow> bytes
     \<Rightarrow> 't \<times> (string + bytes)" where
  "load_tree B M rd t b =
     (let t = bt_Clear B t in
      case mp_ReadIntBytes M b of
        Inl err \<Rightarrow> (t, Inl err)
      | Inr (count, b) \<Rightarrow> load_items B M rd (nat (sint count)) t b)"

section \<open>Bytes held by a map\<close>

text \<open>The key and value bytes of a finite map, with \<open>sz\<close> the size of a value.\<close>

definition payload :: "('v \<Rightarrow> nat) \<Rightarrow> (string \<rightharpoonup> 'v) \<Rightarrow> nat" where
  "payload sz m = (\<Sum>k \<in> dom m. length k + sz (the (m k)))"

lemma payload_empty [simp]: "payload sz Map.empty = 0"
  by (simp add: payload_def)

lemma payload_upd_new:
  assumes "finite (dom m)" "m k = None"
  shows "payload sz (m(k \<mapsto> v)) = payload sz m + (length k + sz v)"
proof -
  have k: "k \<notin> dom m" using assms(2) by auto
  then have "(\<Sum>j \<in> dom m. length j + sz (the ((m(k \<mapsto> v)) j))) = payload sz m"
    unfolding payload_def by (intro sum.cong) auto
  then show ?thesis using assms(1) k by (simp add: payload_def)
qed

lemma payload_delete:
  assumes "finite (dom m)" "m k = Some v"
  shows "payload sz (m(k := None)) + (length k + sz v) = payload sz m"
proof -
  have "payload sz ((m(k := None))(k \<mapsto> v)) = payload sz (m(k := None)) + (length k + sz v)"
    using assms(1) by (intro payload_upd_new) auto
  moreover have "(m(k := None))(k \<mapsto> v) = m" using assms(2) by auto
  ultimately show ?thesis by simp
qed

lemma payload_upd_old:
  assumes "finite (dom m)" "m k = Some old"
  shows "payload sz (m(k \<mapsto> v)) + sz old = payload sz m + sz v"
proof -
  have "payload sz ((m(k := None))(k \<mapsto> v)) = payload sz (m(k := None)) + (length k + sz v)"
    using assms(1) by (intro payload_upd_new) auto
  with payload_delete [OF assms, of sz] show ?thesis by simp
qed

lemma payload_upd_le:
  assumes "finite (dom m)"
  shows "payload sz (m(k \<mapsto> v)) \<le> payload sz m + (length k + sz v)"
proof (cases "m k")
  case None
  with payload_upd_new [OF assms None, of sz v] show ?thesis by simp
next
  case (Some old)
  with payload_upd_old [OF assms Some, of sz v] show ?thesis by simp
qed

lemma payload_member_le:
  assumes "finite (dom m)" "m k = Some v"
  shows "length k + sz v \<le> payload sz m"
  using payload_delete [OF assms, of sz] by simp

lemma card_le_payload:
  assumes "finite (dom m)"
  shows "card (dom m) \<le> payload sz m + 1"
proof -
  let ?D = "dom m - {''''}"
  have "card ?D = (\<Sum>k \<in> ?D. 1)" by simp
  also have "\<dots> \<le> (\<Sum>k \<in> ?D. length k + sz (the (m k)))"
    by (rule sum_mono) (auto simp: Suc_le_eq)
  also have "\<dots> \<le> payload sz m"
    unfolding payload_def by (rule sum_mono2) (use assms in auto)
  finally have "card ?D \<le> payload sz m" .
  moreover have "card (dom m) \<le> card ?D + 1"
    by (cases "'''' \<in> dom m") (simp_all add: assms card_Diff_singleton_if)
  ultimately show ?thesis by simp
qed

section \<open>64-bit sizes\<close>

lemma sint_size_diff:
  "r \<le> b \<Longrightarrow> b < 2 ^ 63 \<Longrightarrow> sint (of_int (int b - int r) :: int64) = int b - int r"
proof -
  assume "r \<le> b" "b < 2 ^ 63"
  then have "- (2 ^ 63) \<le> int b - int r" "int b - int r < 2 ^ 63" by simp_all
  then show ?thesis by (rule sint_of_int64)
qed

text \<open>
  The size estimate of a map: at least its payload and at most the bytes handed over. The rules
  follow the cases of \<^verbatim>\<open>Set\<close>, \<^verbatim>\<open>Delete\<close> and \<^verbatim>\<open>loadFrom\<close>.
\<close>

definition size_inv :: "('v \<Rightarrow> nat) \<Rightarrow> (string \<rightharpoonup> 'v) \<Rightarrow> int64 \<Rightarrow> nat \<Rightarrow> bool" where
  "size_inv sz m est n \<longleftrightarrow> int (payload sz m) \<le> sint est \<and> sint est \<le> int n"

lemma size_inv_empty: "size_inv sz Map.empty 0 n"
  by (simp add: size_inv_def)

lemma size_inv_insert:
  assumes "finite (dom m)" "m k = None" "size_inv sz m est n" "n + 10 + length k + sz v < 2 ^ 63"
  shows "size_inv sz (m(k \<mapsto> v)) (est + (10 + of_nat (length k) + of_nat (sz v))) (n + 10 + length k + sz v)"
proof -
  have "sint (est + of_int (10 + int (length k) + int (sz v))) = sint est + (10 + int (length k) + int (sz v))"
    using assms(3,4) unfolding size_inv_def by (intro sint_add_int64) auto
  moreover have "payload sz (m(k \<mapsto> v)) = payload sz m + (length k + sz v)"
    by (rule payload_upd_new [OF assms(1,2)])
  ultimately show ?thesis using assms(3) unfolding size_inv_def by simp
qed

lemma size_inv_replace:
  assumes "finite (dom m)" "m k = Some old" "size_inv sz m est n" "n + 10 + length k + sz v < 2 ^ 63"
  shows "size_inv sz (m(k \<mapsto> v)) (est + (of_nat (sz v) - of_nat (sz old))) (n + 10 + length k + sz v)"
proof -
  have p: "payload sz (m(k \<mapsto> v)) + sz old = payload sz m + sz v"
    by (rule payload_upd_old [OF assms(1,2)])
  then have "sint (est + of_int (int (sz v) - int (sz old))) = sint est + (int (sz v) - int (sz old))"
    using assms(3,4) unfolding size_inv_def by (intro sint_add_int64) auto
  then show ?thesis using p assms(3) unfolding size_inv_def by simp
qed

lemma size_inv_remove:
  assumes "finite (dom m)" "m k = Some old" "size_inv sz m est n" "n < 2 ^ 63"
  shows "size_inv sz (m(k := None)) (est - of_nat (length k)) n"
proof -
  have p: "payload sz (m(k := None)) + (length k + sz old) = payload sz m"
    by (rule payload_delete [OF assms(1,2)])
  then have "sint (est + of_int (- int (length k))) = sint est + - int (length k)"
    using assms(3,4) unfolding size_inv_def by (intro sint_add_int64) auto
  then show ?thesis using p assms(3) unfolding size_inv_def by simp
qed

lemma size_inv_load:
  assumes "r \<le> b" "payload sz m \<le> b - r" "b \<le> n" "n < 2 ^ 63"
  shows "size_inv sz m (of_nat b - of_nat r) n"
proof -
  have "sint (of_int (int b - int r) :: int64) = int b - int r"
    using assms by (intro sint_size_diff) auto
  moreover have "int (payload sz m) \<le> int b - int r" using assms(1,2) by linarith
  ultimately show ?thesis using assms(3) by (simp add: size_inv_def)
qed

section \<open>The byte form of a list of items\<close>

definition encode_items :: "msgp_api \<Rightarrow> (bytes \<Rightarrow> 'v \<Rightarrow> bytes) \<Rightarrow> (string \<times> 'v) list \<Rightarrow> bytes" where
  "encode_items M app xs = concat (map (\<lambda>(k, v). app (mp_AppendString M [] k) v) xs)"

lemma encode_items_simps [simp]:
  "encode_items M app [] = []"
  "encode_items M app ((k, v) # xs) = app (mp_AppendString M [] k) v @ encode_items M app xs"
  by (simp_all add: encode_items_def)

lemma foldl_upd_map_of:
  "distinct (map fst xs) \<Longrightarrow> foldl (\<lambda>m (k, v). m(k \<mapsto> v)) m xs = m ++ map_of xs"
proof (induction xs arbitrary: m)
  case (Cons p xs)
  obtain k v where p: "p = (k, v)" by (cases p)
  with Cons.prems have "k \<notin> dom (map_of xs)"
    by (auto simp: dom_map_of_conv_image_fst)
  then have "m(k \<mapsto> v) ++ map_of xs = m ++ (map_of xs)(k \<mapsto> v)"
    by (auto simp: map_add_def fun_eq_iff split: option.splits)
  moreover have "foldl (\<lambda>m (k, v). m(k \<mapsto> v)) m (p # xs) = m(k \<mapsto> v) ++ map_of xs"
    unfolding p foldl_Cons prod.case by (rule Cons.IH) (use Cons.prems in simp)
  moreover have "map_of (p # xs) = (map_of xs)(k \<mapsto> v)" by (simp add: p)
  ultimately show ?case by (simp only:)
qed simp

section \<open>Maps over a tree\<close>

context btree
begin

abbreviation absm :: "'t \<Rightarrow> (string \<rightharpoonup> 'v)" where
  "absm t \<equiv> map_of (items t)"

lemma finite_absm: "finite (dom (absm t))"
  by (rule finite_dom_map_of)

lemma Len_card: "wf t \<Longrightarrow> bt_Len B t = int (card (dom (absm t)))"
  using distinct_card [OF key_sorted_distinct [OF sorted [of t]]]
  by (simp add: Len dom_map_of_conv_image_fst)

end

section \<open>Serialization\<close>

locale map_serial = btree B zero wf items rest + msgp M
  for B :: "('t, 'e, 'v) btree_api" and zero wf items rest and M +
  fixes okv :: "'v \<Rightarrow> bool" and sz :: "'v \<Rightarrow> nat"
    and app :: "bytes \<Rightarrow> 'v \<Rightarrow> bytes" and rd :: "bytes \<Rightarrow> string + 'v \<times> bytes"
  assumes Value: "object_codec okv sz app rd"
begin

lemma absm_fold_Set:
  "wf t \<Longrightarrow> wf (foldl (\<lambda>t (k, v). bt_Set B t k v) t xs)
    \<and> absm (foldl (\<lambda>t (k, v). bt_Set B t k v) t xs) = foldl (\<lambda>m (k, v). m(k \<mapsto> v)) (absm t) xs"
proof (induction xs arbitrary: t)
  case (Cons p xs)
  then show ?case using wf_Set Set by (cases p) simp
qed simp

lemma items_fold_Set:
  assumes "wf t" "items t = []" "key_sorted xs"
  shows "items (foldl (\<lambda>t (k, v). bt_Set B t k v) t xs) = xs"
proof -
  let ?t = "foldl (\<lambda>t (k, v). bt_Set B t k v) t xs"
  have "wf ?t" "absm ?t = map_of xs"
    using absm_fold_Set [OF assms(1), of xs] assms(2)
      foldl_upd_map_of [OF key_sorted_distinct [OF assms(3)]] by simp_all
  then show ?thesis using key_sorted_unique [OF sorted assms(3)] by simp
qed

lemma append_pair: "app (mp_AppendString M b k) v = b @ app (mp_AppendString M [] k) v"
proof -
  have "app (mp_AppendString M b k) v = (b @ mp_AppendString M [] k) @ app [] v"
    using object_codec_append [OF Value] object_codec_append [OF String] by metis
  also have "\<dots> = b @ app (mp_AppendString M [] k) v"
    using object_codec_append [OF Value, of "mp_AppendString M [] k" v] by simp
  finally show ?thesis .
qed

lemma dump_items_all:
  assumes "wf t" "rest t e = xs" "\<forall>p \<in> set xs. fst p \<noteq> ''''"
  shows "dump_items B M app t (fst (bt_Next B t e)) (snd (bt_Next B t e)) b
    = Some (b @ encode_items M app xs)"
  using assms(2,3)
proof (induction xs arbitrary: e b)
  case Nil
  then show ?case using Next_end [OF assms(1)] by (simp add: dump_items.simps)
next
  case (Cons p xs)
  obtain k v where p: "p = (k, v)" by (cases p)
  from Next_item [OF assms(1) Cons.prems(1)] obtain e'
    where e': "bt_Next B t e = (Some p, e')" "rest t e' = xs" by blast
  have "dump_items B M app t (Some (k, v)) e' b =
      dump_items B M app t (fst (bt_Next B t e')) (snd (bt_Next B t e')) (app (mp_AppendString M b k) v)"
    using Cons.prems(2) p by (subst dump_items.simps) simp
  then show ?case
    using Cons.IH [OF e'(2)] Cons.prems(2) e'(1) p append_pair [of b k v] by simp
qed

lemma dump_items_empty_key:
  assumes "wf t" "rest t e = ('''', v) # xs"
  shows "dump_items B M app t (fst (bt_Next B t e)) (snd (bt_Next B t e)) b = Some b"
  using Next_item [OF assms] by (auto simp: dump_items.simps)

definition storable :: "string \<times> 'v \<Rightarrow> bool" where
  "storable p \<longleftrightarrow> length (fst p) < 2 ^ 32 \<and> okv (snd p)"

lemma load_items_encode:
  assumes "\<forall>p \<in> set xs. storable p"
  shows "load_items B M rd (length xs) t (encode_items M app xs @ r)
    = (foldl (\<lambda>t (k, v). bt_Set B t k v) t xs, Inr r)"
  using assms
proof (induction xs arbitrary: t)
  case (Cons p xs)
  obtain k v where p: "p = (k, v)" by (cases p)
  let ?tail = "encode_items M app xs @ r"
  have "app (mp_AppendString M [] k) v = mp_AppendString M [] k @ app [] v"
    by (rule object_codec_append [OF Value])
  moreover have "mp_ReadStringBytes M (mp_AppendString M [] k @ app [] v @ ?tail) = Inr (k, app [] v @ ?tail)"
    using Cons.prems p by (intro object_codec_read [OF String]) (simp add: storable_def)
  moreover have "rd (app [] v @ ?tail) = Inr (v, ?tail)"
    using Cons.prems p by (intro object_codec_read [OF Value]) (simp add: storable_def)
  ultimately show ?case using Cons p by simp
qed simp

lemma load_items_bound:
  assumes "wf t" "load_items B M rd n t b = (t', Inr r)"
  shows "wf t' \<and> length r \<le> length b
    \<and> payload sz (absm t') + length r \<le> payload sz (absm t) + length b"
  using assms
proof (induction n arbitrary: t b)
  case (Suc n)
  from Suc.prems(2) obtain k b1 v b2
    where k: "mp_ReadStringBytes M b = Inr (k, b1)" and v: "rd b1 = Inr (v, b2)"
      and rec: "load_items B M rd n (bt_Set B t k v) b2 = (t', Inr r)"
    by (auto split: sum.splits prod.splits)
  have "length k + length b1 < length b" by (rule object_codec_size [OF String k])
  moreover have "sz v + length b2 < length b1" by (rule object_codec_size [OF Value v])
  moreover have "payload sz (absm (bt_Set B t k v)) \<le> payload sz (absm t) + (length k + sz v)"
    using payload_upd_le [OF finite_absm] Set [OF Suc.prems(1)] by simp
  moreover note Suc.IH [OF wf_Set [OF Suc.prems(1)] rec]
  ultimately show ?case by simp
qed simp

lemma load_items_wf: "wf t \<Longrightarrow> wf (fst (load_items B M rd n t b))"
  by (induction n arbitrary: t b) (auto split: sum.splits prod.splits simp: wf_Set)

text \<open>The byte form \<^verbatim>\<open>dumpTo\<close> produces when no key is empty.\<close>

definition encode_tree :: "'t \<Rightarrow> bytes" where
  "encode_tree t = mp_AppendInt M [] (of_nat (length (items t))) @ encode_items M app (items t)"

lemma dump_tree_encode:
  assumes "wf t" "\<forall>p \<in> set (items t). fst p \<noteq> ''''"
  shows "dump_tree B M app t b = Some (Inr (b @ encode_tree t))"
proof (cases "items t = []")
  case True
  have "mp_AppendInt M b 0 = b @ mp_AppendInt M [] 0" by (rule object_codec_append [OF Int])
  with True show ?thesis by (simp add: dump_tree_def encode_tree_def Len [OF assms(1)] Let_def)
next
  case False
  let ?n = "of_nat (length (items t)) :: int64"
  have n: "mp_AppendInt M b ?n = b @ mp_AppendInt M [] ?n" by (rule object_codec_append [OF Int])
  from SeekFirst [OF assms(1) False] obtain e
    where "bt_SeekFirst B t = Inr e" "rest t e = items t" by blast
  with dump_items_all [OF assms(1) _ assms(2)] False n show ?thesis
    by (simp add: dump_tree_def encode_tree_def Len [OF assms(1)] Let_def)
qed

text \<open>An empty key sorts first, so its presence makes the loop stop before any pair is written.\<close>

lemma dump_tree_empty_key:
  assumes "wf t" "items t = ('''', v) # xs"
  shows "dump_tree B M app t b = Some (Inr (b @ mp_AppendInt M [] (of_nat (length (items t)))))"
proof -
  let ?n = "of_nat (length (items t)) :: int64"
  have n: "mp_AppendInt M b ?n = b @ mp_AppendInt M [] ?n" by (rule object_codec_append [OF Int])
  from SeekFirst [OF assms(1)] assms(2) obtain e
    where "bt_SeekFirst B t = Inr e" "rest t e = ('''', v) # xs" by auto
  with dump_items_empty_key [OF assms(1)] n show ?thesis
    by (simp add: dump_tree_def Len [OF assms(1)] Let_def assms(2))
qed

lemma load_tree_encode:
  assumes "wf t" "wf t0" "\<forall>p \<in> set (items t). storable p" "length (items t) < 2 ^ 63"
  shows "\<exists>t'. load_tree B M rd t0 (encode_tree t @ r) = (t', Inr r) \<and> wf t' \<and> items t' = items t"
proof -
  let ?n = "of_nat (length (items t)) :: int64"
  let ?c = "bt_Clear B t0"
  let ?t' = "foldl (\<lambda>t (k, v). bt_Set B t k v) ?c (items t)"
  have "sint ?n = int (length (items t))"
    using sint_of_int64 [of "int (length (items t))"] assms(4) by simp
  then have count: "nat (sint ?n) = length (items t)" by simp
  have "mp_ReadIntBytes M (encode_tree t @ r) = Inr (?n, encode_items M app (items t) @ r)"
    unfolding encode_tree_def append_assoc by (rule object_codec_read [OF Int]) simp
  then have "load_tree B M rd t0 (encode_tree t @ r) = (?t', Inr r)"
    using load_items_encode [OF assms(3)] by (simp add: load_tree_def Let_def count)
  moreover have "wf ?t'" using absm_fold_Set Clear [OF assms(2)] by blast
  moreover have "items ?t' = items t"
    using items_fold_Set [OF _ _ sorted [OF assms(1)]] Clear [OF assms(2)] by blast
  ultimately show ?thesis by blast
qed

lemma load_tree_bound:
  assumes "wf t" "load_tree B M rd t b = (t', Inr r)"
  shows "wf t' \<and> length r \<le> length b \<and> payload sz (absm t') \<le> length b - length r"
proof -
  from assms(2) obtain count b1 where c: "mp_ReadIntBytes M b = Inr (count, b1)"
    and l: "load_items B M rd (nat (sint count)) (bt_Clear B t) b1 = (t', Inr r)"
    by (auto simp: load_tree_def Let_def split: sum.splits prod.splits)
  have "length b1 < length b" using object_codec_size [OF Int c] by simp
  moreover note load_items_bound [OF _ l] Clear [OF assms(1)]
  ultimately show ?thesis by auto
qed

lemma load_tree_wf: "wf t \<Longrightarrow> wf (fst (load_tree B M rd t b))"
  using Clear [of t] by (auto simp: load_tree_def Let_def load_items_wf split: sum.splits)

text \<open>Trees of less than 4 GiB of payload stay within MessagePack's 32-bit lengths.\<close>

lemma storable_of_payload:
  assumes "wf t" "payload sz (absm t) < 2 ^ 32" "\<And>v. sz v < 2 ^ 32 \<Longrightarrow> okv v"
  shows "\<forall>p \<in> set (items t). storable p"
proof
  fix p assume p: "p \<in> set (items t)"
  obtain k v where kv: "p = (k, v)" by (cases p)
  with p have "absm t k = Some v"
    using key_sorted_distinct [OF sorted [OF assms(1)]] by (simp add: map_of_eq_Some_iff)
  from payload_member_le [OF finite_absm this, of sz] assms(2,3) kv
  show "storable p" by (simp add: storable_def)
qed

lemma length_items_payload: "wf t \<Longrightarrow> length (items t) \<le> payload sz (absm t) + 1"
  using card_le_payload [OF finite_absm, of t sz] Len_card [of t] Len [of t] by simp

lemma absm_key_in: "p \<in> set (items t) \<Longrightarrow> fst p \<in> dom (absm t)"
  by (simp add: dom_map_of_conv_image_fst)

lemma dump_load:
  assumes "wf t" "wf t0" "payload sz (absm t) < 2 ^ 32" "\<And>v. sz v < 2 ^ 32 \<Longrightarrow> okv v"
    and "absm t '''' = None"
  shows "\<exists>d t'. dump_tree B M app t b = Some (Inr (b @ d))
    \<and> load_tree B M rd t0 (d @ r) = (t', Inr r) \<and> wf t' \<and> items t' = items t"
proof -
  have "\<forall>p \<in> set (items t). fst p \<noteq> ''''"
    using absm_key_in [of _ t] assms(5) by fastforce
  note dump_tree_encode [OF assms(1) this, of b]
  moreover have "length (items t) < 2 ^ 63"
    using length_items_payload [OF assms(1)] assms(3) by simp
  note load_tree_encode [OF assms(1,2) storable_of_payload [OF assms(1,3,4)] this, of r]
  ultimately show ?thesis by blast
qed

text \<open>With the empty key among the keys, what \<^verbatim>\<open>dumpTo\<close> wrote is rejected by \<^verbatim>\<open>loadFrom\<close>.\<close>

lemma dump_load_empty_key:
  assumes "wf t" "wf t0" "payload sz (absm t) < 2 ^ 32" "absm t '''' = Some v"
  shows "\<exists>d t' err. dump_tree B M app t b = Some (Inr (b @ d)) \<and> load_tree B M rd t0 d = (t', Inl err)"
proof -
  have "('''', v) \<in> set (items t)" using assms(4) by (rule map_of_SomeD)
  then obtain p xs where i: "items t = p # xs" by (cases "items t") auto
  have "fst p = ''''"
  proof (rule ccontr)
    assume "fst p \<noteq> ''''"
    then have "('''', v) \<in> set xs" using \<open>('''', v) \<in> set (items t)\<close> i by auto
    then have "fst p < ''''" using sorted [OF assms(1)] i by force
    then show False by simp
  qed
  then have it: "items t = ('''', snd p) # xs" using i by (cases p) simp
  let ?n = "of_nat (length (items t)) :: int64"
  let ?d = "mp_AppendInt M [] ?n"
  have "sint ?n = int (length (items t))"
    using sint_of_int64 [of "int (length (items t))"] length_items_payload [OF assms(1)] assms(3) by simp
  then have n: "nat (sint ?n) = Suc (length xs)" by (simp add: it)
  have "mp_ReadIntBytes M (?d @ []) = Inr (?n, [])" by (rule object_codec_read [OF Int]) simp
  moreover obtain err where "mp_ReadStringBytes M [] = Inl err"
    using object_codec_size [OF String, of "[]"] by (cases "mp_ReadStringBytes M []") auto
  ultimately have "load_tree B M rd t0 ?d = (bt_Clear B t0, Inl err)"
    by (simp add: load_tree_def Let_def n del: of_nat_Suc)
  with dump_tree_empty_key [OF assms(1) it, of b] show ?thesis by blast
qed

end

end
