(* ===== verification/OrderedMap_Spec.thy ===== *)
theory OrderedMap_Spec
  imports Args OrderedMap_Core
begin

text \<open>
  The contract the three ordered maps share. \<open>built\<close> is the set of maps a script can hold: it starts
  with a constructor and is closed under the public operations and successful loads. The locale
  \<open>ordered_map\<close> states how each operation acts on the tree and on the size estimate, whatever the
  record; its lemmas are the refinement to a finite map, the size invariant and the round trip.
\<close>

section \<open>The maps a script can build\<close>

text \<open>
  \<open>built new set delete clear load sz n m\<close>: \<open>m\<close> results from the operations, with \<open>n\<close> bytes handed
  over in total (ten per \<^verbatim>\<open>Set\<close> for the overhead the code counts, the bytes of the key and value,
  the whole buffer of a load).
\<close>

inductive built ::
  "'m \<Rightarrow> ('m \<Rightarrow> string \<Rightarrow> 'v \<Rightarrow> 'm res) \<Rightarrow> ('m \<Rightarrow> string \<Rightarrow> 'm) \<Rightarrow> ('m \<Rightarrow> 'm)
     \<Rightarrow> ('m \<Rightarrow> bytes \<Rightarrow> 'm \<times> (string + bytes)) \<Rightarrow> ('v \<Rightarrow> nat) \<Rightarrow> nat \<Rightarrow> 'm \<Rightarrow> bool"
  for new set delete clear load sz where
  built_new: "built new set delete clear load sz 0 new"
| built_set: "built new set delete clear load sz n m \<Longrightarrow> set m k v = Inr m'
    \<Longrightarrow> built new set delete clear load sz (n + 10 + length k + sz v) m'"
| built_delete: "built new set delete clear load sz n m
    \<Longrightarrow> built new set delete clear load sz n (delete m k)"
| built_clear: "built new set delete clear load sz n m \<Longrightarrow> built new set delete clear load sz n (clear m)"
| built_load: "built new set delete clear load sz n m \<Longrightarrow> load m b = (m', Inr r)
    \<Longrightarrow> built new set delete clear load sz (n + length b) m'"

text \<open>A script's loop over an iterator: the results of \<open>n\<close> calls of \<open>nxt\<close>.\<close>

primrec iterate :: "('i \<Rightarrow> 'a \<times> 'i) \<Rightarrow> nat \<Rightarrow> 'i \<Rightarrow> 'a list" where
  "iterate nxt 0 it = []"
| "iterate nxt (Suc n) it = fst (nxt it) # iterate nxt n (snd (nxt it))"

section \<open>The contract\<close>

locale ordered_map = map_serial B zero wf items rest M okv sz app rd
  for B :: "('t, 'e, 'v) btree_api" and zero wf items rest and M :: msgp_api and okv sz app rd +
  fixes tree :: "'m \<Rightarrow> 't" and est :: "'m \<Rightarrow> int64" and new :: 'm
    and put :: "'m \<Rightarrow> string \<Rightarrow> 'v \<Rightarrow> 'm res" and del :: "'m \<Rightarrow> string \<Rightarrow> 'm" and clr :: "'m \<Rightarrow> 'm"
    and load :: "'m \<Rightarrow> bytes \<Rightarrow> 'm \<times> (string + bytes)"
  assumes okv_sz: "sz v < 2 ^ 32 \<Longrightarrow> okv v"
    and New: "tree new = bt_TreeNew B lex_compare" "est new = 0"
    and put_empty: "put m '''' v = Inl EmptyKeyString"
    and put_key: "wf (tree m) \<Longrightarrow> k \<noteq> '''' \<Longrightarrow> \<exists>m'. put m k v = Inr m'
      \<and> tree m' = bt_Set B (tree m) k v
      \<and> est m' = (case map_of (items (tree m)) k of
            None \<Rightarrow> est m + (10 + of_nat (length k) + of_nat (sz v))
          | Some old \<Rightarrow> est m + (of_nat (sz v) - of_nat (sz old)))"
    and del: "tree (del m k) = fst (bt_Delete B (tree m) k)"
      "est (del m k) = (if snd (bt_Delete B (tree m) k) then est m - of_nat (length k) else est m)"
    and clr: "tree (clr m) = bt_Clear B (tree m)" "est (clr m) = 0"
    and load_fails: "load_tree B M rd (tree m) b = (t, Inl err) \<Longrightarrow> \<exists>m'. load m b = (m', Inl err)"
    and load_reads: "load_tree B M rd (tree m) b = (t, Inr r)
      \<Longrightarrow> \<exists>m'. load m b = (m', Inr r) \<and> tree m' = t \<and> est m' = of_nat (length b) - of_nat (length r)"
begin

abbreviation abs :: "'m \<Rightarrow> (string \<rightharpoonup> 'v)" where
  "abs m \<equiv> map_of (items (tree m))"

lemma new_abs: "wf (tree new) \<and> abs new = Map.empty"
  by (simp add: New TreeNew)

lemma put_abs:
  assumes "wf (tree m)" "put m k v = Inr m'"
  shows "k \<noteq> '''' \<and> wf (tree m') \<and> abs m' = (abs m)(k \<mapsto> v)
    \<and> est m' = (case abs m k of
            None \<Rightarrow> est m + (10 + of_nat (length k) + of_nat (sz v))
          | Some old \<Rightarrow> est m + (of_nat (sz v) - of_nat (sz old)))"
proof -
  have k: "k \<noteq> ''''" using assms(2) put_empty by auto
  from put_key [OF assms(1) k, of v] assms(2) k show ?thesis
    using wf_Set [OF assms(1)] Set [OF assms(1)] by (auto simp del: fun_upd_apply)
qed

lemma del_abs:
  "wf (tree m) \<Longrightarrow> wf (tree (del m k)) \<and> abs (del m k) = (abs m)(k := None)
    \<and> est (del m k) = (if abs m k = None then est m else est m - of_nat (length k))"
  using wf_Delete [of "tree m" k] Delete [of "tree m" k] Delete_existed [of "tree m" k]
  by (simp add: del)

lemma clr_abs: "wf (tree m) \<Longrightarrow> wf (tree (clr m)) \<and> abs (clr m) = Map.empty \<and> est (clr m) = 0"
  using Clear [of "tree m"] by (simp add: clr)

lemma load_abs:
  assumes "wf (tree m)" "load m b = (m', Inr r)"
  shows "wf (tree m') \<and> length r \<le> length b \<and> payload sz (abs m') \<le> length b - length r
    \<and> est m' = of_nat (length b) - of_nat (length r)"
proof -
  obtain t res where t: "load_tree B M rd (tree m) b = (t, res)" by fastforce
  with assms(2) load_fails [of m b t] have "res = Inr r"
    using load_reads [of m b t] by (cases res) fastforce+
  with t assms(2) load_reads [of m b t r] load_tree_bound [OF assms(1), of b t r] show ?thesis
    by auto
qed

section \<open>Invariants of every map a script can build\<close>

lemma built_wf: "built new put del clr load sz n m \<Longrightarrow> wf (tree m)"
  by (induction rule: built.induct) (use new_abs put_abs del_abs clr_abs load_abs in blast)+

lemma built_size_inv:
  "built new put del clr load sz n m \<Longrightarrow> n < 2 ^ 63 \<Longrightarrow> size_inv sz (abs m) (est m) n"
proof (induction rule: built.induct)
  case built_new
  then show ?case using new_abs New by (simp add: size_inv_empty)
next
  case (built_set n m k v m')
  note st = put_abs [OF built_wf [OF built_set.hyps(1)] built_set.hyps(2)]
  have inv: "size_inv sz (abs m) (est m) n" using built_set.IH built_set.prems by simp
  show ?case
  proof (cases "abs m k")
    case None
    with size_inv_insert [OF finite_absm None inv, of v] built_set.prems st
    show ?thesis by (simp del: fun_upd_apply)
  next
    case (Some old)
    with size_inv_replace [OF finite_absm Some inv, of v] built_set.prems st
    show ?thesis by (simp del: fun_upd_apply)
  qed
next
  case (built_delete n m k)
  note st = del_abs [OF built_wf [OF built_delete.hyps], of k]
  show ?case
  proof (cases "abs m k")
    case None
    then have "(abs m)(k := None) = abs m" by auto
    with None st built_delete show ?thesis by (simp del: fun_upd_apply)
  next
    case (Some old)
    from size_inv_remove [OF finite_absm Some built_delete.IH [OF built_delete.prems] built_delete.prems] Some st
    show ?thesis by (simp del: fun_upd_apply)
  qed
next
  case (built_clear n m)
  then show ?case using clr_abs [OF built_wf [OF built_clear.hyps]] by (simp add: size_inv_empty)
next
  case (built_load n m b m' r)
  from load_abs [OF built_wf [OF built_load.hyps(1)] built_load.hyps(2)] built_load.prems
  show ?case by (auto intro: size_inv_load)
qed

lemma built_small:
  assumes "built new put del clr load sz n m" "n < 2 ^ 32"
  shows "payload sz (abs m) < 2 ^ 32"
proof -
  have "int (payload sz (abs m)) \<le> int n"
    using built_size_inv [OF assms(1)] assms(2) unfolding size_inv_def by simp
  with assms(2) show ?thesis by simp
qed

section \<open>What a script observes\<close>

lemma Len_keys: "wf t \<Longrightarrow> bt_Len B t = int (card {j. snd (bt_Get B t j)})"
proof -
  assume t: "wf t"
  then have "{j. snd (bt_Get B t j)} = dom (absm t)" by (auto simp: Get split: option.splits)
  with Len_card [OF t] show ?thesis by simp
qed

lemma new_observed: "bt_Get B (tree new) j = (zero, False) \<and> bt_Len B (tree new) = 0"
  using new_abs by (simp add: Get Len_card)

lemma clr_observed: "wf (tree m) \<Longrightarrow> bt_Get B (tree (clr m)) j = (zero, False) \<and> bt_Len B (tree (clr m)) = 0"
  using clr_abs [of m] by (simp add: Get Len_card)

lemma put_observed:
  assumes "wf (tree m)"
  shows "if k = '''' then put m k v = Inl EmptyKeyString
    else \<exists>m'. put m k v = Inr m'
      \<and> (\<forall>j. bt_Get B (tree m') j = (if j = k then (v, True) else bt_Get B (tree m) j))
      \<and> bt_Len B (tree m') = (if snd (bt_Get B (tree m) k) then bt_Len B (tree m) else bt_Len B (tree m) + 1)"
proof (cases "k = ''''")
  case False
  then obtain m' where m': "put m k v = Inr m'" using put_key [OF assms] by blast
  have ok: "wf (tree m')" "abs m' = (abs m)(k \<mapsto> v)" using put_abs [OF assms m'] by auto
  show ?thesis
    using False m' assms ok finite_absm [of "tree m"]
    by (auto simp: Get Len_card card_insert_if split: option.splits)
qed (simp add: put_empty)

lemma del_observed:
  assumes "wf (tree m)"
  shows "bt_Get B (tree (del m k)) j = (if j = k then (zero, False) else bt_Get B (tree m) j)
    \<and> bt_Len B (tree (del m k)) = (if snd (bt_Get B (tree m) k) then bt_Len B (tree m) - 1 else bt_Len B (tree m))"
proof -
  have "wf (tree (del m k))" "abs (del m k) = (abs m)(k := None)" using del_abs [OF assms] by auto
  moreover have "0 < card (dom (abs m))" if "abs m k = Some v" for v
    using that finite_absm [of "tree m"] by (auto simp: card_gt_0_iff)
  ultimately show ?thesis
    using assms finite_absm [of "tree m"]
    by (auto simp: Get Len_card card_Diff_singleton_if of_nat_diff Suc_le_eq split: option.splits)
qed

section \<open>Round trip and iteration\<close>

lemma built_dump_load:
  assumes "built new put del clr load sz n m" "n < 2 ^ 32"
  shows "if bt_Get B (tree m) '''' = (zero, False)
    then \<exists>d m'. dump_tree B M app (tree m) b = Some (Inr (b @ d)) \<and> load new (d @ r) = (m', Inr r)
      \<and> wf (tree m') \<and> items (tree m') = items (tree m)
    else \<exists>d m' err. dump_tree B M app (tree m) b = Some (Inr (b @ d)) \<and> load new d = (m', Inl err)"
proof (cases "abs m ''''")
  case None
  from dump_load [OF built_wf [OF assms(1)] conjunct1 [OF new_abs] built_small [OF assms] okv_sz None]
  obtain d t' where d: "dump_tree B M app (tree m) b = Some (Inr (b @ d))"
    and "load_tree B M rd (tree new) (d @ r) = (t', Inr r)" "wf t'" "items t' = items (tree m)" by blast
  with load_reads obtain m' where "load new (d @ r) = (m', Inr r)" "wf (tree m')"
    "items (tree m') = items (tree m)" by blast
  with d None show ?thesis by (auto simp: Get [OF built_wf [OF assms(1)]])
next
  case (Some v)
  from dump_load_empty_key [OF built_wf [OF assms(1)] conjunct1 [OF new_abs] built_small [OF assms] Some]
  obtain d t' err where d: "dump_tree B M app (tree m) b = Some (Inr (b @ d))"
    and "load_tree B M rd (tree new) d = (t', Inl err)" by blast
  with load_fails obtain m' where "load new d = (m', Inl err)" by blast
  with d Some show ?thesis by (auto simp: Get [OF built_wf [OF assms(1)]])
qed

text \<open>The same with one byte string for every buffer it is appended to and whatever follows it.\<close>

lemma built_encoding:
  assumes "built new put del clr load sz n m" "n < 2 ^ 32" "bt_Get B (tree m) '''' = (zero, False)"
  shows "\<exists>d. (\<forall>b. dump_tree B M app (tree m) b = Some (Inr (b @ d)))
    \<and> (\<forall>r. \<exists>m'. load new (d @ r) = (m', Inr r) \<and> (\<forall>k. bt_Get B (tree m') k = bt_Get B (tree m) k))"
proof -
  note wf_m = built_wf [OF assms(1)] and small = built_small [OF assms(1,2)]
  have "abs m '''' = None" using assms(3) by (simp add: Get [OF wf_m] split: option.splits)
  then have ne: "\<forall>p \<in> List.set (items (tree m)). fst p \<noteq> ''''"
    using absm_key_in [of _ "tree m"] by fastforce
  have len: "length (items (tree m)) < 2 ^ 63"
    using length_items_payload [OF wf_m] small by simp
  have "\<exists>m'. load new (encode_tree (tree m) @ r) = (m', Inr r)
      \<and> (\<forall>k. bt_Get B (tree m') k = bt_Get B (tree m) k)" for r
  proof -
    from load_tree_encode [OF wf_m conjunct1 [OF new_abs] storable_of_payload [OF wf_m small okv_sz] len]
    obtain t' where "load_tree B M rd (tree new) (encode_tree (tree m) @ r) = (t', Inr r)"
      "wf t'" "items t' = items (tree m)" by blast
    with load_reads obtain m' where "load new (encode_tree (tree m) @ r) = (m', Inr r)"
      "wf (tree m')" "items (tree m') = items (tree m)" by blast
    with wf_m show ?thesis by (auto simp: Get)
  qed
  with dump_tree_encode [OF wf_m ne] show ?thesis by blast
qed

lemma built_est: "built new put del clr load sz n m \<Longrightarrow> n < 2 ^ 63 \<Longrightarrow> 0 \<le> sint (est m) \<and> sint (est m) \<le> int n"
  using built_size_inv [of n m] unfolding size_inv_def by linarith

lemma iterate_items:
  assumes "wf t" "rest t (proj it) = xs"
    and "\<And>it kv e. bt_Next B t (proj it) = (Some kv, e) \<Longrightarrow> fst (nxt it) = f kv \<and> proj (snd (nxt it)) = e"
  shows "iterate nxt (length xs) it = map f xs"
  using assms(2)
proof (induction xs arbitrary: it)
  case (Cons p xs)
  from Next_item [OF assms(1) Cons.prems] obtain e
    where "bt_Next B t (proj it) = (Some p, e)" "rest t e = xs" by blast
  with assms(3) [of it p e] Cons.IH [of "snd (nxt it)"] show ?case by simp
qed simp

lemma items_observed: "wf t \<Longrightarrow> List.set (items t) = {(k, v). bt_Get B t k = (v, True)}"
  using key_sorted_distinct [OF sorted [of t]]
  by (auto simp: Get split: option.splits dest: map_of_SomeD)

end

end
