(* ===== verification/OrderedIntMap.thy ===== *)
theory OrderedIntMap
  imports OrderedMap_Spec
begin

text \<open>
  \<^verbatim>\<open>script/types/orderedintmap.go\<close>: a map from non-empty strings to \<^verbatim>\<open>int64\<close> in key order. The
  tree package is the parameter \<open>B\<close>, the MessagePack package the parameter \<open>M\<close>.
\<close>

section \<open>Data and operations\<close>

record 't OrderedIntMap =
  im_estimatedSize :: int64
  im_tree :: 't

record 'e OrderedIntMapIter = im_e :: 'e

definition NewOrderedIntMap :: "('t, 'e, int64) btree_api \<Rightarrow> 't OrderedIntMap" where
  "NewOrderedIntMap B = \<lparr>im_estimatedSize = 0, im_tree = bt_TreeNew B lex_compare\<rparr>"

definition im_loadFrom ::
  "('t, 'e, int64) btree_api \<Rightarrow> msgp_api \<Rightarrow> 't OrderedIntMap \<Rightarrow> bytes
     \<Rightarrow> 't OrderedIntMap \<times> (string + bytes)" where
  "im_loadFrom B M m b =
     (let initSize = length b in
      case load_tree B M (mp_ReadInt64Bytes M) (im_tree m) b of
        (t, Inl err) \<Rightarrow> (m\<lparr>im_tree := t\<rparr>, Inl err)
      | (t, Inr b) \<Rightarrow>
          (m\<lparr>im_tree := t, im_estimatedSize := of_int (int initSize - int (length b))\<rparr>, Inr b))"

definition im_dumpTo ::
  "('t, 'e, int64) btree_api \<Rightarrow> msgp_api \<Rightarrow> 't OrderedIntMap \<Rightarrow> bytes \<Rightarrow> bytes res option" where
  "im_dumpTo B M m b = dump_tree B M (mp_AppendInt64 M) (im_tree m) b"

definition im_Clear :: "('t, 'e, int64) btree_api \<Rightarrow> 't OrderedIntMap \<Rightarrow> 't OrderedIntMap" where
  "im_Clear B m = m\<lparr>im_tree := bt_Clear B (im_tree m), im_estimatedSize := 0\<rparr>"

definition im_Delete :: "('t, 'e, int64) btree_api \<Rightarrow> 't OrderedIntMap \<Rightarrow> string \<Rightarrow> 't OrderedIntMap" where
  "im_Delete B m k =
     (case bt_Delete B (im_tree m) k of (t, existed) \<Rightarrow>
        let m = m\<lparr>im_tree := t\<rparr> in
        if existed then m\<lparr>im_estimatedSize := im_estimatedSize m - of_nat (length k)\<rparr> else m)"

definition im_Get :: "('t, 'e, int64) btree_api \<Rightarrow> 't OrderedIntMap \<Rightarrow> string \<Rightarrow> int64 \<times> bool" where
  "im_Get B m k = bt_Get B (im_tree m) k"

definition im_Len :: "('t, 'e, int64) btree_api \<Rightarrow> 't OrderedIntMap \<Rightarrow> int" where
  "im_Len B m = bt_Len B (im_tree m)"

definition im_Set ::
  "('t, 'e, int64) btree_api \<Rightarrow> 't OrderedIntMap \<Rightarrow> string \<Rightarrow> int64 \<Rightarrow> 't OrderedIntMap res" where
  "im_Set B m k v =
     (if length k = 0 then Inl EmptyKeyString
      else case bt_Put B (im_tree m) k
             (\<lambda>_ exists est. ((v, True), if \<not> exists then est + (10 + of_nat (length k)) else est))
             (im_estimatedSize m) of
        (t, est) \<Rightarrow> Inr (m\<lparr>im_tree := t, im_estimatedSize := est\<rparr>))"

definition im_Seek :: "('t, 'e, int64) btree_api \<Rightarrow> 't OrderedIntMap \<Rightarrow> string \<Rightarrow> 'e OrderedIntMapIter \<times> bool" where
  "im_Seek B m k = (case bt_Seek B (im_tree m) k of (e, ok) \<Rightarrow> (\<lparr>im_e = e\<rparr>, ok))"

text \<open>A non-nil error result becomes a JavaScript exception.\<close>

definition im_SeekFirst :: "('t, 'e, int64) btree_api \<Rightarrow> 't OrderedIntMap \<Rightarrow> string + 'e OrderedIntMapIter" where
  "im_SeekFirst B m = (case bt_SeekFirst B (im_tree m) of Inl err \<Rightarrow> Inl err | Inr e \<Rightarrow> Inr \<lparr>im_e = e\<rparr>)"

definition im_SeekLast :: "('t, 'e, int64) btree_api \<Rightarrow> 't OrderedIntMap \<Rightarrow> string + 'e OrderedIntMapIter" where
  "im_SeekLast B m = (case bt_SeekLast B (im_tree m) of Inl err \<Rightarrow> Inl err | Inr e \<Rightarrow> Inr \<lparr>im_e = e\<rparr>)"

text \<open>The enumerator points to the tree of the map \<open>m\<close> it came from.\<close>

definition im_iter_Next ::
  "('t, 'e, int64) btree_api \<Rightarrow> 't OrderedIntMap \<Rightarrow> 'e OrderedIntMapIter
     \<Rightarrow> (string \<times> int64) \<times> 'e OrderedIntMapIter" where
  "im_iter_Next B m iter =
     (case bt_Next B (im_tree m) (im_e iter) of
        (None, e) \<Rightarrow> (('''', 0), \<lparr>im_e = e\<rparr>)
      | (Some (k, v), e) \<Rightarrow> ((k, v), \<lparr>im_e = e\<rparr>))"

definition im_iter_Prev ::
  "('t, 'e, int64) btree_api \<Rightarrow> 't OrderedIntMap \<Rightarrow> 'e OrderedIntMapIter
     \<Rightarrow> (string \<times> int64) \<times> 'e OrderedIntMapIter" where
  "im_iter_Prev B m iter =
     (case bt_Prev B (im_tree m) (im_e iter) of
        (None, e) \<Rightarrow> (('''', 0), \<lparr>im_e = e\<rparr>)
      | (Some (k, v), e) \<Rightarrow> ((k, v), \<lparr>im_e = e\<rparr>))"

definition im_iter_Close :: "('t, 'e, int64) btree_api \<Rightarrow> 'e OrderedIntMapIter \<Rightarrow> 'e OrderedIntMapIter" where
  "im_iter_Close B iter = \<lparr>im_e = bt_Close B (im_e iter)\<rparr>"

text \<open>The maps a script can build, with the bytes handed over.\<close>

abbreviation im_built ::
  "('t, 'e, int64) btree_api \<Rightarrow> msgp_api \<Rightarrow> nat \<Rightarrow> 't OrderedIntMap \<Rightarrow> bool" where
  "im_built B M \<equiv>
     built (NewOrderedIntMap B) (im_Set B) (im_Delete B) (im_Clear B) (im_loadFrom B M) (\<lambda>_. 0)"

section \<open>The contract over the documented packages\<close>

locale int_map = btree B 0 wf items rest + msgp M
  for B :: "('t, 'e, int64) btree_api" and wf items rest and M :: msgp_api

sublocale int_map \<subseteq> ordered_map B 0 wf items rest M "\<lambda>_. True" "\<lambda>_. 0"
  "mp_AppendInt64 M" "mp_ReadInt64Bytes M" im_tree im_estimatedSize "NewOrderedIntMap B"
  "im_Set B" "im_Delete B" "im_Clear B" "im_loadFrom B M"
proof unfold_locales
  fix m k show "im_estimatedSize (im_Delete B m k) = (if snd (bt_Delete B (im_tree m) k)
      then im_estimatedSize m - of_nat (length k) else im_estimatedSize m)"
    by (simp add: im_Delete_def Let_def split: prod.split)
next
  fix m k show "im_tree (im_Delete B m k) = fst (bt_Delete B (im_tree m) k)"
    by (simp add: im_Delete_def Let_def split: prod.split)
qed (auto simp: NewOrderedIntMap_def im_Set_def im_Clear_def im_loadFrom_def Let_def Int64 Put split: option.splits)

context int_map
begin

lemma contract: "ordered_map B 0 wf items rest M (\<lambda>_. True) (\<lambda>_. 0)
    (mp_AppendInt64 M) (mp_ReadInt64Bytes M) im_tree im_estimatedSize (NewOrderedIntMap B)
    (im_Set B) (im_Delete B) (im_Clear B) (im_loadFrom B M)"
  by (rule ordered_map_axioms)

end

interpretation int_map_alist: int_map "alist_btree 0" "\<lambda>t. key_sorted t" "\<lambda>t. t" alist_rest mini_msgp
  unfolding int_map_def by (intro conjI btree_alist msgp_mini)

lemma int_map_alist: "int_map (alist_btree 0) (\<lambda>t. key_sorted t) (\<lambda>t. t) alist_rest mini_msgp"
  by (rule int_map_alist.int_map_axioms)

text \<open>A concrete map for the witnesses: two keys written in descending order.\<close>

definition im_example :: "(string \<times> int64) list OrderedIntMap" where
  "im_example = \<lparr>im_estimatedSize = 22, im_tree = [(''a'', 7), (''b'', 5)]\<rparr>"

lemma im_example_built: "im_built (alist_btree 0) mini_msgp 22 im_example"
proof -
  let ?B = "alist_btree 0 :: ((string \<times> int64) list, int, int64) btree_api"
  let ?m = "\<lparr>im_estimatedSize = 11, im_tree = [(''b'', 5)]\<rparr> :: (string \<times> int64) list OrderedIntMap"
  have "im_Set ?B (NewOrderedIntMap ?B) ''b'' 5 = Inr ?m"
    by (simp add: im_Set_def NewOrderedIntMap_def alist_btree_def)
  then have "im_built ?B mini_msgp (0 + 10 + length ''b'' + 0) ?m" by (rule built_set [OF built_new])
  moreover have "im_Set ?B ?m ''a'' 7 = Inr im_example"
    by (simp add: im_Set_def im_example_def alist_btree_def)
  ultimately have "im_built ?B mini_msgp ((0 + 10 + length ''b'' + 0) + 10 + length ''a'' + 0) im_example"
    by (rule built_set)
  then show ?thesis by simp
qed

section \<open>Properties\<close>

text \<open>
  C10: on every map a script can build, \<^verbatim>\<open>Get\<close>, \<^verbatim>\<open>Len\<close>, \<^verbatim>\<open>Set\<close>, \<^verbatim>\<open>Delete\<close> and \<^verbatim>\<open>Clear\<close> refine a
  finite map: a read after a write sees exactly that write, \<^verbatim>\<open>Len\<close> counts the keys, and \<^verbatim>\<open>Set\<close>
  panics exactly on the empty key.
\<close>

theorem int_map_operations:
  assumes "int_map B good items rest M" "im_built B M n m"
  shows "im_Get B (NewOrderedIntMap B) j = (0, False) \<and> im_Len B (NewOrderedIntMap B) = 0
    \<and> im_Len B m = int (card {j. snd (im_Get B m j)})
    \<and> (if k = '''' then im_Set B m k v = Inl EmptyKeyString
       else \<exists>m'. im_Set B m k v = Inr m'
         \<and> (\<forall>j. im_Get B m' j = (if j = k then (v, True) else im_Get B m j))
         \<and> im_Len B m' = (if snd (im_Get B m k) then im_Len B m else im_Len B m + 1))
    \<and> im_Get B (im_Delete B m k) j = (if j = k then (0, False) else im_Get B m j)
    \<and> im_Len B (im_Delete B m k) = (if snd (im_Get B m k) then im_Len B m - 1 else im_Len B m)
    \<and> im_Get B (im_Clear B m) j = (0, False) \<and> im_Len B (im_Clear B m) = 0"
proof -
  note C = int_map.contract [OF assms(1)]
  note ok = ordered_map.built_wf [OF C assms(2)]
  show ?thesis
    unfolding im_Get_def im_Len_def
    using ordered_map.new_observed [OF C] ordered_map.Len_keys [OF C ok]
      ordered_map.put_observed [OF C ok] ordered_map.del_observed [OF C ok]
      ordered_map.clr_observed [OF C ok] by blast
qed

theorem int_map_operations_witness:
  "im_Len (alist_btree 0) im_example = int (card {j. snd (im_Get (alist_btree 0) im_example j)})
    \<and> im_Set (alist_btree 0) im_example '''' 1 = Inl EmptyKeyString
    \<and> im_Get (alist_btree 0) (im_Delete (alist_btree 0) im_example ''b'') ''b'' = (0, False)"
proof -
  note P = int_map_operations [OF int_map_alist im_example_built]
  show ?thesis using P [of "''b''" "''''" 1] P [of "''b''" "''b''" 1] by simp
qed



text \<open>
  iteration. From \<^verbatim>\<open>SeekFirst\<close> on a non-empty map, \<^verbatim>\<open>Len()\<close> calls of \<^verbatim>\<open>Next\<close> return every pair of
  the map once, with the value \<^verbatim>\<open>Get\<close> returns for its key, in strictly increasing key order.
\<close>

theorem int_map_iteration:
  assumes "int_map B good items rest M" "im_built B M n m" "im_Len B m \<noteq> 0"
  shows "\<exists>it. im_SeekFirst B m = Inr it
    \<and> key_sorted (iterate (im_iter_Next B m) (nat (im_Len B m)) it)
    \<and> set (iterate (im_iter_Next B m) (nat (im_Len B m)) it) = {(k, v). im_Get B m k = (v, True)}"
proof -
  note C = int_map.contract [OF assms(1)]
  note ok = ordered_map.built_wf [OF C assms(2)] and bt = int_map.axioms(1) [OF assms(1)]
  have len: "im_Len B m = int (length (items (im_tree m)))"
    unfolding im_Len_def by (rule btree.Len [OF bt ok])
  from btree.SeekFirst [OF bt ok] assms(3) len obtain e
    where e: "bt_SeekFirst B (im_tree m) = Inr e" "rest (im_tree m) e = items (im_tree m)" by auto
  have "iterate (im_iter_Next B m) (length (items (im_tree m))) \<lparr>im_e = e\<rparr> = map (\<lambda>p. p) (items (im_tree m))"
    by (rule ordered_map.iterate_items [OF C ok, where proj = im_e]) (auto simp: e im_iter_Next_def)
  then show ?thesis
    using e len btree.sorted [OF bt ok] ordered_map.items_observed [OF C ok]
    by (simp add: im_SeekFirst_def im_Get_def)
qed

theorem int_map_iteration_witness:
  "\<exists>it. im_SeekFirst (alist_btree 0) im_example = Inr it
    \<and> key_sorted (iterate (im_iter_Next (alist_btree 0) im_example) 2 it)"
proof -
  have "im_Len (alist_btree 0) im_example = 2"
    by (simp add: im_Len_def im_example_def alist_btree_def)
  then show ?thesis
    using int_map_iteration [OF int_map_alist im_example_built] by (auto simp: numeral_2_eq_2)
qed

end
