(* ===== verification/OrderedStrMap.thy ===== *)
theory OrderedStrMap
  imports OrderedMap_Spec
begin

text \<open>
  \<^verbatim>\<open>script/types/orderedstrmap.go\<close>: a map from non-empty strings to strings in key order. The
  tree package is the parameter \<open>B\<close>, the MessagePack package the parameter \<open>M\<close>.
\<close>

section \<open>Data and operations\<close>

record 't OrderedStrMap =
  sm_estimatedSize :: int64
  sm_tree :: 't

record 'e OrderedStrMapIter = sm_e :: 'e

definition NewOrderedStrMap :: "('t, 'e, string) btree_api \<Rightarrow> 't OrderedStrMap" where
  "NewOrderedStrMap B = \<lparr>sm_estimatedSize = 0, sm_tree = bt_TreeNew B lex_compare\<rparr>"

definition sm_loadFrom ::
  "('t, 'e, string) btree_api \<Rightarrow> msgp_api \<Rightarrow> 't OrderedStrMap \<Rightarrow> bytes
     \<Rightarrow> 't OrderedStrMap \<times> (string + bytes)" where
  "sm_loadFrom B M m b =
     (let initSize = length b in
      case load_tree B M (mp_ReadStringBytes M) (sm_tree m) b of
        (t, Inl err) \<Rightarrow> (m\<lparr>sm_tree := t\<rparr>, Inl err)
      | (t, Inr b) \<Rightarrow>
          (m\<lparr>sm_tree := t, sm_estimatedSize := of_int (int initSize - int (length b))\<rparr>, Inr b))"

definition sm_dumpTo ::
  "('t, 'e, string) btree_api \<Rightarrow> msgp_api \<Rightarrow> 't OrderedStrMap \<Rightarrow> bytes \<Rightarrow> bytes res option" where
  "sm_dumpTo B M m b = dump_tree B M (mp_AppendString M) (sm_tree m) b"

definition sm_Clear :: "('t, 'e, string) btree_api \<Rightarrow> 't OrderedStrMap \<Rightarrow> 't OrderedStrMap" where
  "sm_Clear B m = m\<lparr>sm_tree := bt_Clear B (sm_tree m), sm_estimatedSize := 0\<rparr>"

definition sm_Delete :: "('t, 'e, string) btree_api \<Rightarrow> 't OrderedStrMap \<Rightarrow> string \<Rightarrow> 't OrderedStrMap" where
  "sm_Delete B m k =
     (case bt_Delete B (sm_tree m) k of (t, existed) \<Rightarrow>
        let m = m\<lparr>sm_tree := t\<rparr> in
        if existed then m\<lparr>sm_estimatedSize := sm_estimatedSize m - of_nat (length k)\<rparr> else m)"

definition sm_Get :: "('t, 'e, string) btree_api \<Rightarrow> 't OrderedStrMap \<Rightarrow> string \<Rightarrow> string \<times> bool" where
  "sm_Get B m k = bt_Get B (sm_tree m) k"

definition sm_Len :: "('t, 'e, string) btree_api \<Rightarrow> 't OrderedStrMap \<Rightarrow> int" where
  "sm_Len B m = bt_Len B (sm_tree m)"

definition sm_Set ::
  "('t, 'e, string) btree_api \<Rightarrow> 't OrderedStrMap \<Rightarrow> string \<Rightarrow> string \<Rightarrow> 't OrderedStrMap res" where
  "sm_Set B m k v =
     (if length k = 0 then Inl EmptyKeyString
      else case bt_Put B (sm_tree m) k
             (\<lambda>oldV exists est.
                ((v, True),
                 if exists then est + (of_nat (length v) - of_nat (length oldV))
                 else est + (10 + of_nat (length k) + of_nat (length v))))
             (sm_estimatedSize m) of
        (t, est) \<Rightarrow> Inr (m\<lparr>sm_tree := t, sm_estimatedSize := est\<rparr>))"

definition sm_Seek :: "('t, 'e, string) btree_api \<Rightarrow> 't OrderedStrMap \<Rightarrow> string \<Rightarrow> 'e OrderedStrMapIter \<times> bool" where
  "sm_Seek B m k = (case bt_Seek B (sm_tree m) k of (e, ok) \<Rightarrow> (\<lparr>sm_e = e\<rparr>, ok))"

text \<open>A non-nil error result becomes a JavaScript exception.\<close>

definition sm_SeekFirst :: "('t, 'e, string) btree_api \<Rightarrow> 't OrderedStrMap \<Rightarrow> string + 'e OrderedStrMapIter" where
  "sm_SeekFirst B m = (case bt_SeekFirst B (sm_tree m) of Inl err \<Rightarrow> Inl err | Inr e \<Rightarrow> Inr \<lparr>sm_e = e\<rparr>)"

definition sm_SeekLast :: "('t, 'e, string) btree_api \<Rightarrow> 't OrderedStrMap \<Rightarrow> string + 'e OrderedStrMapIter" where
  "sm_SeekLast B m = (case bt_SeekLast B (sm_tree m) of Inl err \<Rightarrow> Inl err | Inr e \<Rightarrow> Inr \<lparr>sm_e = e\<rparr>)"

text \<open>The enumerator points to the tree of the map \<open>m\<close> it came from.\<close>

definition sm_iter_Next ::
  "('t, 'e, string) btree_api \<Rightarrow> 't OrderedStrMap \<Rightarrow> 'e OrderedStrMapIter
     \<Rightarrow> (string \<times> string) \<times> 'e OrderedStrMapIter" where
  "sm_iter_Next B m iter =
     (case bt_Next B (sm_tree m) (sm_e iter) of
        (None, e) \<Rightarrow> (('''', ''''), \<lparr>sm_e = e\<rparr>)
      | (Some (k, v), e) \<Rightarrow> ((k, v), \<lparr>sm_e = e\<rparr>))"

definition sm_iter_Prev ::
  "('t, 'e, string) btree_api \<Rightarrow> 't OrderedStrMap \<Rightarrow> 'e OrderedStrMapIter
     \<Rightarrow> (string \<times> string) \<times> 'e OrderedStrMapIter" where
  "sm_iter_Prev B m iter =
     (case bt_Prev B (sm_tree m) (sm_e iter) of
        (None, e) \<Rightarrow> (('''', ''''), \<lparr>sm_e = e\<rparr>)
      | (Some (k, v), e) \<Rightarrow> ((k, v), \<lparr>sm_e = e\<rparr>))"

definition sm_iter_Close :: "('t, 'e, string) btree_api \<Rightarrow> 'e OrderedStrMapIter \<Rightarrow> 'e OrderedStrMapIter" where
  "sm_iter_Close B iter = \<lparr>sm_e = bt_Close B (sm_e iter)\<rparr>"

text \<open>The maps a script can build, with the bytes handed over.\<close>

abbreviation sm_built ::
  "('t, 'e, string) btree_api \<Rightarrow> msgp_api \<Rightarrow> nat \<Rightarrow> 't OrderedStrMap \<Rightarrow> bool" where
  "sm_built B M \<equiv>
     built (NewOrderedStrMap B) (sm_Set B) (sm_Delete B) (sm_Clear B) (sm_loadFrom B M) length"

section \<open>The contract over the documented packages\<close>

locale str_map = btree B "[]" wf items rest + msgp M
  for B :: "('t, 'e, string) btree_api" and wf items rest and M :: msgp_api

sublocale str_map \<subseteq> ordered_map B "[]" wf items rest M "\<lambda>v. length v < 2 ^ 32" length
  "mp_AppendString M" "mp_ReadStringBytes M" sm_tree sm_estimatedSize "NewOrderedStrMap B"
  "sm_Set B" "sm_Delete B" "sm_Clear B" "sm_loadFrom B M"
proof unfold_locales
  fix m k show "sm_estimatedSize (sm_Delete B m k) = (if snd (bt_Delete B (sm_tree m) k)
      then sm_estimatedSize m - of_nat (length k) else sm_estimatedSize m)"
    by (simp add: sm_Delete_def Let_def split: prod.split)
next
  fix m k show "sm_tree (sm_Delete B m k) = fst (bt_Delete B (sm_tree m) k)"
    by (simp add: sm_Delete_def Let_def split: prod.split)
next
  show "object_codec (\<lambda>v. length v < 2 ^ 32) length (mp_AppendString M) (mp_ReadStringBytes M)" by (rule String)
qed (auto simp: NewOrderedStrMap_def sm_Set_def sm_Clear_def sm_loadFrom_def Let_def Put split: option.splits)

context str_map
begin

lemma contract: "ordered_map B [] wf items rest M (\<lambda>v. length v < 2 ^ 32) length
    (mp_AppendString M) (mp_ReadStringBytes M) sm_tree sm_estimatedSize (NewOrderedStrMap B)
    (sm_Set B) (sm_Delete B) (sm_Clear B) (sm_loadFrom B M)"
  by (rule ordered_map_axioms)

end

interpretation str_map_alist: str_map "alist_btree []" "\<lambda>t. key_sorted t" "\<lambda>t. t" alist_rest mini_msgp
  unfolding str_map_def by (intro conjI btree_alist msgp_mini)

lemma str_map_alist: "str_map (alist_btree []) (\<lambda>t. key_sorted t) (\<lambda>t. t) alist_rest mini_msgp"
  by (rule str_map_alist.str_map_axioms)

text \<open>A concrete map for the witnesses: two keys written in descending order.\<close>

definition sm_example :: "(string \<times> string) list OrderedStrMap" where
  "sm_example = \<lparr>sm_estimatedSize = 25, sm_tree = [(''a'', ''xx''), (''b'', ''y'')]\<rparr>"

lemma sm_example_built: "sm_built (alist_btree []) mini_msgp 25 sm_example"
proof -
  let ?B = "alist_btree [] :: ((string \<times> string) list, int, string) btree_api"
  let ?m = "\<lparr>sm_estimatedSize = 12, sm_tree = [(''b'', ''y'')]\<rparr> :: (string \<times> string) list OrderedStrMap"
  have "sm_Set ?B (NewOrderedStrMap ?B) ''b'' ''y'' = Inr ?m"
    by (simp add: sm_Set_def NewOrderedStrMap_def alist_btree_def)
  then have "sm_built ?B mini_msgp (0 + 10 + length ''b'' + length ''y'') ?m" by (rule built_set [OF built_new])
  moreover have "sm_Set ?B ?m ''a'' ''xx'' = Inr sm_example"
    by (simp add: sm_Set_def sm_example_def alist_btree_def)
  ultimately have "sm_built ?B mini_msgp ((0 + 10 + length ''b'' + length ''y'') + 10 + length ''a'' + length ''xx'') sm_example"
    by (rule built_set)
  then show ?thesis by simp
qed

section \<open>Properties\<close>

text \<open>
  on every map a script can build, \<^verbatim>\<open>Get\<close>, \<^verbatim>\<open>Len\<close>, \<^verbatim>\<open>Set\<close>, \<^verbatim>\<open>Delete\<close> and \<^verbatim>\<open>Clear\<close> refine a
  finite map: a read after a write sees exactly that write, \<^verbatim>\<open>Len\<close> counts the keys, and \<^verbatim>\<open>Set\<close>
  panics exactly on the empty key.
\<close>

theorem str_map_operations:
  assumes "str_map B good items rest M" "sm_built B M n m"
  shows "sm_Get B (NewOrderedStrMap B) j = ([], False) \<and> sm_Len B (NewOrderedStrMap B) = 0
    \<and> sm_Len B m = int (card {j. snd (sm_Get B m j)})
    \<and> (if k = '''' then sm_Set B m k v = Inl EmptyKeyString
       else \<exists>m'. sm_Set B m k v = Inr m'
         \<and> (\<forall>j. sm_Get B m' j = (if j = k then (v, True) else sm_Get B m j))
         \<and> sm_Len B m' = (if snd (sm_Get B m k) then sm_Len B m else sm_Len B m + 1))
    \<and> sm_Get B (sm_Delete B m k) j = (if j = k then ([], False) else sm_Get B m j)
    \<and> sm_Len B (sm_Delete B m k) = (if snd (sm_Get B m k) then sm_Len B m - 1 else sm_Len B m)
    \<and> sm_Get B (sm_Clear B m) j = ([], False) \<and> sm_Len B (sm_Clear B m) = 0"
proof -
  note C = str_map.contract [OF assms(1)]
  note ok = ordered_map.built_wf [OF C assms(2)]
  show ?thesis
    unfolding sm_Get_def sm_Len_def
    using ordered_map.new_observed [OF C] ordered_map.Len_keys [OF C ok]
      ordered_map.put_observed [OF C ok] ordered_map.del_observed [OF C ok]
      ordered_map.clr_observed [OF C ok] by blast
qed

theorem str_map_operations_witness:
  "sm_Len (alist_btree []) sm_example = int (card {j. snd (sm_Get (alist_btree []) sm_example j)})
    \<and> sm_Set (alist_btree []) sm_example '''' ''z'' = Inl EmptyKeyString
    \<and> sm_Get (alist_btree []) (sm_Delete (alist_btree []) sm_example ''b'') ''b'' = ([], False)"
proof -
  note P = str_map_operations [OF str_map_alist sm_example_built]
  show ?thesis using P [of "''b''" "''''" "''z''"] P [of "''b''" "''b''" "''z''"] by simp
qed

text \<open>
  \<^verbatim>\<open>dumpTo\<close> and \<^verbatim>\<open>loadFrom\<close>. For a map built from less than 4 GiB of input and without the
  empty key, the loop of \<^verbatim>\<open>dumpTo\<close> ends, its bytes are appended to the buffer, and loading them in
  front of any further bytes gives back exactly the map's pairs and leaves those bytes. When the
  empty key is present (\<^verbatim>\<open>Set\<close> refuses it, \<^verbatim>\<open>loadFrom\<close> does not), the dump loses every pair and
  cannot be loaded.
\<close>

theorem str_map_roundtrip:
  assumes "str_map B good items rest M" "sm_built B M n m" "n < 2 ^ 32"
  shows "if sm_Get B m '''' = ([], False)
    then \<exists>d m'. sm_dumpTo B M m b = Some (Inr (b @ d))
      \<and> sm_loadFrom B M (NewOrderedStrMap B) (d @ r) = (m', Inr r)
      \<and> (\<forall>k. sm_Get B m' k = sm_Get B m k)
    else \<exists>d m' err. sm_dumpTo B M m b = Some (Inr (b @ d))
      \<and> sm_loadFrom B M (NewOrderedStrMap B) d = (m', Inl err)"
proof -
  note C = str_map.contract [OF assms(1)]
  note get = btree.Get [OF str_map.axioms(1) [OF assms(1)]]
  have "bt_Get B t k = bt_Get B t' k" if "good t" "good t'" "items t = items t'" for t t' k
    using that by (simp add: get)
  with ordered_map.built_dump_load [OF C assms(2,3), of b r] ordered_map.built_wf [OF C assms(2)]
  show ?thesis unfolding sm_dumpTo_def sm_Get_def by (smt (verit))
qed

theorem str_map_roundtrip_witness:
  "\<exists>d m'. sm_dumpTo (alist_btree []) mini_msgp sm_example [1] = Some (Inr ([1] @ d))
    \<and> sm_loadFrom (alist_btree []) mini_msgp (NewOrderedStrMap (alist_btree [])) (d @ [9]) = (m', Inr [9])
    \<and> sm_Get (alist_btree []) m' ''b'' = (''y'', True)"
proof -
  have "sm_Get (alist_btree []) sm_example '''' = ([], False)" "sm_Get (alist_btree []) sm_example ''b'' = (''y'', True)"
    by (simp_all add: sm_Get_def sm_example_def alist_btree_def)
  then show ?thesis
    using str_map_roundtrip [OF str_map_alist sm_example_built, of "[1]" "[9]"] by fastforce
qed

end
