(* ===== verification/OrderedBufMap.thy ===== *)
theory OrderedBufMap
  imports OrderedMap_Spec
begin

text \<open>
  \<^verbatim>\<open>script/types/orderedbufmap.go\<close>: a map from non-empty strings to byte arrays in key order. The
  tree package is the parameter \<open>B\<close>, the MessagePack package the parameter \<open>M\<close>.
  Values are the bytes at the time of the call; the array an \<^verbatim>\<open>ArrayBuffer\<close> shares with the map (the
  source stores \<^verbatim>\<open>buf.Bytes()\<close> without a copy) is not modelled, so a script that writes into a buffer
  after \<^verbatim>\<open>Set\<close> or into one it got from \<^verbatim>\<open>Get\<close> is outside the model.
\<close>

section \<open>Data and operations\<close>

record 't OrderedBufMap =
  bm_estimatedSize :: int64
  bm_tree :: 't

record 'e OrderedBufMapIter = bm_e :: 'e

definition NewOrderedBufMap :: "('t, 'e, bytes) btree_api \<Rightarrow> 't OrderedBufMap" where
  "NewOrderedBufMap B = \<lparr>bm_estimatedSize = 0, bm_tree = bt_TreeNew B lex_compare\<rparr>"

definition bm_loadFrom ::
  "('t, 'e, bytes) btree_api \<Rightarrow> msgp_api \<Rightarrow> 't OrderedBufMap \<Rightarrow> bytes
     \<Rightarrow> 't OrderedBufMap \<times> (string + bytes)" where
  "bm_loadFrom B M m b =
     (let initSize = length b in
      case load_tree B M (mp_ReadBytesBytes M) (bm_tree m) b of
        (t, Inl err) \<Rightarrow> (m\<lparr>bm_tree := t\<rparr>, Inl err)
      | (t, Inr b) \<Rightarrow>
          (m\<lparr>bm_tree := t, bm_estimatedSize := of_int (int initSize - int (length b))\<rparr>, Inr b))"

definition bm_dumpTo ::
  "('t, 'e, bytes) btree_api \<Rightarrow> msgp_api \<Rightarrow> 't OrderedBufMap \<Rightarrow> bytes \<Rightarrow> bytes res option" where
  "bm_dumpTo B M m b = dump_tree B M (mp_AppendBytes M) (bm_tree m) b"

definition bm_Clear :: "('t, 'e, bytes) btree_api \<Rightarrow> 't OrderedBufMap \<Rightarrow> 't OrderedBufMap" where
  "bm_Clear B m = m\<lparr>bm_tree := bt_Clear B (bm_tree m), bm_estimatedSize := 0\<rparr>"

definition bm_Delete :: "('t, 'e, bytes) btree_api \<Rightarrow> 't OrderedBufMap \<Rightarrow> string \<Rightarrow> 't OrderedBufMap" where
  "bm_Delete B m k =
     (case bt_Delete B (bm_tree m) k of (t, existed) \<Rightarrow>
        let m = m\<lparr>bm_tree := t\<rparr> in
        if existed then m\<lparr>bm_estimatedSize := bm_estimatedSize m - of_nat (length k)\<rparr> else m)"

text \<open>The result is the JavaScript array of an ArrayBuffer and a boolean.\<close>

definition bm_Get ::
  "('t, 'e, bytes) btree_api \<Rightarrow> 't OrderedBufMap \<Rightarrow> 'x jsval list \<Rightarrow> (bytes \<times> bool) res" where
  "bm_Get B m args =
     (if length args \<noteq> 1 then Inl IncorrectArgumentCount
      else case args ! 0 of
        JStr k \<Rightarrow> Inr (bt_Get B (bm_tree m) k)
      | _ \<Rightarrow> Inl (PSymbol ''The first argument must be string''))"

definition bm_Len :: "('t, 'e, bytes) btree_api \<Rightarrow> 't OrderedBufMap \<Rightarrow> int" where
  "bm_Len B m = bt_Len B (bm_tree m)"

definition bm_Set ::
  "('t, 'e, bytes) btree_api \<Rightarrow> 't OrderedBufMap \<Rightarrow> string \<Rightarrow> bytes \<Rightarrow> 't OrderedBufMap res" where
  "bm_Set B m k v =
     (if length k = 0 then Inl EmptyKeyString
      else case bt_Put B (bm_tree m) k
             (\<lambda>oldV exists est.
                ((v, True),
                 if exists then est + (of_nat (length v) - of_nat (length oldV))
                 else est + (10 + of_nat (length k) + of_nat (length v))))
             (bm_estimatedSize m) of
        (t, est) \<Rightarrow> Inr (m\<lparr>bm_tree := t, bm_estimatedSize := est\<rparr>))"

definition bm_Seek :: "('t, 'e, bytes) btree_api \<Rightarrow> 't OrderedBufMap \<Rightarrow> string \<Rightarrow> 'e OrderedBufMapIter \<times> bool" where
  "bm_Seek B m k = (case bt_Seek B (bm_tree m) k of (e, ok) \<Rightarrow> (\<lparr>bm_e = e\<rparr>, ok))"

text \<open>A non-nil error result becomes a JavaScript exception.\<close>

definition bm_SeekFirst :: "('t, 'e, bytes) btree_api \<Rightarrow> 't OrderedBufMap \<Rightarrow> string + 'e OrderedBufMapIter" where
  "bm_SeekFirst B m = (case bt_SeekFirst B (bm_tree m) of Inl err \<Rightarrow> Inl err | Inr e \<Rightarrow> Inr \<lparr>bm_e = e\<rparr>)"

definition bm_SeekLast :: "('t, 'e, bytes) btree_api \<Rightarrow> 't OrderedBufMap \<Rightarrow> string + 'e OrderedBufMapIter" where
  "bm_SeekLast B m = (case bt_SeekLast B (bm_tree m) of Inl err \<Rightarrow> Inl err | Inr e \<Rightarrow> Inr \<lparr>bm_e = e\<rparr>)"

text \<open>The enumerator points to the tree of the map \<open>m\<close> it came from.\<close>

text \<open>
  The result is a JavaScript array of a string and an ArrayBuffer, the latter \<^verbatim>\<open>nil\<close> (\<open>None\<close>) at
  the end. A panic does not move the iterator.
\<close>

definition bm_iter_Next ::
  "('t, 'e, bytes) btree_api \<Rightarrow> 't OrderedBufMap \<Rightarrow> 'x jsval list \<Rightarrow> 'e OrderedBufMapIter
     \<Rightarrow> (string \<times> bytes option) res \<times> 'e OrderedBufMapIter" where
  "bm_iter_Next B m args iter =
     (if length args \<noteq> 0 then (Inl IncorrectArgumentCount, iter)
      else case bt_Next B (bm_tree m) (bm_e iter) of
        (None, e) \<Rightarrow> (Inr ('''', None), \<lparr>bm_e = e\<rparr>)
      | (Some (k, v), e) \<Rightarrow> (Inr (k, Some v), \<lparr>bm_e = e\<rparr>))"

definition bm_iter_Prev ::
  "('t, 'e, bytes) btree_api \<Rightarrow> 't OrderedBufMap \<Rightarrow> 'x jsval list \<Rightarrow> 'e OrderedBufMapIter
     \<Rightarrow> (string \<times> bytes option) res \<times> 'e OrderedBufMapIter" where
  "bm_iter_Prev B m args iter =
     (if length args \<noteq> 0 then (Inl IncorrectArgumentCount, iter)
      else case bt_Prev B (bm_tree m) (bm_e iter) of
        (None, e) \<Rightarrow> (Inr ('''', None), \<lparr>bm_e = e\<rparr>)
      | (Some (k, v), e) \<Rightarrow> (Inr (k, Some v), \<lparr>bm_e = e\<rparr>))"

definition bm_iter_Close :: "('t, 'e, bytes) btree_api \<Rightarrow> 'e OrderedBufMapIter \<Rightarrow> 'e OrderedBufMapIter" where
  "bm_iter_Close B iter = \<lparr>bm_e = bt_Close B (bm_e iter)\<rparr>"

text \<open>The maps a script can build, with the bytes handed over.\<close>

abbreviation bm_built ::
  "('t, 'e, bytes) btree_api \<Rightarrow> msgp_api \<Rightarrow> nat \<Rightarrow> 't OrderedBufMap \<Rightarrow> bool" where
  "bm_built B M \<equiv>
     built (NewOrderedBufMap B) (bm_Set B) (bm_Delete B) (bm_Clear B) (bm_loadFrom B M) length"

section \<open>The contract over the documented packages\<close>

locale buf_map = btree B "[]" wf items rest + msgp M
  for B :: "('t, 'e, bytes) btree_api" and wf items rest and M :: msgp_api

sublocale buf_map \<subseteq> ordered_map B "[]" wf items rest M "\<lambda>v. length v < 2 ^ 32" length
  "mp_AppendBytes M" "mp_ReadBytesBytes M" bm_tree bm_estimatedSize "NewOrderedBufMap B"
  "bm_Set B" "bm_Delete B" "bm_Clear B" "bm_loadFrom B M"
proof unfold_locales
  fix m k show "bm_estimatedSize (bm_Delete B m k) = (if snd (bt_Delete B (bm_tree m) k)
      then bm_estimatedSize m - of_nat (length k) else bm_estimatedSize m)"
    by (simp add: bm_Delete_def Let_def split: prod.split)
next
  fix m k show "bm_tree (bm_Delete B m k) = fst (bt_Delete B (bm_tree m) k)"
    by (simp add: bm_Delete_def Let_def split: prod.split)
next
  show "object_codec (\<lambda>v. length v < 2 ^ 32) length (mp_AppendBytes M) (mp_ReadBytesBytes M)" by (rule Bytes)
qed (auto simp: NewOrderedBufMap_def bm_Set_def bm_Clear_def bm_loadFrom_def Let_def Put split: option.splits)

context buf_map
begin

lemma contract: "ordered_map B [] wf items rest M (\<lambda>v. length v < 2 ^ 32) length
    (mp_AppendBytes M) (mp_ReadBytesBytes M) bm_tree bm_estimatedSize (NewOrderedBufMap B)
    (bm_Set B) (bm_Delete B) (bm_Clear B) (bm_loadFrom B M)"
  by (rule ordered_map_axioms)

end

interpretation buf_map_alist: buf_map "alist_btree []" "\<lambda>t. key_sorted t" "\<lambda>t. t" alist_rest mini_msgp
  unfolding buf_map_def by (intro conjI btree_alist msgp_mini)

lemma buf_map_alist: "buf_map (alist_btree []) (\<lambda>t. key_sorted t) (\<lambda>t. t) alist_rest mini_msgp"
  by (rule buf_map_alist.buf_map_axioms)

text \<open>A concrete map for the witnesses: two keys written in descending order.\<close>

definition bm_example :: "(string \<times> bytes) list OrderedBufMap" where
  "bm_example = \<lparr>bm_estimatedSize = 25, bm_tree = [(''a'', [1, 2]), (''b'', [3])]\<rparr>"

lemma bm_example_built: "bm_built (alist_btree []) mini_msgp 25 bm_example"
proof -
  let ?B = "alist_btree [] :: ((string \<times> bytes) list, int, bytes) btree_api"
  let ?m = "\<lparr>bm_estimatedSize = 12, bm_tree = [(''b'', [3])]\<rparr> :: (string \<times> bytes) list OrderedBufMap"
  have "bm_Set ?B (NewOrderedBufMap ?B) ''b'' [3] = Inr ?m"
    by (simp add: bm_Set_def NewOrderedBufMap_def alist_btree_def)
  then have "bm_built ?B mini_msgp (0 + 10 + length ''b'' + length [3 :: byte]) ?m" by (rule built_set [OF built_new])
  moreover have "bm_Set ?B ?m ''a'' [1, 2] = Inr bm_example"
    by (simp add: bm_Set_def bm_example_def alist_btree_def)
  ultimately have "bm_built ?B mini_msgp ((0 + 10 + length ''b'' + length [3 :: byte]) + 10 + length ''a'' + length [1 :: byte, 2]) bm_example"
    by (rule built_set)
  then show ?thesis by simp
qed

section \<open>Properties\<close>

text \<open>
  on every map a script can build, \<^verbatim>\<open>Set\<close>, \<^verbatim>\<open>Delete\<close>, \<^verbatim>\<open>Clear\<close> and \<^verbatim>\<open>Len\<close> refine a finite map as
  read by \<^verbatim>\<open>Get\<close>, and \<^verbatim>\<open>Get\<close> itself checks its arguments: exactly one, a string.
\<close>

theorem buf_map_operations:
  fixes args :: "'x jsval list"
  assumes "buf_map B good items rest M" "bm_built B M n m"
  shows "(length args \<noteq> 1 \<longrightarrow> bm_Get B m args = Inl IncorrectArgumentCount)
    \<and> (\<forall>a. bm_Get B m [a] = Inl (PSymbol ''The first argument must be string'')
          \<longleftrightarrow> (\<forall>s. a \<noteq> (JStr s :: 'x jsval)))
    \<and> bm_Get B (NewOrderedBufMap B) [JStr j :: 'x jsval] = Inr ([], False)
    \<and> bm_Len B m = int (card {j. \<exists>v. bm_Get B m [JStr j :: 'x jsval] = Inr (v, True)})
    \<and> (if k = '''' then bm_Set B m k v = Inl EmptyKeyString
       else \<exists>m'. bm_Set B m k v = Inr m'
         \<and> (\<forall>j. bm_Get B m' [JStr j :: 'x jsval]
               = (if j = k then Inr (v, True) else bm_Get B m [JStr j :: 'x jsval])))
    \<and> bm_Get B (bm_Delete B m k) [JStr j :: 'x jsval]
        = (if j = k then Inr ([], False) else bm_Get B m [JStr j :: 'x jsval])
    \<and> bm_Get B (bm_Clear B m) [JStr j :: 'x jsval] = Inr ([], False)"
proof -
  note C = buf_map.contract [OF assms(1)]
  note ok = ordered_map.built_wf [OF C assms(2)]
  have G: "bm_Get B m [JStr j :: 'x jsval] = Inr (bt_Get B (bm_tree m) j)" for m j
    by (simp add: bm_Get_def)
  have N: "bm_Get B m [a] = Inl (PSymbol ''The first argument must be string'')
      \<longleftrightarrow> (\<forall>s. a \<noteq> JStr s)" for a :: "'x jsval"
    by (cases a) (simp_all add: bm_Get_def)
  have "{j. \<exists>v. bt_Get B (bm_tree m) j = (v, True)} = {j. snd (bt_Get B (bm_tree m) j)}"
    by (auto simp: prod_eq_iff)
  then have L: "bm_Len B m = int (card {j. \<exists>v. bt_Get B (bm_tree m) j = (v, True)})"
    unfolding bm_Len_def using ordered_map.Len_keys [OF C ok] by simp
  show ?thesis
    unfolding G N
    using L ordered_map.new_observed [OF C, of j] ordered_map.put_observed [OF C ok, of k v]
      ordered_map.del_observed [OF C ok, of k j] ordered_map.clr_observed [OF C ok, of j]
    by (auto simp: bm_Get_def)
qed

theorem buf_map_operations_witness:
  "bm_Get (alist_btree []) bm_example [JInt 1, JInt 2 :: unit jsval] = Inl IncorrectArgumentCount
    \<and> bm_Set (alist_btree []) bm_example '''' [9] = Inl EmptyKeyString
    \<and> bm_Get (alist_btree []) (bm_Delete (alist_btree []) bm_example ''b'') [JStr ''b'' :: unit jsval]
        = Inr ([], False)"
proof -
  note P = buf_map_operations [OF buf_map_alist bm_example_built, of "[JInt 1, JInt 2 :: unit jsval]" "''b''"]
  show ?thesis using P [of "''''" "[9]"] P [of "''b''" "[9]"] by simp
qed

text \<open>
  \<^verbatim>\<open>dumpTo\<close> and \<^verbatim>\<open>loadFrom\<close>. For a map built from less than 4 GiB of input and without the
  empty key, the loop of \<^verbatim>\<open>dumpTo\<close> ends, its bytes are appended to the buffer, and loading them in
  front of any further bytes gives back exactly the map's pairs and leaves those bytes. When the
  empty key is present (\<^verbatim>\<open>Set\<close> refuses it, \<^verbatim>\<open>loadFrom\<close> does not), the dump loses every pair and
  cannot be loaded.
\<close>

theorem buf_map_roundtrip:
  assumes "buf_map B good items rest M" "bm_built B M n m" "n < 2 ^ 32"
  shows "if bm_Get B m [JStr '''' :: 'x jsval] = Inr ([], False)
    then \<exists>d m'. bm_dumpTo B M m b = Some (Inr (b @ d))
      \<and> bm_loadFrom B M (NewOrderedBufMap B) (d @ r) = (m', Inr r)
      \<and> (\<forall>k. bm_Get B m' [JStr k :: 'x jsval] = bm_Get B m [JStr k :: 'x jsval])
    else \<exists>d m' err. bm_dumpTo B M m b = Some (Inr (b @ d))
      \<and> bm_loadFrom B M (NewOrderedBufMap B) d = (m', Inl err)"
proof -
  note C = buf_map.contract [OF assms(1)]
  note get = btree.Get [OF buf_map.axioms(1) [OF assms(1)]]
  have G: "bm_Get B m [JStr j :: 'x jsval] = Inr (bt_Get B (bm_tree m) j)" for m j
    by (simp add: bm_Get_def)
  have "bt_Get B t k = bt_Get B t' k" if "good t" "good t'" "items t = items t'" for t t' k
    using that by (simp add: get)
  with ordered_map.built_dump_load [OF C assms(2,3), of b r] ordered_map.built_wf [OF C assms(2)]
  show ?thesis unfolding bm_dumpTo_def G sum.inject by (smt (verit))
qed

theorem buf_map_roundtrip_witness:
  "\<exists>d m'. bm_dumpTo (alist_btree []) mini_msgp bm_example [1] = Some (Inr ([1] @ d))
    \<and> bm_loadFrom (alist_btree []) mini_msgp (NewOrderedBufMap (alist_btree [])) (d @ [9]) = (m', Inr [9])
    \<and> bm_Get (alist_btree []) m' [JStr ''b'' :: unit jsval] = Inr ([3], True)"
proof -
  have "bm_Get (alist_btree []) bm_example [JStr '''' :: unit jsval] = Inr ([], False)"
    "bm_Get (alist_btree []) bm_example [JStr ''b'' :: unit jsval] = Inr ([3], True)"
    by (simp_all add: bm_Get_def bm_example_def alist_btree_def)
  then show ?thesis
    using buf_map_roundtrip [OF buf_map_alist bm_example_built, where 'x = unit, of "[1]" "[9]"] by fastforce
qed

end
