(* ===== verification/MapCodec.thy ===== *)
theory MapCodec
  imports OrderedIntMap OrderedStrMap OrderedBufMap
begin

text \<open>
  \<^verbatim>\<open>script/types/mapcodec.go\<close>: several ordered maps written into one ArrayBuffer, each behind a tag
  byte, and the two ways to read them back (\<^verbatim>\<open>DeserializeMap\<close>, \<^verbatim>\<open>OrderedMapReader\<close>). \<open>BI\<close>, \<open>BS\<close> and \<open>BB\<close> are
  the tree package at the three value types.
\<close>

section \<open>Tags and values\<close>

definition OrderedIntMapTag :: byte where "OrderedIntMapTag = 0"
definition OrderedStrMapTag :: byte where "OrderedStrMapTag = 1"
definition OrderedBufMapTag :: byte where "OrderedBufMapTag = 2"

lemmas tag_defs = OrderedIntMapTag_def OrderedStrMapTag_def OrderedBufMapTag_def

text \<open>The Go values a script can hold that the codec knows.\<close>

datatype ('ti, 'ts, 'tb) script_map =
  MInt "'ti OrderedIntMap" | MStr "'ts OrderedStrMap" | MBuf "'tb OrderedBufMap"

text \<open>\<^verbatim>\<open>make([]byte, 0, n)\<close> panics on a negative \<open>n\<close> and above the address space of the run time.\<close>

definition go_maxAlloc :: int where "go_maxAlloc = 2 ^ 48"

definition make_cap :: "int64 \<Rightarrow> bytes res" where
  "make_cap n = (if sint n < 0 \<or> go_maxAlloc < sint n then Inl PMakeLen else Inr [])"

section \<open>SerializeMaps\<close>

primrec map_size :: "('ti, 'ts, 'tb) script_map \<Rightarrow> int64" where
  "map_size (MInt m) = im_estimatedSize m"
| "map_size (MStr m) = sm_estimatedSize m"
| "map_size (MBuf m) = bm_estimatedSize m"

primrec total_size :: "('ti, 'ts, 'tb) script_map jsval list \<Rightarrow> int64 \<Rightarrow> int64 res" where
  "total_size [] totalSize = Inr totalSize"
| "total_size (arg # args) totalSize =
     (case arg of
        JGo m \<Rightarrow> total_size args (totalSize + (2 + map_size m))
      | _ \<Rightarrow> Inl (PValue ''Unsupported type for EncodeMaps''))"

fun dump_map ::
  "('ti, 'ei, int64) btree_api \<Rightarrow> ('ts, 'es, string) btree_api \<Rightarrow> ('tb, 'eb, bytes) btree_api \<Rightarrow> msgp_api
     \<Rightarrow> ('ti, 'ts, 'tb) script_map \<Rightarrow> bytes \<Rightarrow> bytes res option" where
  "dump_map BI BS BB M (MInt m) b = im_dumpTo BI M m (mp_AppendByte M b OrderedIntMapTag)"
| "dump_map BI BS BB M (MStr m) b = sm_dumpTo BS M m (mp_AppendByte M b OrderedStrMapTag)"
| "dump_map BI BS BB M (MBuf m) b = bm_dumpTo BB M m (mp_AppendByte M b OrderedBufMapTag)"

text \<open>The second loop; its switch has no default branch. \<open>None\<close>: a dump does not end.\<close>

primrec dump_maps ::
  "('ti, 'ei, int64) btree_api \<Rightarrow> ('ts, 'es, string) btree_api \<Rightarrow> ('tb, 'eb, bytes) btree_api \<Rightarrow> msgp_api
     \<Rightarrow> ('ti, 'ts, 'tb) script_map jsval list \<Rightarrow> bytes \<Rightarrow> bytes res option" where
  "dump_maps BI BS BB M [] b = Some (Inr b)"
| "dump_maps BI BS BB M (arg # args) b =
     (case arg of
        JGo m \<Rightarrow>
          (case dump_map BI BS BB M m b of
             None \<Rightarrow> None
           | Some (Inl p) \<Rightarrow> Some (Inl p)
           | Some (Inr b) \<Rightarrow> dump_maps BI BS BB M args b)
      | _ \<Rightarrow> dump_maps BI BS BB M args b)"

definition SerializeMaps ::
  "('ti, 'ei, int64) btree_api \<Rightarrow> ('ts, 'es, string) btree_api \<Rightarrow> ('tb, 'eb, bytes) btree_api \<Rightarrow> msgp_api
     \<Rightarrow> ('ti, 'ts, 'tb) script_map jsval list \<Rightarrow> bytes res option" where
  "SerializeMaps BI BS BB M args =
     (case bind_res (total_size args 0) make_cap of
        Inl p \<Rightarrow> Some (Inl p)
      | Inr b \<Rightarrow> dump_maps BI BS BB M args b)"

section \<open>Reading\<close>

text \<open>
  The chain on the tag that both readers contain, with the error check after it; tags above
  \<^verbatim>\<open>OrderedBufMapTag\<close> were rejected before.
\<close>

definition load_by_tag ::
  "('ti, 'ei, int64) btree_api \<Rightarrow> ('ts, 'es, string) btree_api \<Rightarrow> ('tb, 'eb, bytes) btree_api \<Rightarrow> msgp_api
     \<Rightarrow> byte \<Rightarrow> bytes \<Rightarrow> (('ti, 'ts, 'tb) script_map \<times> bytes) res" where
  "load_by_tag BI BS BB M tag b =
     (case (if tag = OrderedIntMapTag then map_prod MInt id (im_loadFrom BI M (NewOrderedIntMap BI) b)
            else if tag = OrderedStrMapTag then map_prod MStr id (sm_loadFrom BS M (NewOrderedStrMap BS) b)
            else map_prod MBuf id (bm_loadFrom BB M (NewOrderedBufMap BB) b)) of
        (mv, Inl err) \<Rightarrow> Inl (PSymbol ''Error in loading map'')
      | (mv, Inr b) \<Rightarrow> Inr (mv, b))"

text \<open>
  The tag test of both readers: \<^verbatim>\<open>if err != nil || tag > OrderedBufMapTag { panic(... + err.Error()) }\<close>.
  With a nil \<^verbatim>\<open>err\<close> the method call dereferences nil.
\<close>

definition read_tag :: "msgp_api \<Rightarrow> string \<Rightarrow> bytes \<Rightarrow> (byte \<times> bytes) res" where
  "read_tag M msg b =
     (case mp_ReadByteBytes M b of
        Inl err \<Rightarrow> Inl (PSymbol (msg @ err))
      | Inr (tag, b) \<Rightarrow> if OrderedBufMapTag < tag then Inl PNilDeref else Inr (tag, b))"

definition DeserializeMap ::
  "('ti, 'ei, int64) btree_api \<Rightarrow> ('ts, 'es, string) btree_api \<Rightarrow> ('tb, 'eb, bytes) btree_api \<Rightarrow> msgp_api
     \<Rightarrow> 'x jsval list \<Rightarrow> (('ti, 'ts, 'tb) script_map \<times> bytes) res" where
  "DeserializeMap BI BS BB M args =
     (if length args \<noteq> 2 then Inl IncorrectArgumentCount
      else case args ! 0 of
        JBuf b \<Rightarrow>
          if length b = 0 then Inl (PSymbol ''Empty map bytes'')
          else (case args ! 1 of
             JInt expectedTag \<Rightarrow>
               if sint expectedTag < 0 \<or> sint expectedTag > uint OrderedBufMapTag
               then Inl (PSymbol ''Invalid map tag'')
               else bind_res (read_tag M ''Tag byte error in DeserializeMaps '' b) (\<lambda>(tag, b).
                 if tag \<noteq> ucast expectedTag then Inl (PSymbol ''Tag byte is not equal to inputted type'')
                 else load_by_tag BI BS BB M tag b)
           | _ \<Rightarrow> Inl (PSymbol ''The second argument must be uint8''))
      | _ \<Rightarrow> Inl (PSymbol ''The first argument must be ArrayBuffer''))"

record OrderedMapReader = omr_bz :: bytes

definition NewOrderedMapReader :: "'x jsval list \<Rightarrow> OrderedMapReader res" where
  "NewOrderedMapReader args =
     (if length args \<noteq> 1 then Inl IncorrectArgumentCount
      else case args ! 0 of
        JBuf b \<Rightarrow> if length b = 0 then Inl (PSymbol ''Empty map bytes'') else Inr \<lparr>omr_bz = b\<rparr>
      | _ \<Rightarrow> Inl (PSymbol ''The first argument must be ArrayBuffer''))"

definition omr_Read ::
  "('ti, 'ei, int64) btree_api \<Rightarrow> ('ts, 'es, string) btree_api \<Rightarrow> ('tb, 'eb, bytes) btree_api \<Rightarrow> msgp_api
     \<Rightarrow> OrderedMapReader \<Rightarrow> 'x jsval list \<Rightarrow> ('ti, 'ts, 'tb) script_map res \<times> OrderedMapReader" where
  "omr_Read BI BS BB M r args =
     (if length args \<noteq> 1 then (Inl IncorrectArgumentCount, r)
      else case args ! 0 of
        JInt expectedTag \<Rightarrow>
          if sint expectedTag < 0 \<or> sint expectedTag > uint OrderedBufMapTag
          then (Inl (PSymbol ''Invalid map tag''), r)
          else (case bind_res (read_tag M ''Tag byte error in OrderedMapReader.Read '' (omr_bz r)) (\<lambda>(tag, b).
                 if tag \<noteq> ucast expectedTag then Inl (PSymbol ''Tag byte is not equal to inputted type'')
                 else load_by_tag BI BS BB M tag b) of
             Inl p \<Rightarrow> (Inl p, r)
           | Inr (mv, b) \<Rightarrow> (Inr mv, r\<lparr>omr_bz := b\<rparr>))
      | _ \<Rightarrow> (Inl (PSymbol ''The first argument must be uint8''), r))"

definition omr_Reset :: "OrderedMapReader \<Rightarrow> OrderedMapReader" where
  "omr_Reset r = r\<lparr>omr_bz := take 0 (omr_bz r)\<rparr>"

text \<open>A script that reads one map per expected tag and stops at the first exception.\<close>

primrec read_maps ::
  "('ti, 'ei, int64) btree_api \<Rightarrow> ('ts, 'es, string) btree_api \<Rightarrow> ('tb, 'eb, bytes) btree_api \<Rightarrow> msgp_api
     \<Rightarrow> OrderedMapReader \<Rightarrow> int64 list \<Rightarrow> ('ti, 'ts, 'tb) script_map list res \<times> OrderedMapReader" where
  "read_maps BI BS BB M r [] = (Inr [], r)"
| "read_maps BI BS BB M r (t # ts) =
     (case omr_Read BI BS BB M r [JInt t :: unit jsval] of
        (Inl p, r) \<Rightarrow> (Inl p, r)
      | (Inr m, r) \<Rightarrow>
          (case read_maps BI BS BB M r ts of
             (Inl p, r) \<Rightarrow> (Inl p, r)
           | (Inr ms, r) \<Rightarrow> (Inr (m # ms), r)))"

section \<open>What is serialized is read back\<close>

primrec map_tag :: "('ti, 'ts, 'tb) script_map \<Rightarrow> int64" where
  "map_tag (MInt m) = 0"
| "map_tag (MStr m) = 1"
| "map_tag (MBuf m) = 2"

text \<open>A map built from at most \<open>n\<close> bytes, without the empty key.\<close>

fun map_built ::
  "('ti, 'ei, int64) btree_api \<Rightarrow> ('ts, 'es, string) btree_api \<Rightarrow> ('tb, 'eb, bytes) btree_api \<Rightarrow> msgp_api
     \<Rightarrow> nat \<Rightarrow> ('ti, 'ts, 'tb) script_map \<Rightarrow> bool" where
  "map_built BI BS BB M n (MInt m) \<longleftrightarrow>
     (\<exists>k \<le> n. im_built BI M k m) \<and> im_Get BI m '''' = (0, False)"
| "map_built BI BS BB M n (MStr m) \<longleftrightarrow>
     (\<exists>k \<le> n. sm_built BS M k m) \<and> sm_Get BS m '''' = ('''', False)"
| "map_built BI BS BB M n (MBuf m) \<longleftrightarrow>
     (\<exists>k \<le> n. bm_built BB M k m) \<and> bm_Get BB m [JStr '''' :: unit jsval] = Inr ([], False)"

text \<open>Two maps of one kind with the same content.\<close>

fun map_agree ::
  "('ti, 'ei, int64) btree_api \<Rightarrow> ('ts, 'es, string) btree_api \<Rightarrow> ('tb, 'eb, bytes) btree_api
     \<Rightarrow> ('ti, 'ts, 'tb) script_map \<Rightarrow> ('ti, 'ts, 'tb) script_map \<Rightarrow> bool" where
  "map_agree BI BS BB (MInt a) (MInt b) \<longleftrightarrow> (\<forall>k. im_Get BI b k = im_Get BI a k)"
| "map_agree BI BS BB (MStr a) (MStr b) \<longleftrightarrow> (\<forall>k. sm_Get BS b k = sm_Get BS a k)"
| "map_agree BI BS BB (MBuf a) (MBuf b) \<longleftrightarrow>
     (\<forall>k. bm_Get BB b [JStr k :: unit jsval] = bm_Get BB a [JStr k :: unit jsval])"
| "map_agree BI BS BB _ _ \<longleftrightarrow> False"

text \<open>The three contracts over one MessagePack package.\<close>

locale map_codec =
  i: int_map BI wi ii ri M + s: str_map BS ws its rs M + b: buf_map BB wb ib rb M
  for BI :: "('ti, 'ei, int64) btree_api" and wi ii ri
    and BS :: "('ts, 'es, string) btree_api" and ws its rs
    and BB :: "('tb, 'eb, bytes) btree_api" and wb ib rb
    and M :: msgp_api
begin

lemma append_tag: "mp_AppendByte M b t = b @ mp_AppendByte M [] t"
  by (rule object_codec_append [OF i.Byte])

lemma read_tag_append: "t \<le> 2 \<Longrightarrow> read_tag M msg (mp_AppendByte M [] t @ b) = Inr (t, b)"
  using object_codec_read [OF i.Byte, of t b] by (simp add: read_tag_def tag_defs not_less)

lemma map_encoding:
  assumes "map_built BI BS BB M n m" "n < 2 ^ 32"
  shows "\<exists>d. (\<forall>b. dump_map BI BS BB M m b = Some (Inr (b @ d)))
    \<and> (\<forall>r. \<exists>m'. omr_Read BI BS BB M \<lparr>omr_bz = d @ r\<rparr> [JInt (map_tag m) :: unit jsval]
          = (Inr m', \<lparr>omr_bz = r\<rparr>) \<and> map_agree BI BS BB m m')"
proof (cases m)
  case (MInt x)
  with assms obtain k where "im_built BI M k x" "k < 2 ^ 32" "bt_Get BI (im_tree x) '''' = (0, False)"
    by (auto simp: im_Get_def)
  from ordered_map.built_encoding [OF i.contract this] obtain d where
    "\<forall>b. dump_tree BI M (mp_AppendInt64 M) (im_tree x) b = Some (Inr (b @ d))"
    "\<forall>r. \<exists>m'. im_loadFrom BI M (NewOrderedIntMap BI) (d @ r) = (m', Inr r)
      \<and> (\<forall>k. bt_Get BI (im_tree m') k = bt_Get BI (im_tree x) k)" by blast
  note d = this
  let ?d = "mp_AppendByte M [] OrderedIntMapTag @ d"
  have "dump_map BI BS BB M m b = Some (Inr (b @ ?d))" for b
    using d(1) append_tag [of b OrderedIntMapTag] by (simp add: MInt im_dumpTo_def)
  moreover have "\<exists>m'. omr_Read BI BS BB M \<lparr>omr_bz = ?d @ r\<rparr> [JInt (map_tag m) :: unit jsval]
      = (Inr m', \<lparr>omr_bz = r\<rparr>) \<and> map_agree BI BS BB m m'" for r
  proof -
    from d(2) obtain m' where "im_loadFrom BI M (NewOrderedIntMap BI) (d @ r) = (m', Inr r)"
      "\<forall>k. bt_Get BI (im_tree m') k = bt_Get BI (im_tree x) k" by blast
    then show ?thesis
      by (intro exI [of _ "MInt m'"])
        (simp add: MInt omr_Read_def read_tag_append tag_defs load_by_tag_def im_Get_def)
  qed
  ultimately show ?thesis by blast
next
  case (MStr x)
  with assms obtain k where "sm_built BS M k x" "k < 2 ^ 32" "bt_Get BS (sm_tree x) '''' = ([], False)"
    by (auto simp: sm_Get_def)
  from ordered_map.built_encoding [OF s.contract this] obtain d where
    "\<forall>b. dump_tree BS M (mp_AppendString M) (sm_tree x) b = Some (Inr (b @ d))"
    "\<forall>r. \<exists>m'. sm_loadFrom BS M (NewOrderedStrMap BS) (d @ r) = (m', Inr r)
      \<and> (\<forall>k. bt_Get BS (sm_tree m') k = bt_Get BS (sm_tree x) k)" by blast
  note d = this
  let ?d = "mp_AppendByte M [] OrderedStrMapTag @ d"
  have "dump_map BI BS BB M m b = Some (Inr (b @ ?d))" for b
    using d(1) append_tag [of b OrderedStrMapTag] by (simp add: MStr sm_dumpTo_def)
  moreover have "\<exists>m'. omr_Read BI BS BB M \<lparr>omr_bz = ?d @ r\<rparr> [JInt (map_tag m) :: unit jsval]
      = (Inr m', \<lparr>omr_bz = r\<rparr>) \<and> map_agree BI BS BB m m'" for r
  proof -
    from d(2) obtain m' where "sm_loadFrom BS M (NewOrderedStrMap BS) (d @ r) = (m', Inr r)"
      "\<forall>k. bt_Get BS (sm_tree m') k = bt_Get BS (sm_tree x) k" by blast
    then show ?thesis
      by (intro exI [of _ "MStr m'"])
        (simp add: MStr omr_Read_def read_tag_append tag_defs load_by_tag_def sm_Get_def)
  qed
  ultimately show ?thesis by blast
next
  case (MBuf x)
  with assms obtain k where "bm_built BB M k x" "k < 2 ^ 32" "bt_Get BB (bm_tree x) '''' = ([], False)"
    by (auto simp: bm_Get_def)
  from ordered_map.built_encoding [OF b.contract this] obtain d where
    "\<forall>b. dump_tree BB M (mp_AppendBytes M) (bm_tree x) b = Some (Inr (b @ d))"
    "\<forall>r. \<exists>m'. bm_loadFrom BB M (NewOrderedBufMap BB) (d @ r) = (m', Inr r)
      \<and> (\<forall>k. bt_Get BB (bm_tree m') k = bt_Get BB (bm_tree x) k)" by blast
  note d = this
  let ?d = "mp_AppendByte M [] OrderedBufMapTag @ d"
  have "dump_map BI BS BB M m b = Some (Inr (b @ ?d))" for b
    using d(1) append_tag [of b OrderedBufMapTag] by (simp add: MBuf bm_dumpTo_def)
  moreover have "\<exists>m'. omr_Read BI BS BB M \<lparr>omr_bz = ?d @ r\<rparr> [JInt (map_tag m) :: unit jsval]
      = (Inr m', \<lparr>omr_bz = r\<rparr>) \<and> map_agree BI BS BB m m'" for r
  proof -
    from d(2) obtain m' where "bm_loadFrom BB M (NewOrderedBufMap BB) (d @ r) = (m', Inr r)"
      "\<forall>k. bt_Get BB (bm_tree m') k = bt_Get BB (bm_tree x) k" by blast
    then show ?thesis
      by (intro exI [of _ "MBuf m'"])
        (simp add: MBuf omr_Read_def read_tag_append tag_defs load_by_tag_def bm_Get_def)
  qed
  ultimately show ?thesis by blast
qed

lemma map_size_bound:
  assumes "map_built BI BS BB M n m" "n < 2 ^ 32"
  shows "0 \<le> sint (map_size m) \<and> sint (map_size m) \<le> int n"
proof -
  have "\<exists>k \<le> n. 0 \<le> sint (map_size m) \<and> sint (map_size m) \<le> int k"
  proof (cases m)
    case (MInt x)
    with assms obtain k where "im_built BI M k x" "k \<le> n" "k < 2 ^ 63" by fastforce
    with ordered_map.built_est [OF i.contract this(1,3)] MInt show ?thesis by auto
  next
    case (MStr x)
    with assms obtain k where "sm_built BS M k x" "k \<le> n" "k < 2 ^ 63" by fastforce
    with ordered_map.built_est [OF s.contract this(1,3)] MStr show ?thesis by auto
  next
    case (MBuf x)
    with assms obtain k where "bm_built BB M k x" "k \<le> n" "k < 2 ^ 63" by fastforce
    with ordered_map.built_est [OF b.contract this(1,3)] MBuf show ?thesis by auto
  qed
  then show ?thesis by fastforce
qed

lemma total_size_bound:
  assumes "\<forall>m \<in> set ms. map_built BI BS BB M n m" "n < 2 ^ 32"
    and "0 \<le> sint z" "sint z + int (length ms) * (int n + 2) \<le> 2 ^ 48"
  shows "\<exists>w. total_size (map JGo ms) z = Inr w \<and> 0 \<le> sint w \<and> sint w \<le> 2 ^ 48"
  using assms(1,3,4)
proof (induction ms arbitrary: z)
  case (Cons m ms)
  have m: "0 \<le> sint (map_size m)" "sint (map_size m) \<le> int n"
    using map_size_bound [of n m] Cons.prems(1) assms(2) by auto
  have e: "sint z + int (length (m # ms)) * (int n + 2) = sint z + (int n + 2) + int (length ms) * (int n + 2)"
    by (simp add: algebra_simps)
  have pos: "0 \<le> int (length ms) * (int n + 2)" by simp
  have "sint (z + of_int (2 + sint (map_size m))) = sint z + (2 + sint (map_size m))"
  proof -
    have "sint z + (2 + sint (map_size m)) \<le> 2 ^ 48" using m e pos Cons.prems(3) by linarith
    with m Cons.prems(2) show ?thesis by (intro sint_add_int64) simp_all
  qed
  then have z: "sint (z + (2 + map_size m)) = sint z + (2 + sint (map_size m))" by simp
  then have "sint (z + (2 + map_size m)) + int (length ms) * (int n + 2) \<le> 2 ^ 48"
    using Cons.prems(3) m e by linarith
  with Cons.IH [of "z + (2 + map_size m)"] Cons.prems(1,2) z m show ?case by simp
qed simp

lemma dump_read_maps:
  assumes "\<forall>m \<in> set ms. map_built BI BS BB M n m" "n < 2 ^ 32"
  shows "\<exists>d. (\<forall>b. dump_maps BI BS BB M (map JGo ms) b = Some (Inr (b @ d)))
    \<and> (\<forall>r. \<exists>ms'. read_maps BI BS BB M \<lparr>omr_bz = d @ r\<rparr> (map map_tag ms) = (Inr ms', \<lparr>omr_bz = r\<rparr>)
        \<and> list_all2 (map_agree BI BS BB) ms ms')"
  using assms(1)
proof (induction ms)
  case (Cons m ms)
  from map_encoding [of n m] Cons.prems assms(2) obtain d1 where
    d1: "\<forall>b. dump_map BI BS BB M m b = Some (Inr (b @ d1))"
      "\<forall>r. \<exists>m'. omr_Read BI BS BB M \<lparr>omr_bz = d1 @ r\<rparr> [JInt (map_tag m) :: unit jsval]
          = (Inr m', \<lparr>omr_bz = r\<rparr>) \<and> map_agree BI BS BB m m'" by auto
  from Cons obtain d2 where
    d2: "\<forall>b. dump_maps BI BS BB M (map JGo ms) b = Some (Inr (b @ d2))"
      "\<forall>r. \<exists>ms'. read_maps BI BS BB M \<lparr>omr_bz = d2 @ r\<rparr> (map map_tag ms) = (Inr ms', \<lparr>omr_bz = r\<rparr>)
        \<and> list_all2 (map_agree BI BS BB) ms ms'" by auto
  have "\<exists>ms'. read_maps BI BS BB M \<lparr>omr_bz = (d1 @ d2) @ r\<rparr> (map map_tag (m # ms)) = (Inr ms', \<lparr>omr_bz = r\<rparr>)
        \<and> list_all2 (map_agree BI BS BB) (m # ms) ms'" for r
  proof -
    from d1(2) obtain m' where "omr_Read BI BS BB M \<lparr>omr_bz = d1 @ d2 @ r\<rparr> [JInt (map_tag m) :: unit jsval]
          = (Inr m', \<lparr>omr_bz = d2 @ r\<rparr>)" "map_agree BI BS BB m m'" by blast
    moreover from d2(2) obtain ms' where
      "read_maps BI BS BB M \<lparr>omr_bz = d2 @ r\<rparr> (map map_tag ms) = (Inr ms', \<lparr>omr_bz = r\<rparr>)"
      "list_all2 (map_agree BI BS BB) ms ms'" by blast
    ultimately show ?thesis by simp
  qed
  moreover have "dump_maps BI BS BB M (map JGo (m # ms)) b = Some (Inr (b @ (d1 @ d2)))" for b
    using d1(1) d2(1) by simp
  ultimately show ?case by blast
qed simp

lemma serialize_read:
  assumes "\<forall>m \<in> set ms. map_built BI BS BB M n m" "n < 2 ^ 32"
    and "int (length ms) * (int n + 2) \<le> 2 ^ 48"
  shows "\<exists>d. SerializeMaps BI BS BB M (map JGo ms) = Some (Inr d)
    \<and> (\<exists>ms'. read_maps BI BS BB M \<lparr>omr_bz = d @ r\<rparr> (map map_tag ms) = (Inr ms', \<lparr>omr_bz = r\<rparr>)
        \<and> list_all2 (map_agree BI BS BB) ms ms')"
proof -
  from total_size_bound [OF assms(1,2), of 0] assms(3) obtain w
    where "total_size (map JGo ms) 0 = Inr w" "0 \<le> sint w" "sint w \<le> 2 ^ 48" by auto
  then have "bind_res (total_size (map JGo ms) 0) make_cap = Inr []"
    by (simp add: make_cap_def go_maxAlloc_def)
  with dump_read_maps [OF assms(1,2)] show ?thesis by (fastforce simp: SerializeMaps_def)
qed

end

interpretation codec: map_codec "alist_btree 0" "\<lambda>t. key_sorted t" "\<lambda>t. t" alist_rest
  "alist_btree []" "\<lambda>t. key_sorted t" "\<lambda>t. t" alist_rest
  "alist_btree []" "\<lambda>t. key_sorted t" "\<lambda>t. t" alist_rest mini_msgp
  unfolding map_codec_def by (intro conjI int_map_alist str_map_alist buf_map_alist)

lemma map_codec_alist:
  "map_codec (alist_btree 0) (\<lambda>t. key_sorted t) (\<lambda>t. t) alist_rest
    (alist_btree []) (\<lambda>t. key_sorted t) (\<lambda>t. t) alist_rest
    (alist_btree []) (\<lambda>t. key_sorted t) (\<lambda>t. t) alist_rest mini_msgp"
  by (rule codec.map_codec_axioms)

section \<open>Properties\<close>





text \<open>
  C31: the reader and \<^verbatim>\<open>DeserializeMap\<close> agree. \<^verbatim>\<open>Read\<close> on a reader with bytes left returns the map
  \<^verbatim>\<open>DeserializeMap\<close> returns on those bytes and keeps the bytes it returns; where one panics so does
  the other, and a panic leaves the reader unchanged.
\<close>

theorem reader_agrees_with_deserialize:
  fixes t :: int64
  assumes "omr_bz r \<noteq> []"
  shows "(case DeserializeMap BI BS BB M [JBuf (omr_bz r), JInt t :: 'x jsval] of
      Inr (m, b) \<Rightarrow> omr_Read BI BS BB M r [JInt t :: 'x jsval] = (Inr m, r\<lparr>omr_bz := b\<rparr>)
    | Inl p \<Rightarrow> (\<exists>q. omr_Read BI BS BB M r [JInt t :: 'x jsval] = (Inl q, r)))"
  using assms
  by (auto simp: DeserializeMap_def omr_Read_def read_tag_def bind_res_def split: sum.splits prod.splits if_splits)

theorem reader_agrees_with_deserialize_witness:
  "\<exists>q. omr_Read (alist_btree 0) (alist_btree []) (alist_btree []) mini_msgp \<lparr>omr_bz = [1]\<rparr> [JInt 0 :: unit jsval]
    = (Inl q :: (_, _, _) script_map res, \<lparr>omr_bz = [1]\<rparr>)"
proof -
  have "DeserializeMap (alist_btree 0) (alist_btree []) (alist_btree []) mini_msgp [JBuf [1], JInt 0 :: unit jsval]
    = (Inl (PSymbol ''Tag byte is not equal to inputted type'') :: ((_, _, _) script_map \<times> bytes) res)"
    by (simp add: DeserializeMap_def read_tag_def tag_defs mini_msgp_def get_byte_def)
  then show ?thesis
    using reader_agrees_with_deserialize [where 'x = unit, of "\<lparr>omr_bz = [1]\<rparr>" "alist_btree 0" "alist_btree []" "alist_btree []" mini_msgp 0]
    by simp
qed

end
