(* ===== verification/BufBuilder.thy ===== *)
theory BufBuilder
  imports Args
begin

text \<open>
  \<^verbatim>\<open>script/types/bufbuilder.go\<close>: a byte buffer a script appends to. Copies of a \<^verbatim>\<open>BufBuilder\<close> share
  the \<^verbatim>\<open>strings.Builder\<close> behind the pointer, so its content is the state that is passed along.
  \<^verbatim>\<open>strings.Builder\<close> is of the standard library: \<^verbatim>\<open>Write\<close> appends and never fails.
\<close>

record BufBuilder = bb_sb :: bytes

definition NewBufBuilder :: BufBuilder where
  "NewBufBuilder = \<lparr>bb_sb = []\<rparr>"

definition bb_Len :: "BufBuilder \<Rightarrow> int" where
  "bb_Len b = int (length (bb_sb b))"

definition bb_Reset :: "BufBuilder \<Rightarrow> BufBuilder" where
  "bb_Reset b = b\<lparr>bb_sb := []\<rparr>"

definition bb_Write :: "BufBuilder \<Rightarrow> 'x jsval list \<Rightarrow> int res \<times> BufBuilder" where
  "bb_Write b args =
     (case GetOneArrayBuffer args of
        Inl p \<Rightarrow> (Inl p, b)
      | Inr bz \<Rightarrow> (Inr (int (length bz)), b\<lparr>bb_sb := bb_sb b @ bz\<rparr>))"

definition bb_ToBuf :: "BufBuilder \<Rightarrow> 'x jsval list \<Rightarrow> bytes res" where
  "bb_ToBuf b args =
     (if length args \<noteq> 0 then Inl IncorrectArgumentCount else Inr (bb_sb b))"

text \<open>A script that calls \<^verbatim>\<open>Write\<close> once per argument list, ignoring exceptions.\<close>

definition bb_writes :: "'x jsval list list \<Rightarrow> BufBuilder \<Rightarrow> BufBuilder" where
  "bb_writes calls b = fold (\<lambda>args b. snd (bb_Write b args)) calls b"

section \<open>Properties\<close>

text \<open>The buffer an argument list contributes.\<close>

definition written :: "'x jsval list \<Rightarrow> bytes" where
  "written args = (case args of [JBuf a] \<Rightarrow> a | _ \<Rightarrow> [])"

lemma snd_Write: "bb_sb (snd (bb_Write b args)) = bb_sb b @ written args"
proof (cases "GetOneArrayBuffer args")
  case (Inl p)
  then have "args \<noteq> [JBuf a]" for a by auto
  then have "written args = []" by (auto simp: written_def split: list.split jsval.split)
  with Inl show ?thesis by (simp add: bb_Write_def)
next
  case (Inr a)
  then have "args = [JBuf a]" by simp
  with Inr show ?thesis by (simp add: bb_Write_def written_def)
qed

text \<open>
  a builder holds exactly the buffers written to it since it was created or reset, in order;
  a call of \<^verbatim>\<open>Write\<close> with anything but one ArrayBuffer panics and adds nothing; \<^verbatim>\<open>Len\<close> is the length
  of what \<^verbatim>\<open>ToBuf\<close> returns.
\<close>

theorem bufbuilder_accumulates:
  fixes calls :: "'x jsval list list"
  shows "bb_ToBuf (bb_writes calls (bb_Reset b)) ([] :: 'x jsval list) = Inr (concat (map written calls))
    \<and> bb_ToBuf (bb_writes calls NewBufBuilder) ([] :: 'x jsval list) = Inr (concat (map written calls))
    \<and> bb_Len (bb_writes calls NewBufBuilder) = int (length (concat (map written calls)))
    \<and> ((\<exists>n. fst (bb_Write b args) = Inr n) \<longleftrightarrow> (\<exists>a. args = [JBuf a]))
    \<and> fst (bb_Write b [JBuf a :: 'x jsval]) = Inr (int (length a))"
proof -
  have W: "bb_sb (bb_writes calls c) = bb_sb c @ concat (map written calls)" for c
    unfolding bb_writes_def by (induction calls arbitrary: c) (simp_all add: snd_Write)
  have "(\<exists>n. fst (bb_Write b args) = Inr n) \<longleftrightarrow> (\<exists>a. GetOneArrayBuffer args = Inr a)"
    by (auto simp: bb_Write_def split: sum.split)
  then show ?thesis
    by (simp add: W bb_ToBuf_def bb_Len_def bb_Reset_def NewBufBuilder_def)
      (simp add: bb_Write_def)
qed

end
