(* ===== verification/GoStd.thy ===== *)
theory GoStd
  imports Prelude
begin

text \<open>
  Parts of the Go standard library that the extension functions call, written out:
  \<^verbatim>\<open>strconv.FormatInt\<close> in base ten, \<^verbatim>\<open>encoding/base64\<close> (\<^verbatim>\<open>StdEncoding\<close>) and the number formats
  of \<^verbatim>\<open>encoding/binary\<close>; with the round trips the components use.
\<close>

section \<open>Decimal text\<close>

fun decimal :: "nat \<Rightarrow> string" where
  "decimal n = (if n < 10 then [hex_digit n] else decimal (n div 10) @ [hex_digit (n mod 10)])"

declare decimal.simps [simp del]

section \<open>Base64\<close>

definition b64_digit :: "nat \<Rightarrow> char" where
  "b64_digit n =
     char_of (if n < 26 then n + 65 else if n < 52 then n + 71 else if n < 62 then n - 4
              else if n = 62 then 43 else 47 :: nat)"

definition b64_value :: "char \<Rightarrow> nat option" where
  "b64_value c =
     (let n = (of_char c :: nat) in
      if 65 \<le> n \<and> n \<le> 90 then Some (n - 65)
      else if 97 \<le> n \<and> n \<le> 122 then Some (n - 71)
      else if 48 \<le> n \<and> n \<le> 57 then Some (n + 4)
      else if n = 43 then Some 62
      else if n = 47 then Some 63
      else None)"

text \<open>Three bytes are one 24-bit number, written as four 6-bit digits.\<close>

fun b64_EncodeToString :: "bytes \<Rightarrow> string" where
  "b64_EncodeToString [] = []"
| "b64_EncodeToString [x] =
     (let v = unat x * 65536 in
      [b64_digit (v div 262144), b64_digit (v div 4096 mod 64), CHR ''='', CHR ''=''])"
| "b64_EncodeToString [x, y] =
     (let v = unat x * 65536 + unat y * 256 in
      [b64_digit (v div 262144), b64_digit (v div 4096 mod 64), b64_digit (v div 64 mod 64), CHR ''=''])"
| "b64_EncodeToString (x # y # z # bs) =
     (let v = unat x * 65536 + unat y * 256 + unat z in
      b64_digit (v div 262144) # b64_digit (v div 4096 mod 64) # b64_digit (v div 64 mod 64)
        # b64_digit (v mod 64) # b64_EncodeToString bs)"

text \<open>The bytes of a quantum of two, three or four digits; surplus low bits are ignored.\<close>

fun b64_quantum :: "nat list \<Rightarrow> bytes" where
  "b64_quantum [a, b] = [of_nat ((a * 262144 + b * 4096) div 65536)]"
| "b64_quantum [a, b, c] =
     (let v = a * 262144 + b * 4096 + c * 64 in [of_nat (v div 65536), of_nat (v div 256)])"
| "b64_quantum [a, b, c, d] =
     (let v = a * 262144 + b * 4096 + c * 64 + d in
      [of_nat (v div 65536), of_nat (v div 256), of_nat v])"
| "b64_quantum _ = []"

definition is_newline :: "char \<Rightarrow> bool" where
  "is_newline c \<longleftrightarrow> c = CHR 0x0A \<or> c = CHR 0x0D"

fun skip_newlines :: "string \<Rightarrow> nat \<Rightarrow> string \<times> nat" where
  "skip_newlines [] si = ([], si)"
| "skip_newlines (c # cs) si = (if is_newline c then skip_newlines cs (si + 1) else (c # cs, si))"

text \<open>
  \<^verbatim>\<open>decodeQuantum\<close> over the rest of the input, with the position \<open>si\<close> in it, the digits \<open>q\<close> of the
  quantum begun and the bytes decoded; \<open>Inl\<close> is \<^verbatim>\<open>CorruptInputError\<close> with its offset.
\<close>

fun b64_decode :: "string \<Rightarrow> nat \<Rightarrow> nat list \<Rightarrow> bytes \<Rightarrow> nat + bytes" where
  "b64_decode [] si q out = (if q = [] then Inr out else Inl (si - length q))"
| "b64_decode (c # cs) si q out =
     (case b64_value c of
        Some v \<Rightarrow>
          if length q = 3 then b64_decode cs (si + 1) [] (out @ b64_quantum (q @ [v]))
          else b64_decode cs (si + 1) (q @ [v]) out
      | None \<Rightarrow>
          if is_newline c then b64_decode cs (si + 1) q out
          else if c \<noteq> CHR ''='' \<or> length q < 2 then Inl si
          else
            (case (if length q = 2 then
                     (case skip_newlines cs (si + 1) of
                        ([], sj) \<Rightarrow> Inl sj
                      | (d # ds, sj) \<Rightarrow> if d \<noteq> CHR ''='' then Inl (sj - 1) else Inr (ds, sj + 1))
                   else Inr (cs, si + 1)) of
               Inl e \<Rightarrow> Inl e
             | Inr (ds, sj) \<Rightarrow>
                 (case skip_newlines ds sj of
                    ([], _) \<Rightarrow> Inr (out @ b64_quantum q)
                  | (_, sk) \<Rightarrow> Inl sk)))"

definition b64_DecodeString :: "string \<Rightarrow> string + bytes" where
  "b64_DecodeString s =
     (case b64_decode s 0 [] [] of
        Inl off \<Rightarrow> Inl (''illegal base64 data at input byte '' @ decimal off)
      | Inr bs \<Rightarrow> Inr bs)"

lemma b64_value_digit: "n < 64 \<Longrightarrow> b64_value (b64_digit n) = Some n"
  by (auto simp: b64_value_def b64_digit_def Let_def)

lemma b64_value_pad: "b64_value (CHR ''='') = None" "\<not> is_newline (CHR ''='')"
  by (simp_all add: b64_value_def is_newline_def)

lemma b64_digits:
  fixes v :: nat
  shows "v div 262144 * 262144 + v div 4096 mod 64 * 4096 = v div 4096 * 4096"
    and "v div 262144 * 262144 + v div 4096 mod 64 * 4096 + v div 64 mod 64 * 64 = v div 64 * 64"
    and "v div 262144 * 262144 + v div 4096 mod 64 * 4096 + v div 64 mod 64 * 64 + v mod 64 = v"
proof -
  let ?a = "v div 64" and ?b = "v div 64 div 64"
  have d: "v div 4096 = ?b" "v div 262144 = ?b div 64" by (simp_all flip: div_mult2_eq)
  have "?b div 64 * 64 + ?b mod 64 = ?b" "?b * 64 + ?a mod 64 = ?a" "?a * 64 + v mod 64 = v"
    by (rule div_mult_mod_eq)+
  then show "v div 262144 * 262144 + v div 4096 mod 64 * 4096 = v div 4096 * 4096"
    and "v div 262144 * 262144 + v div 4096 mod 64 * 4096 + v div 64 mod 64 * 64 = v div 64 * 64"
    and "v div 262144 * 262144 + v div 4096 mod 64 * 4096 + v div 64 mod 64 * 64 + v mod 64 = v"
    unfolding d by linarith+
qed

lemma b64_first_digit: "(v :: nat) < 16777216 \<Longrightarrow> v div 262144 < 64"
  by (simp add: less_mult_imp_div_less)

lemma of_nat_byte_eq: "n mod 256 = unat (x :: byte) \<Longrightarrow> of_nat n = x"
  by (rule word_unat_eq_iff [THEN iffD2]) (simp only: unat_of_nat_byte)

text \<open>The bytes of a 24-bit number.\<close>

lemma bytes_24:
  fixes x y z :: byte
  defines "v \<equiv> unat x * 65536 + unat y * 256 + unat z"
  shows "v < 16777216" "(of_nat (v div 65536) :: byte) = x" "(of_nat (v div 256) :: byte) = y"
    "(of_nat v :: byte) = z"
proof -
  have b: "unat x < 256" "unat y < 256" "unat z < 256" by (rule unat_byte_less)+
  then show "v < 16777216" unfolding v_def by linarith
  have v: "v = (unat x * 256 + unat y) * 256 + unat z" by (simp add: v_def)
  have v1: "v div 256 = unat x * 256 + unat y" unfolding v using b(3) by simp
  have "v div 65536 = v div 256 div 256" by (simp flip: div_mult2_eq)
  then have v2: "v div 65536 = unat x" unfolding v1 using b(2) by simp
  show "(of_nat (v div 65536) :: byte) = x" unfolding v2 by simp
  show "(of_nat (v div 256) :: byte) = y" unfolding v1 using b(2) by (intro of_nat_byte_eq) simp
  have "v mod 256 = unat z" unfolding v mod_mult_self3 using b(3) by simp
  then show "(of_nat v :: byte) = z" by (rule of_nat_byte_eq)
qed

lemma b64_decode_encode: "b64_decode (b64_EncodeToString bs) si [] out = Inr (out @ bs)"
proof (induction bs arbitrary: si out rule: b64_EncodeToString.induct)
  case (2 x)
  let ?v = "unat x * 65536"
  have v: "?v < 16777216" "(of_nat (?v div 65536) :: byte) = x" using bytes_24 [of x 0 0] by simp_all
  have "?v div 4096 * 4096 = ?v" by simp
  then have "?v div 262144 * 262144 + ?v div 4096 mod 64 * 4096 = ?v" by (simp only: b64_digits)
  with b64_first_digit [OF v(1)] v(2) show ?case
    by (simp only: b64_EncodeToString.simps Let_def) (simp add: b64_value_digit b64_value_pad)
next
  case (3 x y)
  let ?v = "unat x * 65536 + unat y * 256"
  have v: "?v < 16777216" "(of_nat (?v div 65536) :: byte) = x" "(of_nat (?v div 256) :: byte) = y"
    using bytes_24 [of x y 0] by simp_all
  have "?v = (unat x * 1024 + unat y * 4) * 64" by simp
  then have "?v div 64 * 64 = ?v" by (metis div_mult_self_is_m zero_less_numeral)
  then have "?v div 262144 * 262144 + ?v div 4096 mod 64 * 4096 + ?v div 64 mod 64 * 64 = ?v"
    by (simp only: b64_digits(2))
  with b64_first_digit [OF v(1)] v(2,3) show ?case
    by (simp only: b64_EncodeToString.simps Let_def) (simp add: b64_value_digit b64_value_pad Let_def)
next
  case (4 x y z bs)
  let ?v = "unat x * 65536 + unat y * 256 + unat z"
  note v = bytes_24 [of x y z] and e = b64_digits(3) [of ?v]
  from b64_first_digit [OF v(1)] v(2-4) e "4.IH" show ?case
    by (simp only: b64_EncodeToString.simps Let_def) (simp add: b64_value_digit Let_def)
qed simp

lemma b64_DecodeString_Encode: "b64_DecodeString (b64_EncodeToString bs) = Inr bs"
  by (simp add: b64_DecodeString_def b64_decode_encode)

lemma length_b64_Encode: "length (b64_EncodeToString bs) = 4 * ((length bs + 2) div 3)"
proof (induction bs rule: b64_EncodeToString.induct)
  case (4 x y z bs)
  have "length (x # y # z # bs) + 2 = length bs + 2 + 3" by simp
  then have "(length (x # y # z # bs) + 2) div 3 = (length bs + 2) div 3 + 1"
    by (simp only: div_add_self2)
  moreover have "length (b64_EncodeToString (x # y # z # bs)) = 4 + length (b64_EncodeToString bs)"
    by (simp add: Let_def)
  ultimately show ?case using "4.IH" by simp
qed (simp_all add: Let_def)

section \<open>encoding/binary\<close>

text \<open>\<^verbatim>\<open>Uint32\<close> touches \<^verbatim>\<open>b[3]\<close> first, so it panics on fewer than four bytes and ignores a longer tail.\<close>

definition BigEndian_Uint32 :: "bytes \<Rightarrow> uint32 res" where
  "BigEndian_Uint32 b =
     (if length b < 4 then Inl PIndexOutOfRange else Inr (of_nat (be_val (take 4 b))))"

definition LittleEndian_Uint32 :: "bytes \<Rightarrow> uint32 res" where
  "LittleEndian_Uint32 b =
     (if length b < 4 then Inl PIndexOutOfRange else Inr (of_nat (be_val (rev (take 4 b)))))"

end
