(* ===== verification/Buffer.thy ===== *)
theory Buffer
  imports Args GoStd
begin

text \<open>
  \<^verbatim>\<open>script/extension/buffer.go\<close>: the functions on ArrayBuffers a script calls. The two functions of
  go-ethereum's \<^verbatim>\<open>common\<close> package it uses are the parameter \<open>G\<close>.
\<close>

section \<open>go-ethereum's common package\<close>

record geth_api =
  geth_FromHex :: "string \<Rightarrow> bytes"
  geth_LeftPadBytes :: "bytes \<Rightarrow> nat \<Rightarrow> bytes"

text \<open>
  Documented: \<^verbatim>\<open>FromHex\<close> returns the bytes a hexadecimal string represents, which may have the prefix
  \<^verbatim>\<open>0x\<close>; \<^verbatim>\<open>LeftPadBytes\<close> zero-pads a slice to the left up to the length given.
\<close>

locale geth =
  fixes G :: geth_api
  assumes FromHex: "geth_FromHex G (hex_EncodeToString b) = b"
    and FromHex_prefix: "geth_FromHex G (''0x'' @ hex_EncodeToString b) = b"
    and LeftPadBytes: "geth_LeftPadBytes G b l = replicate (l - length b) 0 @ b"

definition geth_ref :: geth_api where
  "geth_ref = \<lparr>
     geth_FromHex = (\<lambda>s.
       let s = (if take 2 s = ''0x'' then drop 2 s else s) in
       case hex_DecodeString s of Some b \<Rightarrow> b | None \<Rightarrow> []),
     geth_LeftPadBytes = (\<lambda>b l. replicate (l - length b) 0 @ b) \<rparr>"

lemma hex_digit_not_x: "n < 16 \<Longrightarrow> hex_digit n \<noteq> CHR ''x''"
proof
  assume "n < 16" "hex_digit n = CHR ''x''"
  then have "hex_value (CHR ''x'') = Some n" using hex_value_digit [of n] by simp
  then show False by (simp add: hex_value_def)
qed

lemma hex_no_prefix: "take 2 (hex_EncodeToString b) \<noteq> ''0x''"
proof (cases b)
  case (Cons x xs)
  with hex_digit_not_x [of "unat x mod 16"] show ?thesis by (simp add: numeral_2_eq_2)
qed simp

interpretation geth_ref: geth geth_ref
  by unfold_locales (simp_all add: geth_ref_def hex_no_prefix Let_def)

lemma geth_geth_ref: "geth geth_ref"
  by (rule geth_ref.geth_axioms)

section \<open>Conversions from text\<close>

text \<open>The check of a single string argument, which four functions repeat.\<close>

definition one_string :: "'x jsval list \<Rightarrow> string res" where
  "one_string args =
     (if length args \<noteq> 1 then Inl IncorrectArgumentCount
      else case args ! 0 of
        JStr s \<Rightarrow> Inr s
      | _ \<Rightarrow> Inl (PSymbol ''The first argument must be string''))"

definition B64ToBuf :: "'x jsval list \<Rightarrow> bytes res" where
  "B64ToBuf args = bind_res (one_string args) (\<lambda>str.
     case b64_DecodeString str of
       Inl err \<Rightarrow> Inl (PSymbol (''error in B64ToBuf: '' @ err))
     | Inr data \<Rightarrow> Inr data)"

definition HexToBuf :: "geth_api \<Rightarrow> 'x jsval list \<Rightarrow> bytes res" where
  "HexToBuf G args = bind_res (one_string args) (\<lambda>str. Inr (geth_FromHex G str))"

definition UTF8StrToBuf :: "'x jsval list \<Rightarrow> bytes res" where
  "UTF8StrToBuf args = bind_res (one_string args) (\<lambda>str. Inr (bytes_of_string str))"

definition HexToPaddingBuf :: "geth_api \<Rightarrow> 'x jsval list \<Rightarrow> bytes res" where
  "HexToPaddingBuf G args =
     (if length args \<noteq> 2 then Inl IncorrectArgumentCount
      else case args ! 0 of
        JStr str \<Rightarrow>
          (case args ! 1 of
             JInt n \<Rightarrow>
               if sint n \<le> 0 \<or> 256 < sint n
               then Inl (PSymbol ''The second argument must be between 0 and 256'')
               else Inr (geth_LeftPadBytes G (geth_FromHex G str) (nat (sint n)))
           | _ \<Rightarrow> Inl (PSymbol ''The second argument must be int''))
      | _ \<Rightarrow> Inl (PSymbol ''The first argument must be string''))"

section \<open>Conversions to text\<close>

definition BufToB64 :: "'x jsval list \<Rightarrow> string res" where
  "BufToB64 args = bind_res (GetOneArrayBuffer args) (\<lambda>buf. Inr (b64_EncodeToString buf))"

definition BufToHex :: "'x jsval list \<Rightarrow> string res" where
  "BufToHex args = bind_res (GetOneArrayBuffer args) (\<lambda>buf. Inr (hex_EncodeToString buf))"

section \<open>Operations on buffers\<close>

text \<open>The first loop of \<^verbatim>\<open>BufConcat\<close> collects the parts, the second appends them.\<close>

primrec concat_parts :: "'x jsval list \<Rightarrow> bytes list \<Rightarrow> bytes list res" where
  "concat_parts [] data = Inr data"
| "concat_parts (arg # args) data =
     (case arg of
        JBuf v \<Rightarrow> concat_parts args (data @ [v])
      | _ \<Rightarrow> Inl (PValue ''Unsupported type for BufConcat''))"

definition BufConcat :: "'x jsval list \<Rightarrow> bytes res" where
  "BufConcat args = bind_res (concat_parts args []) (\<lambda>data.
     Inr (foldl (\<lambda>result bz. result @ bz) [] data))"

definition BufEqual :: "'x jsval list \<Rightarrow> bool res" where
  "BufEqual args = bind_res (GetTwoArrayBuffers args) (\<lambda>(a, b). Inr (a = b))"

definition BufCompare :: "'x jsval list \<Rightarrow> int res" where
  "BufCompare args = bind_res (GetTwoArrayBuffers args) (\<lambda>(a, b). Inr (lex_compare a b))"

definition bytesReverse :: "bytes \<Rightarrow> bytes" where
  "bytesReverse bz = foldl (\<lambda>rBz i. rBz @ [bz ! (length bz - 1 - i)]) [] [0 ..< length bz]"

definition BufReverse :: "'x jsval list \<Rightarrow> bytes res" where
  "BufReverse args = bind_res (GetOneArrayBuffer args) (\<lambda>a. Inr (bytesReverse a))"

section \<open>Numbers\<close>

definition BufToU32BE :: "'x jsval list \<Rightarrow> uint32 res" where
  "BufToU32BE args = bind_res (GetOneArrayBuffer args) BigEndian_Uint32"

definition BufToU32LE :: "'x jsval list \<Rightarrow> uint32 res" where
  "BufToU32LE args = bind_res (GetOneArrayBuffer args) LittleEndian_Uint32"

definition U64ToBufBE :: "'x jsval list \<Rightarrow> bytes res" where
  "U64ToBufBE args = bind_res (GetOneUint64 args) (\<lambda>u64. Inr (be_bytes 8 (unat u64)))"

definition U64ToBufLE :: "'x jsval list \<Rightarrow> bytes res" where
  "U64ToBufLE args = bind_res (GetOneUint64 args) (\<lambda>u64. Inr (rev (be_bytes 8 (unat u64))))"

text \<open>\<^verbatim>\<open>uint32(u64)\<close> keeps the low 32 bits.\<close>

definition U32ToBufBE :: "'x jsval list \<Rightarrow> bytes res" where
  "U32ToBufBE args = bind_res (GetOneUint64 args) (\<lambda>u64. Inr (be_bytes 4 (unat (ucast u64 :: uint32))))"

definition U32ToBufLE :: "'x jsval list \<Rightarrow> bytes res" where
  "U32ToBufLE args = bind_res (GetOneUint64 args) (\<lambda>u64. Inr (rev (be_bytes 4 (unat (ucast u64 :: uint32)))))"

section \<open>Lemmas\<close>

lemma one_string_JStr [simp]: "one_string [JStr s] = Inr s"
  by (simp add: one_string_def)

lemma concat_parts_bufs: "concat_parts (map JBuf bs) data = Inr (data @ bs)"
  by (induction bs arbitrary: data) simp_all

lemma concat_parts_other:
  "\<forall>b. a \<noteq> JBuf b \<Longrightarrow> a \<in> set args \<Longrightarrow> concat_parts args data = Inl (PValue ''Unsupported type for BufConcat'')"
  by (induction args arbitrary: data) (auto split: jsval.split)

lemma bytesReverse_rev: "bytesReverse bz = rev bz"
proof -
  have "foldl (\<lambda>r i. r @ [f i]) acc is' = acc @ map f is'" for f :: "nat \<Rightarrow> byte" and acc is'
    by (induction is' arbitrary: acc) simp_all
  then have "bytesReverse bz = map (\<lambda>i. bz ! (length bz - 1 - i)) [0 ..< length bz]"
    by (simp add: bytesReverse_def)
  also have "\<dots> = rev bz" by (rule nth_equalityI) (simp_all add: rev_nth)
  finally show ?thesis .
qed

lemma uint32_low: "int (unat (ucast (v :: uint64) :: uint32)) = int (unat v) mod 2 ^ 32"
  by (simp add: unsigned_ucast_eq take_bit_eq_mod zmod_int)

lemma Uint32_of_bytes:
  fixes w :: uint32
  shows "BigEndian_Uint32 (be_bytes 4 (unat w) @ r) = Inr w"
    and "LittleEndian_Uint32 (rev (be_bytes 4 (unat w)) @ r) = Inr w"
proof -
  have "unat w < 2 ^ LENGTH(32)" by (rule unsigned_less)
  then have "be_val (be_bytes 4 (unat w)) = unat w" by (simp add: be_val_be_bytes)
  then show "BigEndian_Uint32 (be_bytes 4 (unat w) @ r) = Inr w"
    and "LittleEndian_Uint32 (rev (be_bytes 4 (unat w)) @ r) = Inr w"
    by (simp_all add: BigEndian_Uint32_def LittleEndian_Uint32_def)
qed

section \<open>Properties\<close>

text \<open>
  the text forms of a buffer are faithful. Decoding what \<^verbatim>\<open>BufToB64\<close> or \<^verbatim>\<open>BufToHex\<close> (also with
  the prefix \<^verbatim>\<open>0x\<close>) wrote gives back the buffer, and \<^verbatim>\<open>HexToPaddingBuf\<close> of it to \<open>n\<close> bytes, for
  \<open>n\<close> in 1..256 and otherwise a panic, is the buffer behind zeros up to length \<open>n\<close>, never cut.
\<close>

theorem text_round_trips:
  assumes "geth G"
  shows "\<exists>s h. BufToB64 [JBuf b :: 'x jsval] = Inr s \<and> B64ToBuf [JStr s :: 'x jsval] = Inr b
    \<and> length s = 4 * ((length b + 2) div 3)
    \<and> BufToHex [JBuf b :: 'x jsval] = Inr h \<and> HexToBuf G [JStr h :: 'x jsval] = Inr b
    \<and> HexToBuf G [JStr (''0x'' @ h) :: 'x jsval] = Inr b \<and> length h = 2 * length b
    \<and> (if 0 < sint n \<and> sint n \<le> 256
       then HexToPaddingBuf G [JStr h, JInt n :: 'x jsval]
         = Inr (replicate (nat (sint n) - length b) 0 @ b)
       else \<exists>p. HexToPaddingBuf G [JStr h, JInt n :: 'x jsval] = Inl p)"
  using geth.FromHex [OF assms] geth.FromHex_prefix [OF assms] geth.LeftPadBytes [OF assms]
  by (auto simp: BufToB64_def B64ToBuf_def BufToHex_def HexToBuf_def HexToPaddingBuf_def
      b64_DecodeString_Encode length_b64_Encode)

theorem text_round_trips_witness:
  "\<exists>s h. BufToB64 [JBuf [1, 2] :: unit jsval] = Inr s \<and> B64ToBuf [JStr s :: unit jsval] = Inr [1, 2]
    \<and> BufToHex [JBuf [1, 2] :: unit jsval] = Inr h
    \<and> HexToPaddingBuf geth_ref [JStr h, JInt 4 :: unit jsval] = Inr [0, 0, 1, 2]"
proof -
  have "sint (4 :: int64) = 4" by simp
  moreover have "replicate (nat (sint (4 :: int64)) - length [1 :: byte, 2]) 0 @ [1 :: byte, 2] = [0, 0, 1, 2]"
    by (simp add: numeral_eq_Suc)
  ultimately show ?thesis
    using text_round_trips [OF geth_geth_ref, where 'x = unit, of "[1, 2]" 4] by fastforce
qed

text \<open>
  numbers and buffers. A number up to \<^verbatim>\<open>MAX_SAFE_INTEGER\<close> becomes 8 bytes in either order, the
  little-endian ones being the big-endian ones reversed; the 4-byte forms hold the number modulo
  2^32 and are read back by \<^verbatim>\<open>BufToU32BE\<close> and \<^verbatim>\<open>BufToU32LE\<close>, which ignore bytes after the fourth
  and panic on fewer than four; larger and negative numbers are refused.
\<close>

theorem number_buffers:
  fixes v :: uint64
  shows "(if unat v \<le> 2 ^ 53 - 1
    then \<exists>be be4. U64ToBufBE [JInt v :: 'x jsval] = Inr be \<and> U64ToBufLE [JInt v :: 'x jsval] = Inr (rev be)
      \<and> length be = 8 \<and> be_val be = unat v
      \<and> U32ToBufBE [JInt v :: 'x jsval] = Inr be4 \<and> U32ToBufLE [JInt v :: 'x jsval] = Inr (rev be4)
      \<and> length be4 = 4 \<and> BufToU32BE [JBuf (be4 @ r) :: 'x jsval] = Inr (ucast v)
      \<and> BufToU32LE [JBuf (rev be4 @ r) :: 'x jsval] = Inr (ucast v)
      \<and> int (unat (ucast v :: uint32)) = int (unat v) mod 2 ^ 32
    else U64ToBufBE [JInt v :: 'x jsval] = Inl LargerThanMaxInteger
      \<and> U64ToBufLE [JInt v :: 'x jsval] = Inl LargerThanMaxInteger
      \<and> U32ToBufBE [JInt v :: 'x jsval] = Inl LargerThanMaxInteger
      \<and> U32ToBufLE [JInt v :: 'x jsval] = Inl LargerThanMaxInteger)
    \<and> (length b < 4 \<longrightarrow> BufToU32BE [JBuf b :: 'x jsval] = Inl PIndexOutOfRange
        \<and> BufToU32LE [JBuf b :: 'x jsval] = Inl PIndexOutOfRange)"
proof -
  have short: "length b < 4 \<longrightarrow> BufToU32BE [JBuf b :: 'x jsval] = Inl PIndexOutOfRange
      \<and> BufToU32LE [JBuf b :: 'x jsval] = Inl PIndexOutOfRange"
    by (simp add: BufToU32BE_def BufToU32LE_def BigEndian_Uint32_def LittleEndian_Uint32_def)
  show ?thesis
  proof (cases "unat v \<le> 2 ^ 53 - 1")
    case True
    then have g: "GetOneUint64 [JInt v :: 'x jsval] = Inr v" by simp
    have "unat v < 2 ^ LENGTH(64)" by (rule unsigned_less)
    then have "be_val (be_bytes 8 (unat v)) = unat v" by (simp add: be_val_be_bytes)
    moreover have "BufToU32BE [JBuf (be_bytes 4 (unat w) @ r) :: 'x jsval] = Inr w"
        "BufToU32LE [JBuf (rev (be_bytes 4 (unat w)) @ r) :: 'x jsval] = Inr w" for w
      by (simp_all add: BufToU32BE_def BufToU32LE_def Uint32_of_bytes)
    moreover have "U64ToBufBE [JInt v :: 'x jsval] = Inr (be_bytes 8 (unat v))"
        "U64ToBufLE [JInt v :: 'x jsval] = Inr (rev (be_bytes 8 (unat v)))"
        "U32ToBufBE [JInt v :: 'x jsval] = Inr (be_bytes 4 (unat (ucast v :: uint32)))"
        "U32ToBufLE [JInt v :: 'x jsval] = Inr (rev (be_bytes 4 (unat (ucast v :: uint32))))"
      by (simp_all add: U64ToBufBE_def U64ToBufLE_def U32ToBufBE_def U32ToBufLE_def g del: GetOneUint64_Inr)
    ultimately show ?thesis using True short uint32_low [of v] length_be_bytes by auto
  next
    case False
    then have g: "GetOneUint64 [JInt v :: 'x jsval] = Inl LargerThanMaxInteger"
      by (simp add: GetOneUint64_def word_reading)
    with False short show ?thesis
      by (simp add: U64ToBufBE_def U64ToBufLE_def U32ToBufBE_def U32ToBufLE_def g)
  qed
qed

theorem number_buffers_witness:
  "BufToU32BE [JBuf [1, 2, 3] :: unit jsval] = Inl PIndexOutOfRange
    \<and> (\<exists>be4. U32ToBufBE [JInt 5 :: unit jsval] = Inr be4 \<and> BufToU32BE [JBuf be4 :: unit jsval] = Inr 5)"
  using number_buffers [where 'x = unit, of 5 "[]" "[1, 2, 3]"] by auto

text \<open>
  \<^verbatim>\<open>BufConcat\<close> joins its arguments in order and panics as soon as one is not an ArrayBuffer;
  \<^verbatim>\<open>BufReverse\<close> reverses, so applying it twice gives the buffer back; \<^verbatim>\<open>BufEqual\<close> is equality and
  \<^verbatim>\<open>BufCompare\<close> a lexicographic total order that agrees with it.
\<close>

theorem buffer_operations:
  fixes args :: "'x jsval list"
  shows "BufConcat (map JBuf bs :: 'x jsval list) = Inr (concat bs)
    \<and> ((\<exists>r. BufConcat args = Inr r) \<longleftrightarrow> (\<forall>a \<in> set args. \<exists>b. a = JBuf b))
    \<and> BufReverse [JBuf a :: 'x jsval] = Inr (rev a)
    \<and> bind_res (BufReverse [JBuf a :: 'x jsval]) (\<lambda>b. BufReverse [JBuf b :: 'x jsval]) = Inr a
    \<and> BufEqual [JBuf a, JBuf b :: 'x jsval] = Inr (a = b)
    \<and> (\<exists>c \<in> {-1, 0, 1}. BufCompare [JBuf a, JBuf b :: 'x jsval] = Inr c
        \<and> BufCompare [JBuf b, JBuf a :: 'x jsval] = Inr (- c)
        \<and> (c = 0 \<longleftrightarrow> a = b) \<and> (c < 0 \<longleftrightarrow> a < b))"
proof -

  have fb: "foldl (\<lambda>r bz. r @ bz) [] ds = concat ds" for ds :: "bytes list"
  proof -
    have "foldl (\<lambda>r bz. r @ bz) acc ds = acc @ concat ds" for acc
      by (induction ds arbitrary: acc) simp_all
    then show ?thesis by simp
  qed
  have conc: "BufConcat (map JBuf bs :: 'x jsval list) = Inr (concat bs)" for bs
    by (simp add: BufConcat_def concat_parts_bufs fb)
  have "(\<exists>r. BufConcat args = Inr r) \<longleftrightarrow> (\<forall>a \<in> set args. \<exists>b. a = JBuf b)"
  proof (cases "\<forall>a \<in> set args. \<exists>b. a = JBuf b")
    case True
    then have "\<exists>bs. args = map JBuf bs" by (induction args) (auto intro: exI [of _ "_ # _"])
    with True conc show ?thesis by blast
  next
    case False
    then obtain a where "a \<in> set args" "\<forall>b. a \<noteq> JBuf b" by blast
    with concat_parts_other [of a args "[]"] False show ?thesis by (simp add: BufConcat_def)
  qed
  with conc show ?thesis
    using lex_compare_range [of a b] lex_compare_swap [of b a] lex_compare_eq_iff [of a b] lex_compare_less_iff [of a b]
    by (simp add: BufReverse_def bytesReverse_rev BufEqual_def BufCompare_def)
qed

theorem buffer_operations_witness:
  "BufConcat [JBuf [1], JBuf [2, 3] :: unit jsval] = Inr [1, 2, 3]
    \<and> BufCompare [JBuf [1], JBuf [2] :: unit jsval] = Inr (- 1)"
  using buffer_operations [where 'x = unit, of "[[1], [2, 3]]" "[]" "[1]" "[2]"] by auto

end
