(* ===== verification/Merkle.thy ===== *)
theory Merkle
  imports Args GoStd
begin

text \<open>
  \<^verbatim>\<open>script/extension/merkle.go\<close>: checking a Merkle inclusion proof in which the two children of a
  node are hashed in lexicographic order. The hash (\<^verbatim>\<open>crypto/sha256\<close> or the third-party Keccak-256)
  is the parameter \<open>H\<close>: \<^verbatim>\<open>Reset\<close>, \<^verbatim>\<open>Write(x)\<close> and \<^verbatim>\<open>Sum(nil)\<close> together are \<open>H x\<close>.
\<close>

section \<open>The program\<close>

definition combineTwoHash :: "bytes \<Rightarrow> bytes \<Rightarrow> bytes" where
  "combineTwoHash a b = (if lex_compare a b < 0 then a @ b else b @ a)"

text \<open>The loop over the proof in steps of 32 bytes.\<close>

function merkle_loop :: "(bytes \<Rightarrow> bytes) \<Rightarrow> bytes \<Rightarrow> nat \<Rightarrow> bytes \<Rightarrow> bytes" where
  "merkle_loop H proof offset computedHash =
     (if offset < length proof
      then (let node = take 32 (drop offset proof) in
            merkle_loop H proof (offset + 32) (H (combineTwoHash node computedHash)))
      else computedHash)"
  by pat_completeness auto
termination by (relation "measure (\<lambda>(H, proof, offset, c). length proof - offset)") auto

declare merkle_loop.simps [simp del]

definition verifyMerkleProof :: "(bytes \<Rightarrow> bytes) \<Rightarrow> 'x jsval list \<Rightarrow> bool res" where
  "verifyMerkleProof H args = bind_res (GetThreeArrayBuffers args) (\<lambda>(root, proof, leaf).
     if length leaf \<noteq> 32
     then Inl (PSymbol (''Invalid merkle tree leaf size '' @ decimal (length leaf)))
     else if length proof mod 32 \<noteq> 0
     then Inl (PSymbol (''Invalid merkle proof size '' @ decimal (length proof)))
     else Inr (root = merkle_loop H proof 0 leaf))"

definition VerifyMerkleProofSha256 :: "(bytes \<Rightarrow> bytes) \<Rightarrow> 'x jsval list \<Rightarrow> bool res" where
  "VerifyMerkleProofSha256 sha256 args = verifyMerkleProof sha256 args"

definition VerifyMerkleProofKeccak256 :: "(bytes \<Rightarrow> bytes) \<Rightarrow> 'x jsval list \<Rightarrow> bool res" where
  "VerifyMerkleProofKeccak256 keccak256 args = verifyMerkleProof keccak256 args"

section \<open>Specification: Merkle trees\<close>

datatype mtree = MLeaf bytes | MNode mtree mtree

primrec mroot :: "(bytes \<Rightarrow> bytes) \<Rightarrow> mtree \<Rightarrow> bytes" where
  "mroot H (MLeaf b) = b"
| "mroot H (MNode l r) = H (combineTwoHash (mroot H l) (mroot H r))"

text \<open>\<open>mpath H t p leaf\<close>: \<open>p\<close> lists the sibling hashes from the leaf up to the root of \<open>t\<close>.\<close>

inductive mpath :: "(bytes \<Rightarrow> bytes) \<Rightarrow> mtree \<Rightarrow> bytes list \<Rightarrow> bytes \<Rightarrow> bool" for H where
  mpath_leaf: "mpath H (MLeaf b) [] b"
| mpath_left: "mpath H l p leaf \<Longrightarrow> mpath H (MNode l r) (p @ [mroot H r]) leaf"
| mpath_right: "mpath H r p leaf \<Longrightarrow> mpath H (MNode l r) (p @ [mroot H l]) leaf"

inductive_cases mpath_LeafE: "mpath H (MLeaf b) p leaf"
inductive_cases mpath_NodeE: "mpath H (MNode l r) p leaf"

text \<open>A full tree of depth \<open>d\<close> over 32-byte leaves, and everything it hashes.\<close>

primrec full_tree :: "nat \<Rightarrow> mtree \<Rightarrow> bool" where
  "full_tree d (MLeaf b) \<longleftrightarrow> d = 0 \<and> length b = 32"
| "full_tree d (MNode l r) \<longleftrightarrow> 0 < d \<and> full_tree (d - 1) l \<and> full_tree (d - 1) r"

primrec mleaves :: "mtree \<Rightarrow> bytes set" where
  "mleaves (MLeaf b) = {b}"
| "mleaves (MNode l r) = mleaves l \<union> mleaves r"

primrec leaves_ok :: "mtree \<Rightarrow> bool" where
  "leaves_ok (MLeaf b) \<longleftrightarrow> length b = 32"
| "leaves_ok (MNode l r) \<longleftrightarrow> leaves_ok l \<and> leaves_ok r"

primrec hashed_tree :: "(bytes \<Rightarrow> bytes) \<Rightarrow> mtree \<Rightarrow> bytes set" where
  "hashed_tree H (MLeaf b) = {}"
| "hashed_tree H (MNode l r) =
     insert (combineTwoHash (mroot H l) (mroot H r)) (hashed_tree H l \<union> hashed_tree H r)"

text \<open>The loop on a list of nodes, and what it hashes.\<close>

definition climb :: "(bytes \<Rightarrow> bytes) \<Rightarrow> bytes list \<Rightarrow> bytes \<Rightarrow> bytes" where
  "climb H nodes c = foldl (\<lambda>c node. H (combineTwoHash node c)) c nodes"

primrec hashed_climb :: "(bytes \<Rightarrow> bytes) \<Rightarrow> bytes list \<Rightarrow> bytes \<Rightarrow> bytes set" where
  "hashed_climb H [] c = {}"
| "hashed_climb H (n # ns) c = insert (combineTwoHash n c) (hashed_climb H ns (H (combineTwoHash n c)))"

section \<open>Lemmas\<close>

lemma combineTwoHash_sym: "combineTwoHash a b = combineTwoHash b a"
  unfolding combineTwoHash_def lex_compare_less_iff by auto

lemma combineTwoHash_inject:
  assumes "length a = n" "length b = n" "length c = n" "length d = n"
    and "combineTwoHash a b = combineTwoHash c d"
  shows "(a = c \<and> b = d) \<or> (a = d \<and> b = c)"
  using assms unfolding combineTwoHash_def by (auto split: if_splits)

lemma climb_simps [simp]:
  "climb H [] c = c"
  "climb H (n # ns) c = climb H ns (H (combineTwoHash n c))"
  "climb H (ns @ [n]) c = H (combineTwoHash n (climb H ns c))"
  by (simp_all add: climb_def)

lemma hashed_climb_snoc:
  "hashed_climb H (ns @ [n]) c = insert (combineTwoHash n (climb H ns c)) (hashed_climb H ns c)"
  by (induction ns arbitrary: c) auto

lemma merkle_loop_climb:
  assumes "\<forall>n \<in> set ns. length n = 32"
  shows "merkle_loop H (pre @ concat ns) (length pre) c = climb H ns c"
  using assms
proof (induction ns arbitrary: pre c)
  case Nil
  then show ?case by (simp add: merkle_loop.simps)
next
  case (Cons n ns)
  have "merkle_loop H (pre @ concat (n # ns)) (length pre) c
      = merkle_loop H ((pre @ n) @ concat ns) (length (pre @ n)) (H (combineTwoHash n c))"
    using Cons.prems by (subst merkle_loop.simps) (simp add: Let_def)
  with Cons.IH [of "pre @ n" "H (combineTwoHash n c)"] Cons.prems show ?case by simp
qed

lemma split_chunks:
  "length p mod 32 = 0 \<Longrightarrow> \<exists>ns. p = concat ns \<and> (\<forall>n \<in> set ns. length n = 32) \<and> length ns = length p div 32"
proof (induction "length p div 32" arbitrary: p)
  case 0
  then have "p = []" by (metis div_eq_0_iff length_0_conv mod_less zero_neq_numeral)
  then show ?case by (intro exI [of _ "[]"]) simp
next
  case (Suc k)
  then have l: "32 \<le> length p" by (metis Suc_neq_Zero div_less not_le)
  then have d: "length (drop 32 p) = length p - 32" by simp
  have m: "(length p - 32) mod 32 = 0" "(length p - 32) div 32 = k"
    using Suc.prems Suc.hyps(2) l by (simp_all add: le_mod_geq le_div_geq)
  from Suc.hyps(1) [of "drop 32 p"] m d obtain ns
    where "drop 32 p = concat ns" "\<forall>n \<in> set ns. length n = 32" "length ns = k" by auto
  moreover from this(1) have "p = take 32 p @ concat ns" by (metis append_take_drop_id)
  ultimately show ?case using l Suc.hyps(2) by (intro exI [of _ "take 32 p # ns"]) simp
qed

lemma mpath_climb: "mpath H t p leaf \<Longrightarrow> climb H p leaf = mroot H t"
proof (induction rule: mpath.induct)
  case (mpath_left l p leaf r)
  then show ?case by (simp add: combineTwoHash_sym)
qed simp_all

lemma length_mroot:
  "(\<And>x. length (H x) = 32) \<Longrightarrow> leaves_ok t \<Longrightarrow> length (mroot H t) = 32"
  by (induction t) auto

lemma length_climb:
  "(\<And>x. length (H x) = 32) \<Longrightarrow> length c = 32 \<Longrightarrow> length (climb H ns c) = 32"
  by (induction ns arbitrary: c) auto

lemma mpath_nodes:
  "mpath H t p leaf \<Longrightarrow> (\<And>x. length (H x) = 32) \<Longrightarrow> leaves_ok t \<Longrightarrow> \<forall>n \<in> set p. length n = 32"
  by (induction rule: mpath.induct) (auto simp: length_mroot)

lemma full_tree_ok: "full_tree d t \<Longrightarrow> leaves_ok t"
  by (induction t arbitrary: d) auto

text \<open>A proof of full depth that reaches the root is the path of a leaf, unless \<open>H\<close> collides.\<close>

lemma climb_sound:
  assumes "\<And>x. length (H x) = 32" "full_tree (length ns) t" "length leaf = 32"
    and "\<forall>n \<in> set ns. length n = 32"
    and "inj_on H (hashed_tree H t \<union> hashed_climb H ns leaf)"
    and "climb H ns leaf = mroot H t"
  shows "mpath H t ns leaf"
  using assms(2-)
proof (induction ns arbitrary: t rule: rev_induct)
  case Nil
  then show ?case by (cases t) (auto intro: mpath_leaf)
next
  case (snoc n ns)
  then obtain l r where t: "t = MNode l r" "full_tree (length ns) l" "full_tree (length ns) r"
    by (cases t) auto
  let ?c = "climb H ns leaf"
  have "H (combineTwoHash n ?c) = H (combineTwoHash (mroot H l) (mroot H r))"
    using snoc.prems(5) t(1) by simp
  with snoc.prems(4) have "combineTwoHash n ?c = combineTwoHash (mroot H l) (mroot H r)"
    unfolding t(1) by (auto dest!: inj_onD simp: hashed_climb_snoc)
  moreover have "length n = 32" "length ?c = 32" "length (mroot H l) = 32" "length (mroot H r) = 32"
    using snoc.prems(2,3) length_climb [OF assms(1)] length_mroot [OF assms(1)] full_tree_ok t(2,3)
    by auto
  ultimately consider "n = mroot H l" "?c = mroot H r" | "n = mroot H r" "?c = mroot H l"
    using combineTwoHash_inject by metis
  then show ?case
  proof cases
    case 1
    have "inj_on H (hashed_tree H r \<union> hashed_climb H ns leaf)"
      using snoc.prems(4) by (rule inj_on_subset) (auto simp: t(1) hashed_climb_snoc)
    with snoc.IH [of r] snoc.prems(2,3) t 1 show ?thesis by (auto intro: mpath_right)
  next
    case 2
    have "inj_on H (hashed_tree H l \<union> hashed_climb H ns leaf)"
      using snoc.prems(4) by (rule inj_on_subset) (auto simp: t(1) hashed_climb_snoc)
    with snoc.IH [of l] snoc.prems(2,3) t 2 show ?thesis by (auto intro: mpath_left)
  qed
qed

lemma mpath_leaf_in: "mpath H t p leaf \<Longrightarrow> leaf \<in> mleaves t"
  by (induction rule: mpath.induct) auto

lemma verify_climb:
  assumes "length leaf = 32" "\<forall>n \<in> set ns. length n = 32"
  shows "verifyMerkleProof H [JBuf root, JBuf (concat ns), JBuf leaf] = Inr (root = climb H ns leaf)"
proof -
  have "length (concat ns) = 32 * length ns" using assms(2) by (induction ns) simp_all
  with merkle_loop_climb [OF assms(2), of H "[]" leaf] assms(1) show ?thesis
    by (simp add: verifyMerkleProof_def)
qed

lemma verify_sizes:
  "verifyMerkleProof H [JBuf r, JBuf p, JBuf l] = Inr ok \<Longrightarrow> length l = 32 \<and> length p mod 32 = 0"
  by (cases "length l = 32"; cases "length p mod 32 = 0") (simp_all add: verifyMerkleProof_def)

section \<open>Properties\<close>

text \<open>
  C25: \<^verbatim>\<open>verifyMerkleProof\<close> accepts every correct proof. For any binary tree over 32-byte leaves and a
  hash with 32-byte values, the concatenated siblings on the way from a leaf to the root verify
  against the root, in whichever position the leaf is; an argument list that is not three
  ArrayBuffers, a leaf of another size and a proof that is not a multiple of 32 bytes panic.
\<close>

theorem merkle_complete:
  fixes args :: "'x jsval list"
  assumes "\<And>x. length (H x) = 32" "leaves_ok t" "mpath H t p leaf"
  shows "verifyMerkleProof H [JBuf (mroot H t), JBuf (concat p), JBuf leaf :: 'x jsval] = Inr True
    \<and> ((\<exists>ok. verifyMerkleProof H args = Inr ok) \<longleftrightarrow>
        (\<exists>root proof leaf. args = [JBuf root, JBuf proof, JBuf leaf]
          \<and> length leaf = 32 \<and> length proof mod 32 = 0))"
proof -
  note nodes = mpath_nodes [OF assms(3,1,2)]
  have "length leaf = 32"
    using assms(3,2) by (induction rule: mpath.induct) auto
  then have A: "verifyMerkleProof H [JBuf (mroot H t), JBuf (concat p), JBuf leaf :: 'x jsval] = Inr True"
    by (simp add: verify_climb nodes mpath_climb [OF assms(3)])
  have B: "\<exists>ok. verifyMerkleProof H args = Inr ok"
    if "args = [JBuf r, JBuf pf, JBuf lf]" "length lf = 32" "length pf mod 32 = 0" for r pf lf
    using that by (simp add: verifyMerkleProof_def)
  have C: "\<exists>root proof leaf. args = [JBuf root, JBuf proof, JBuf leaf]
      \<and> length leaf = 32 \<and> length proof mod 32 = 0" if ok: "verifyMerkleProof H args = Inr ok" for ok
  proof (cases "GetThreeArrayBuffers args")
    case (Inl p)
    with ok show ?thesis by (simp add: verifyMerkleProof_def)
  next
    case (Inr v)
    obtain r pf lf where v: "v = (r, pf, lf)" by (cases v)
    then have a: "args = [JBuf r, JBuf pf, JBuf lf]" using Inr by simp
    from verify_sizes [OF ok [unfolded a]] show ?thesis
      by (intro exI [of _ r] exI [of _ pf] exI [of _ lf]) (simp add: a)
  qed
  show ?thesis
  proof (intro conjI iffI A)
    assume "\<exists>ok. verifyMerkleProof H args = Inr ok"
    then show "\<exists>root proof leaf. args = [JBuf root, JBuf proof, JBuf leaf]
        \<and> length leaf = 32 \<and> length proof mod 32 = 0" by (elim exE) (rule C)
  next
    assume "\<exists>root proof leaf. args = [JBuf root, JBuf proof, JBuf leaf]
        \<and> length leaf = 32 \<and> length proof mod 32 = 0"
    then show "\<exists>ok. verifyMerkleProof H args = Inr ok" by (elim exE conjE) (rule B)
  qed
qed

text \<open>A hash for the witnesses: the input's first 32 bytes, padded with zeros.\<close>

definition take_hash :: "bytes \<Rightarrow> bytes" where
  "take_hash x = take 32 (x @ replicate 32 0)"

lemma length_take_hash: "length (take_hash x) = 32"
  by (simp add: take_hash_def)

theorem merkle_complete_witness:
  "\<exists>root sibling. verifyMerkleProof take_hash [JBuf root, JBuf sibling, JBuf (replicate 32 7) :: unit jsval]
    = Inr True"
proof -
  let ?t = "MNode (MLeaf (replicate 32 7)) (MLeaf (replicate 32 1))"
  have "mpath take_hash ?t ([] @ [mroot take_hash (MLeaf (replicate 32 1))]) (replicate 32 7)"
    by (rule mpath_left [OF mpath_leaf])
  moreover have "leaves_ok ?t" by simp
  ultimately show ?thesis
    using merkle_complete [where H = take_hash and 'x = unit, OF length_take_hash] by blast
qed

text \<open>
  C4: \<^verbatim>\<open>verifyMerkleProof\<close> accepts nothing else. If a proof of as many 32-byte nodes as the tree is
  deep verifies against the root of a full tree, and the hash has no collision among the strings
  hashed for the tree and during this check, then the leaf is a leaf of the tree and the proof its
  path.
\<close>

theorem merkle_sound:
  assumes "\<And>x. length (H x) = 32" "full_tree (length ns) t" "\<forall>n \<in> set ns. length n = 32"
    and "inj_on H (hashed_tree H t \<union> hashed_climb H ns leaf)"
    and "verifyMerkleProof H [JBuf (mroot H t), JBuf (concat ns), JBuf leaf :: 'x jsval] = Inr True"
  shows "leaf \<in> mleaves t \<and> mpath H t ns leaf"
proof -
  have leaf: "length leaf = 32" using assms(5) by (auto simp: verifyMerkleProof_def split: if_splits)
  have "climb H ns leaf = mroot H t" using assms(5) by (simp add: verify_climb leaf assms(3))
  from climb_sound [OF assms(1,2) leaf assms(3,4) this] mpath_leaf_in show ?thesis by blast
qed

theorem merkle_sound_witness:
  "mpath take_hash (MNode (MLeaf (replicate 32 7)) (MLeaf (replicate 32 1))) [replicate 32 1] (replicate 32 7)"
proof -
  let ?a = "replicate 32 7 :: bytes" and ?b = "replicate 32 1 :: bytes"
  let ?t = "MNode (MLeaf ?a) (MLeaf ?b)"
  have "verifyMerkleProof take_hash [JBuf (mroot take_hash ?t), JBuf (concat [?b]), JBuf ?a :: unit jsval] = Inr True"
    by (subst verify_climb) (simp_all add: combineTwoHash_sym)
  moreover have "inj_on take_hash (hashed_tree take_hash ?t \<union> hashed_climb take_hash [?b] ?a)"
    by (simp add: combineTwoHash_sym [of ?a])
  ultimately show ?thesis
    using merkle_sound [where H = take_hash and ns = "[?b]" and t = ?t and leaf = ?a and 'x = unit, OF length_take_hash]
    by simp
qed

end
