(* ===== verification/KeyDerive.thy ===== *)
theory KeyDerive
  imports Args
begin

text \<open>
  Key derivation: \<^verbatim>\<open>DeriveKey\<close> and \<^verbatim>\<open>IsValidPrivateKey\<close> of \<^verbatim>\<open>keygrantor/keygrantor.go\<close> and the key type of
  \<^verbatim>\<open>script/extension/bip32key.go\<close>. The third-party package \<^verbatim>\<open>go-bip32\<close> is the parameter \<open>K\<close>: a key
  \<^verbatim>\<open>*bip32.Key\<close> is a value of \<open>'k option\<close>, \<open>None\<close> being the nil pointer.
\<close>

section \<open>The package go-bip32\<close>

text \<open>
  A function with the results \<^verbatim>\<open>(*Key, error)\<close> is modelled with that pair. \<open>bip_IsPrivate\<close> and
  \<open>bip_Key\<close> are the fields of the struct.
\<close>

record 'k bip32_api =
  bip_NewChildKey :: "'k \<Rightarrow> uint32 \<Rightarrow> 'k option \<times> string option"
  bip_PublicKey :: "'k \<Rightarrow> 'k"
  bip_Serialize :: "'k \<Rightarrow> bytes"
  bip_Deserialize :: "bytes \<Rightarrow> 'k option \<times> string option"
  bip_B58Serialize :: "'k \<Rightarrow> string"
  bip_B58Deserialize :: "string \<Rightarrow> 'k option \<times> string option"
  bip_IsPrivate :: "'k \<Rightarrow> bool"
  bip_Key :: "'k \<Rightarrow> bytes"

text \<open>
  What the package documents: an error comes with a nil key and a success with a key; deriving a
  non-hardened child commutes with taking the public key (BIP-32); serialization is inverted by
  deserialization.
\<close>

locale bip32 =
  fixes K :: "'k bip32_api"
  assumes NewChildKey_result: "bip_NewChildKey K k i = (r, e) \<Longrightarrow> (r = None) \<noteq> (e = None)"
    and NewChildKey_public: "i < 2 ^ 31 \<Longrightarrow> bip_NewChildKey K k i = (Some c, None)
      \<Longrightarrow> bip_NewChildKey K (bip_PublicKey K k) i = (Some (bip_PublicKey K c), None)"
    and Deserialize: "bip_Deserialize K (bip_Serialize K k) = (Some k, None)"

text \<open>A method call on a nil pointer that reads a field panics.\<close>

definition NewChildKey :: "'k bip32_api \<Rightarrow> 'k option \<Rightarrow> uint32 \<Rightarrow> ('k option \<times> string option) res" where
  "NewChildKey K key i = (case key of None \<Rightarrow> Inl PNilDeref | Some k \<Rightarrow> Inr (bip_NewChildKey K k i))"

section \<open>DeriveKey\<close>

text \<open>
  The inner loop \<^verbatim>\<open>for m := ...; true; m++\<close> at depth \<open>i\<close>; it assigns the result to \<^verbatim>\<open>key\<close> before it looks
  at the error. It has no bound of its own, hence the option type.
\<close>

partial_function (option) derive_retry ::
  "'k bip32_api \<Rightarrow> nat \<Rightarrow> uint32 \<Rightarrow> 'k option \<Rightarrow> uint32 \<Rightarrow> uint32 \<Rightarrow> ('k option \<times> uint32) res option" where
  "derive_retry K i lastAddUnit key lastAdd m =
     (case NewChildKey K key (if i = 8 then m + lastAdd else m) of
        Inl p \<Rightarrow> Some (Inl p)
      | Inr (key, err) \<Rightarrow>
          if err = None then Some (Inr (key, lastAdd))
          else derive_retry K i lastAddUnit key (lastAdd + lastAddUnit) (m + 1))"

text \<open>The outer loop from depth \<open>9 - d\<close> on; \<^verbatim>\<open>lastAddUnit <<= 3\<close> after each depth.\<close>

primrec derive_loop ::
  "'k bip32_api \<Rightarrow> nat \<Rightarrow> nat \<Rightarrow> uint32 \<Rightarrow> uint32 \<Rightarrow> 'k option \<Rightarrow> 'k option res option" where
  "derive_loop K 0 n lastAdd lastAddUnit key = Some (Inr key)"
| "derive_loop K (Suc d) n lastAdd lastAddUnit key =
     (case derive_retry K (8 - d) lastAddUnit key lastAdd (of_nat (n mod 2 ^ 31)) of
        None \<Rightarrow> None
      | Some (Inl p) \<Rightarrow> Some (Inl p)
      | Some (Inr (key, lastAdd)) \<Rightarrow>
          derive_loop K d (n div 2 ^ 31) lastAdd (push_bit 3 lastAddUnit) key)"

definition DeriveKey :: "'k bip32_api \<Rightarrow> 'k option \<Rightarrow> bytes \<Rightarrow> 'k option res option" where
  "DeriveKey K key hash = derive_loop K 9 (be_val hash) 0 (push_bit 8 1) key"

definition secp256k1_N :: nat where
  "secp256k1_N = 0xfffffffffffffffffffffffffffffffebaaedce6af48a03bbfd25e8cd0364141"

definition IsValidPrivateKey :: "bytes \<Rightarrow> bool" where
  "IsValidPrivateKey key \<longleftrightarrow>
     (let k = be_val key in length key = 32 \<and> k \<noteq> 0 \<and> k < secp256k1_N)"

section \<open>Bip32Key\<close>

text \<open>
  The struct \<^verbatim>\<open>Bip32Key\<close> holds the pointer. The functions that a script calls with plain
  arguments receive them already converted by goja.
\<close>

record 'k Bip32Key = bk_key :: "'k option"

definition NewBip32Key :: "'k option \<Rightarrow> 'k Bip32Key" where
  "NewBip32Key key = \<lparr>bk_key = key\<rparr>"

definition B58ToBip32Key :: "'k bip32_api \<Rightarrow> string \<Rightarrow> 'k Bip32Key res" where
  "B58ToBip32Key K data =
     (case bip_B58Deserialize K data of
        (key, Some err) \<Rightarrow> Inl (PSymbol (''error in B58ToBip32Key: '' @ err))
      | (key, None) \<Rightarrow> Inr \<lparr>bk_key = key\<rparr>)"

definition BufToBip32Key :: "'k bip32_api \<Rightarrow> 'x jsval list \<Rightarrow> 'k Bip32Key res" where
  "BufToBip32Key K args = bind_res (GetOneArrayBuffer args) (\<lambda>buf.
     case bip_Deserialize K buf of
       (key, Some err) \<Rightarrow> Inl (PSymbol (''error in BufToBip32Key: '' @ err))
     | (key, None) \<Rightarrow> Inr \<lparr>bk_key = key\<rparr>)"

definition deref :: "'k option \<Rightarrow> 'k res" where
  "deref key = (case key of None \<Rightarrow> Inl PNilDeref | Some k \<Rightarrow> Inr k)"

definition bk_B58Serialize :: "'k bip32_api \<Rightarrow> 'k Bip32Key \<Rightarrow> string res" where
  "bk_B58Serialize K key = bind_res (deref (bk_key key)) (\<lambda>k. Inr (bip_B58Serialize K k))"

definition bk_NewChildKey :: "'k bip32_api \<Rightarrow> 'k Bip32Key \<Rightarrow> uint32 \<Rightarrow> 'k Bip32Key res" where
  "bk_NewChildKey K key childIdx = bind_res (NewChildKey K (bk_key key) childIdx) (\<lambda>(k, err).
     case err of
       Some e \<Rightarrow> Inl (PSymbol (''error in NewChildKey: '' @ e))
     | None \<Rightarrow> Inr \<lparr>bk_key = k\<rparr>)"

definition bk_PublicKey :: "'k bip32_api \<Rightarrow> 'k Bip32Key \<Rightarrow> 'k Bip32Key res" where
  "bk_PublicKey K key = bind_res (deref (bk_key key)) (\<lambda>k. Inr \<lparr>bk_key = Some (bip_PublicKey K k)\<rparr>)"

definition bk_Serialize :: "'k bip32_api \<Rightarrow> 'k Bip32Key \<Rightarrow> 'x jsval list \<Rightarrow> bytes res" where
  "bk_Serialize K key args = bind_res (deref (bk_key key)) (\<lambda>k. Inr (bip_Serialize K k))"

definition bk_IsPrivate :: "'k bip32_api \<Rightarrow> 'k Bip32Key \<Rightarrow> bool res" where
  "bk_IsPrivate K key = bind_res (deref (bk_key key)) (\<lambda>k. Inr (bip_IsPrivate K k))"

text \<open>\<open>newPriv\<close> is the third-party \<^verbatim>\<open>ecies.NewPrivateKeyFromBytes\<close>.\<close>

definition bk_ToPrivateKey :: "'k bip32_api \<Rightarrow> (bytes \<Rightarrow> 'p) \<Rightarrow> 'k Bip32Key \<Rightarrow> 'p res" where
  "bk_ToPrivateKey K newPriv key = bind_res (deref (bk_key key)) (\<lambda>k.
     if \<not> bip_IsPrivate K k then Inl (PSymbol (''It'' @ [CHR 0x27] @ ''s not private''))
     else Inr (newPriv (bip_Key K k)))"

text \<open>\<^verbatim>\<open>copy(hash[:], bz)\<close> takes at most 32 bytes and leaves the rest zero.\<close>

definition copy32 :: "bytes \<Rightarrow> bytes" where
  "copy32 bz = take 32 bz @ replicate (32 - length bz) 0"

definition bk_DeriveWithBytes32 ::
  "'k bip32_api \<Rightarrow> 'k Bip32Key \<Rightarrow> 'x jsval list \<Rightarrow> 'k Bip32Key res option" where
  "bk_DeriveWithBytes32 K key args =
     (case GetOneArrayBuffer args of
        Inl p \<Rightarrow> Some (Inl p)
      | Inr bz \<Rightarrow>
          map_option (map_sum id NewBip32Key) (DeriveKey K (bk_key key) (copy32 bz)))"

text \<open>The loop of \<^verbatim>\<open>Derive\<close> over its five arguments, \<open>i\<close> being the index.\<close>

primrec derive_args ::
  "'k bip32_api \<Rightarrow> nat \<Rightarrow> 'x jsval list \<Rightarrow> 'k option \<Rightarrow> 'k option res" where
  "derive_args K i [] child = Inr child"
| "derive_args K i (arg # args) child =
     (case arg of
        JInt n \<Rightarrow>
          if sint n < 0 \<or> 4294967295 < sint n
          then Inl (PSymbol (''The argument #'' @ [hex_digit i] @ '' is not uint32''))
          else bind_res (NewChildKey K child (ucast n)) (\<lambda>(child, err).
            case err of
              Some e \<Rightarrow> Inl (PValue (''Error in Derive: '' @ e))
            | None \<Rightarrow> derive_args K (i + 1) args child)
      | _ \<Rightarrow> Inl (PSymbol (''The argument #'' @ [hex_digit i] @ '' is not uint32'')))"

definition bk_Derive :: "'k bip32_api \<Rightarrow> 'k Bip32Key \<Rightarrow> 'x jsval list \<Rightarrow> 'k Bip32Key res" where
  "bk_Derive K key args =
     (if length args \<noteq> 5 then Inl IncorrectArgumentCount
      else bind_res (derive_args K 0 args (bk_key key)) (\<lambda>child. Inr \<lparr>bk_key = child\<rparr>))"

section \<open>Specification of the path\<close>

text \<open>The nine indices below 2^31 of a hash, least significant first, and a walk along indices.\<close>

definition path_of :: "bytes \<Rightarrow> nat list" where
  "path_of hash = map (\<lambda>i. be_val hash div (2 ^ 31) ^ i mod 2 ^ 31) [0 ..< 9]"

fun child_walk :: "'k bip32_api \<Rightarrow> 'k \<Rightarrow> nat list \<Rightarrow> 'k option" where
  "child_walk K k [] = Some k"
| "child_walk K k (i # is) =
     (case bip_NewChildKey K k (of_nat i) of
        (Some c, None) \<Rightarrow> child_walk K c is
      | _ \<Rightarrow> None)"

section \<open>Behaviour over the documented package\<close>

definition digits31 :: "nat \<Rightarrow> nat \<Rightarrow> nat list" where
  "digits31 d n = map (\<lambda>i. n div (2 ^ 31) ^ i mod 2 ^ 31) [0 ..< d]"

lemma digits31_Suc: "digits31 (Suc d) n = n mod 2 ^ 31 # digits31 d (n div 2 ^ 31)"
proof -
  have "[0 ..< Suc d] = 0 # map Suc [0 ..< d]" by (simp add: map_Suc_upt upt_conv_Cons)
  then show ?thesis by (simp add: digits31_def comp_def div_mult2_eq)
qed

lemma digits31_bound: "x \<in> set (digits31 d n) \<Longrightarrow> x < 2 ^ 31"
  by (auto simp: digits31_def)

text \<open>The number is recovered from its digits.\<close>

definition digits31_val :: "nat list \<Rightarrow> nat" where
  "digits31_val ds = foldr (\<lambda>x a. x + 2 ^ 31 * a) ds 0"

lemma digits31_val: "n < (2 ^ 31) ^ d \<Longrightarrow> digits31_val (digits31 d n) = n"
proof (induction d arbitrary: n)
  case (Suc d)
  have "n div 2 ^ 31 < (2 ^ 31) ^ d"
    using Suc.prems by (intro less_mult_imp_div_less) (simp add: mult.commute)
  from Suc.IH [OF this] show ?case
    by (simp only: digits31_Suc) (simp add: digits31_val_def mod_mult_div_eq)
qed (simp add: digits31_val_def digits31_def)

lemma derive_args_uint32:
  "derive_args K i args ck = Inr r \<Longrightarrow> \<forall>a \<in> set args. \<exists>n. a = JInt n \<and> 0 \<le> sint n \<and> sint n < 2 ^ 32"
proof (induction args arbitrary: i ck)
  case (Cons x args)
  then obtain n where x: "x = JInt n" by (cases x) auto
  with Cons.prems have n: "0 \<le> sint n" "sint n \<le> 4294967295" by (auto split: if_splits)
  with Cons.prems x obtain c where "derive_args K (i + 1) args c = Inr r"
    by (auto split: if_splits option.splits)
  from Cons.IH [OF this] x n show ?case by auto
qed simp

lemma uint32_arg:
  "n < 2 ^ 32 \<Longrightarrow> sint (of_nat n :: int64) = int n \<and> (ucast (of_nat n :: int64) :: uint32) = of_nat n"
  using sint_of_int64 [of "int n"] by (simp add: unsigned_of_nat take_bit_nat_eq_self)

context bip32
begin

lemma retry_result:
  "derive_retry K i u (Some k) a m =
     Some (case bip_NewChildKey K k (if i = 8 then m + a else m) of
             (Some c, None) \<Rightarrow> Inr (Some c, a)
           | _ \<Rightarrow> Inl PNilDeref)"
proof -
  obtain r e where re: "bip_NewChildKey K k (if i = 8 then m + a else m) = (r, e)" by fastforce
  show ?thesis
  proof (cases e)
    case None
    with NewChildKey_result [OF re] obtain c where "r = Some c" by auto
    with re None show ?thesis by (subst derive_retry.simps) (simp add: NewChildKey_def)
  next
    case (Some err)
    with NewChildKey_result [OF re] have r: "r = None" by auto
    have "derive_retry K i u None (a + u) (m + 1) = Some (Inl PNilDeref)"
      by (subst derive_retry.simps) (simp add: NewChildKey_def)
    with re r Some show ?thesis by (subst derive_retry.simps) (simp add: NewChildKey_def)
  qed
qed

text \<open>As no retry succeeds, \<open>lastAdd\<close> is zero whenever a further depth is reached.\<close>

lemma derive_loop_walk:
  "derive_loop K d n 0 u (Some k) =
     Some (case child_walk K k (digits31 d n) of Some c \<Rightarrow> Inr (Some c) | None \<Rightarrow> Inl PNilDeref)"
proof (induction d arbitrary: n u k)
  case 0
  then show ?case by (simp add: digits31_def)
next
  case (Suc d)
  let ?i = "of_nat (n mod 2 ^ 31) :: uint32"
  obtain r e where re: "bip_NewChildKey K k ?i = (r, e)" by fastforce
  have step: "derive_retry K (8 - d) u (Some k) 0 ?i =
      Some (case bip_NewChildKey K k ?i of (Some c, None) \<Rightarrow> Inr (Some c, 0) | _ \<Rightarrow> Inl PNilDeref)"
    by (simp only: retry_result add_0_right if_cancel)
  show ?case
  proof (cases e)
    case None
    with NewChildKey_result [OF re] obtain c where c: "r = Some c" by auto
    have s: "derive_retry K (8 - d) u (Some k) 0 ?i = Some (Inr (Some c, 0))"
      using step re None c by simp
    have "derive_loop K (Suc d) n 0 u (Some k) = derive_loop K d (n div 2 ^ 31) 0 (push_bit 3 u) (Some c)"
      by (simp only: derive_loop.simps s option.case sum.case prod.case)
    moreover have "child_walk K k (digits31 (Suc d) n) = child_walk K c (digits31 d (n div 2 ^ 31))"
      by (simp only: digits31_Suc child_walk.simps re None c prod.case option.case)
    ultimately show ?thesis by (simp only: Suc.IH)
  next
    case (Some err)
    with NewChildKey_result [OF re] have r: "r = None" by auto
    have s: "derive_retry K (8 - d) u (Some k) 0 ?i = Some (Inl PNilDeref)"
      using step re Some r by simp
    have "derive_loop K (Suc d) n 0 u (Some k) = Some (Inl PNilDeref)"
      by (simp only: derive_loop.simps s option.case sum.case)
    moreover have "child_walk K k (digits31 (Suc d) n) = None"
      by (simp only: digits31_Suc child_walk.simps re Some r prod.case option.case)
    ultimately show ?thesis by simp
  qed
qed

lemma derive_args_walk:
  assumes "\<forall>n \<in> set ns. n < 2 ^ 32"
  shows "case child_walk K k ns of
      Some c \<Rightarrow> derive_args K i (map (\<lambda>n. JInt (of_nat n)) ns :: 'x jsval list) (Some k) = Inr (Some c)
    | None \<Rightarrow> \<exists>e. derive_args K i (map (\<lambda>n. JInt (of_nat n)) ns :: 'x jsval list) (Some k)
             = Inl (PValue (''Error in Derive: '' @ e))"
  using assms
proof (induction ns arbitrary: i k)
  case (Cons n ns)
  obtain r e where re: "bip_NewChildKey K k (of_nat n) = (r, e)" by fastforce
  have n: "sint (of_nat n :: int64) = int n" "(ucast (of_nat n :: int64) :: uint32) = of_nat n" "n < 2 ^ 32"
    using uint32_arg [of n] Cons.prems by auto
  show ?case
  proof (cases e)
    case None
    with NewChildKey_result [OF re] obtain c where c: "r = Some c" by auto
    have A: "derive_args K i (map (\<lambda>n. JInt (of_nat n)) (n # ns) :: 'x jsval list) (Some k)
        = derive_args K (i + 1) (map (\<lambda>n. JInt (of_nat n)) ns :: 'x jsval list) (Some c)"
      using n re None c by (simp add: NewChildKey_def)
    have W: "child_walk K k (n # ns) = child_walk K c ns" using re None c by simp
    show ?thesis unfolding A W by (rule Cons.IH) (use Cons.prems in simp)
  next
    case (Some err)
    with NewChildKey_result [OF re] have "r = None" by auto
    with Some re n show ?thesis by (simp add: NewChildKey_def)
  qed
qed simp

lemma walk_public:
  assumes "\<forall>i \<in> set is'. i < 2 ^ 31" "child_walk K k is' = Some c"
  shows "child_walk K (bip_PublicKey K k) is' = Some (bip_PublicKey K c)"
  using assms
proof (induction is' arbitrary: k)
  case (Cons i is')
  from Cons.prems(2) obtain c1 where c1: "bip_NewChildKey K k (of_nat i) = (Some c1, None)"
    "child_walk K c1 is' = Some c" by (auto split: prod.splits option.splits)
  have "unat (of_nat i :: uint32) = i" using Cons.prems(1) by (simp add: unat_of_nat)
  then have "(of_nat i :: uint32) < 2 ^ 31" using Cons.prems(1) by (simp add: word_less_nat_alt)
  from NewChildKey_public [OF this c1(1)] Cons.IH [OF _ c1(2)] Cons.prems(1) show ?case by simp
qed simp

end

section \<open>An instance of the package\<close>

text \<open>A key that records its path: a private flag and the indices walked.\<close>

fun words32 :: "bytes \<Rightarrow> uint32 list" where
  "words32 (a # b # c # d # r) = of_nat (be_val [a, b, c, d]) # words32 r"
| "words32 _ = []"

definition path_bip32 :: "(bool \<times> uint32 list) bip32_api" where
  "path_bip32 = \<lparr>
     bip_NewChildKey = (\<lambda>(p, path) i.
       if \<not> p \<and> 2 ^ 31 \<le> i then (None, Some ''Can not create hardened child for public key'')
       else (Some (p, path @ [i]), None)),
     bip_PublicKey = (\<lambda>(p, path). (False, path)),
     bip_Serialize = (\<lambda>(p, path). (if p then 1 else 0) # concat (map (\<lambda>i. be_bytes 4 (unat i)) path)),
     bip_Deserialize = (\<lambda>b. case b of [] \<Rightarrow> (None, Some ''empty'') | x # r \<Rightarrow> (Some (x = 1, words32 r), None)),
     bip_B58Serialize = (\<lambda>(p, path). ''''),
     bip_B58Deserialize = (\<lambda>s. (None, Some ''unsupported'')),
     bip_IsPrivate = fst,
     bip_Key = (\<lambda>(p, path). concat (map (\<lambda>i. be_bytes 4 (unat i)) path)) \<rparr>"

lemma words32_bytes: "words32 (concat (map (\<lambda>i. be_bytes 4 (unat i)) path)) = path"
proof (induction path)
  case (Cons i path)
  have "length (be_bytes 4 (unat i)) = Suc (Suc (Suc (Suc 0)))" by simp
  then obtain a b c d where e: "be_bytes 4 (unat i) = [a, b, c, d]" by (auto simp only: length_Suc_conv length_0_conv)
  have "unat i < 2 ^ LENGTH(32)" by (rule unsigned_less)
  then have "be_val [a, b, c, d] = unat i" using be_val_be_bytes [of 4 "unat i"] e by simp
  with Cons e show ?case by simp
qed simp

interpretation path_bip32: bip32 path_bip32
  by unfold_locales (auto simp: path_bip32_def words32_bytes not_le split: if_splits)

lemma bip32_path: "bip32 path_bip32"
  by (rule path_bip32.bip32_axioms)

section \<open>Properties\<close>

text \<open>
  C5: \<^verbatim>\<open>DeriveKey\<close> always ends, although its inner loop has no bound. On a non-nil key it walks
  exactly the nine child indices of the hash, each below 2^31; when a child on the way is invalid
  the announced retry does not happen (the failed call has already overwritten \<^verbatim>\<open>key\<close> with nil) and
  the function panics with a nil dereference.
\<close>

theorem derive_key_walk:
  assumes "bip32 K"
  shows "DeriveKey K (Some k) hash = Some (case child_walk K k (path_of hash) of
      Some c \<Rightarrow> Inr (Some c) | None \<Rightarrow> Inl PNilDeref)
    \<and> length (path_of hash) = 9 \<and> (\<forall>i \<in> set (path_of hash). i < 2 ^ 31)"
proof -
  have P: "path_of hash = digits31 9 (be_val hash)" by (simp only: path_of_def digits31_def)
  show ?thesis
    unfolding P DeriveKey_def
    by (intro conjI ballI bip32.derive_loop_walk [OF assms]) (simp add: digits31_def, rule digits31_bound)
qed

theorem derive_key_walk_witness:
  "\<exists>c. DeriveKey path_bip32 (Some (True, [])) (replicate 31 0 @ [5]) = Some (Inr (Some c))
    \<and> length (path_of (replicate 31 0 @ [5])) = 9"
proof -
  have walk: "child_walk path_bip32 (True, p) is' = Some (True, p @ map of_nat is')" for p is'
    by (induction is' arbitrary: p) (simp_all add: path_bip32_def)
  from derive_key_walk [OF bip32_path, of "(True, [])" "replicate 31 0 @ [5]"] show ?thesis
    unfolding walk option.case by blast
qed

text \<open>
  different hashes get different paths, since the nine 31-bit indices determine the 32 bytes;
  and derivation commutes with publishing: from the extended public key alone \<^verbatim>\<open>DeriveKey\<close> reaches the
  public key of what it derives from the extended private key.
\<close>

theorem derive_key_separates_and_publishes:
  assumes "bip32 K" "length h1 = 32" "length h2 = 32"
  shows "(path_of h1 = path_of h2 \<longleftrightarrow> h1 = h2)
    \<and> (DeriveKey K (Some k) h1 = Some (Inr (Some c)) \<longrightarrow>
        DeriveKey K (Some (bip_PublicKey K k)) h1 = Some (Inr (Some (bip_PublicKey K c))))"
proof -
  have P: "path_of h = digits31 9 (be_val h)" for h by (simp only: path_of_def digits31_def)
  have v: "digits31_val (path_of h) = be_val h" if "length h = 32" for h
  proof -
    have "(256 :: nat) ^ 32 \<le> (2 ^ 31) ^ 9" by simp
    with be_val_less [of h] that show ?thesis unfolding P by (intro digits31_val) simp
  qed
  have "path_of h1 = path_of h2 \<longleftrightarrow> h1 = h2"
    using v [OF assms(2)] v [OF assms(3)] be_bytes_be_val [of h1] be_bytes_be_val [of h2] assms(2,3) by metis
  moreover have "DeriveKey K (Some (bip_PublicKey K k)) h1 = Some (Inr (Some (bip_PublicKey K c)))"
    if "DeriveKey K (Some k) h1 = Some (Inr (Some c))"
  proof -
    have D: "DeriveKey K (Some k) h1 = Some (case child_walk K k (digits31 9 (be_val h1)) of
        Some c \<Rightarrow> Inr (Some c) | None \<Rightarrow> Inl PNilDeref)" for k
      unfolding DeriveKey_def by (rule bip32.derive_loop_walk [OF assms(1)])
    from that have "child_walk K k (digits31 9 (be_val h1)) = Some c"
      by (simp add: D split: option.splits)
    from bip32.walk_public [OF assms(1) _ this] digits31_bound show ?thesis by (auto simp: D)
  qed
  ultimately show ?thesis by blast
qed

theorem derive_key_separates_and_publishes_witness:
  "path_of (replicate 32 0) \<noteq> path_of (replicate 32 1)"
proof -
  have "(0 :: byte) \<noteq> 1" by simp
  then have "replicate 32 (0 :: byte) \<noteq> replicate 32 1" by (metis replicate_eq_replicate zero_neq_numeral)
  then show ?thesis
    using derive_key_separates_and_publishes [OF bip32_path, of "replicate 32 0" "replicate 32 1"] by simp
qed

text \<open>
  \<^verbatim>\<open>Derive\<close> of a script's key takes exactly five arguments; if all are integers in the range of
  \<^verbatim>\<open>uint32\<close> it is the walk over them in order, and it panics when one is not or a child is invalid.
  \<^verbatim>\<open>DeriveWithBytes32\<close> is \<^verbatim>\<open>DeriveKey\<close> on the first 32 bytes of the buffer, padded with zeros.
\<close>

theorem bip32key_derive:
  fixes args :: "'x jsval list"
  assumes "bip32 K"
  shows "((\<exists>r. bk_Derive K \<lparr>bk_key = Some k\<rparr> args = Inr r) \<longrightarrow> length args = 5
        \<and> (\<forall>a \<in> set args. \<exists>n. a = JInt n \<and> 0 \<le> sint n \<and> sint n < 2 ^ 32))
    \<and> (length ns = 5 \<and> (\<forall>n \<in> set ns. n < 2 ^ 32) \<longrightarrow>
        (case child_walk K k ns of
           Some c \<Rightarrow> bk_Derive K \<lparr>bk_key = Some k\<rparr> (map (\<lambda>n. JInt (of_nat n)) ns :: 'x jsval list)
             = Inr \<lparr>bk_key = Some c\<rparr>
         | None \<Rightarrow> \<exists>e. bk_Derive K \<lparr>bk_key = Some k\<rparr> (map (\<lambda>n. JInt (of_nat n)) ns :: 'x jsval list)
             = Inl (PValue (''Error in Derive: '' @ e))))
    \<and> bk_DeriveWithBytes32 K \<lparr>bk_key = Some k\<rparr> [JBuf b :: 'x jsval]
        = map_option (map_sum id NewBip32Key) (DeriveKey K (Some k) (take 32 (b @ replicate 32 0)))"
proof -
  have c: "copy32 b = take 32 (b @ replicate 32 0)" by (simp add: copy32_def)
  have 1: "(\<exists>r. bk_Derive K \<lparr>bk_key = Some k\<rparr> args = Inr r) \<longrightarrow> length args = 5
        \<and> (\<forall>a \<in> set args. \<exists>n. a = JInt n \<and> 0 \<le> sint n \<and> sint n < 2 ^ 32)"
    using derive_args_uint32 [of K 0 args "Some k"] by (auto simp: bk_Derive_def split: if_splits)
  have 2: "length ns = 5 \<and> (\<forall>n \<in> set ns. n < 2 ^ 32) \<longrightarrow>
        (case child_walk K k ns of
           Some c \<Rightarrow> bk_Derive K \<lparr>bk_key = Some k\<rparr> (map (\<lambda>n. JInt (of_nat n)) ns :: 'x jsval list)
             = Inr \<lparr>bk_key = Some c\<rparr>
         | None \<Rightarrow> \<exists>e. bk_Derive K \<lparr>bk_key = Some k\<rparr> (map (\<lambda>n. JInt (of_nat n)) ns :: 'x jsval list)
             = Inl (PValue (''Error in Derive: '' @ e)))"
    using bip32.derive_args_walk [OF assms, where 'x = 'x and ns = ns and k = k and i = 0]
    by (cases "child_walk K k ns") (auto simp: bk_Derive_def)
  have 3: "bk_DeriveWithBytes32 K \<lparr>bk_key = Some k\<rparr> [JBuf b :: 'x jsval]
        = map_option (map_sum id NewBip32Key) (DeriveKey K (Some k) (take 32 (b @ replicate 32 0)))"
    by (simp add: bk_DeriveWithBytes32_def c)
  from 1 2 3 show ?thesis by (intro conjI)
qed

theorem bip32key_derive_witness:
  "\<exists>r. bk_Derive path_bip32 \<lparr>bk_key = Some (True, [])\<rparr> (map (\<lambda>n. JInt (of_nat n)) [44, 0, 0, 0, 7] :: unit jsval list) = Inr r"
proof -
  have "child_walk path_bip32 (True, []) [44, 0, 0, 0, 7] = Some (True, [44, 0, 0, 0, 7])"
    by (simp add: path_bip32_def)
  then show ?thesis
    using bip32key_derive [OF bip32_path, where 'x = unit, of "(True, [])" "[]" "[44, 0, 0, 0, 7]" "[]"]
    by auto
qed

end
