(* ===== verification/Attestation.thy ===== *)
theory Attestation
  imports GoStd
begin

text \<open>
  The checks on attestation reports: \<^verbatim>\<open>VerifyPeerReport\<close>, \<^verbatim>\<open>VerifyJWT\<close> and \<^verbatim>\<open>GetSelfReportAndCheck\<close> of
  \<^verbatim>\<open>keygrantor/keygrantor.go\<close> and \<^verbatim>\<open>VerifyEnclaveReportBz\<close> of \<^verbatim>\<open>script/enclaveutil/enclave.go\<close>. The
  third-party package \<^verbatim>\<open>ego\<close>, which talks to the enclave hardware and to the attestation providers,
  is the parameter \<open>E\<close>.
\<close>

section \<open>The package ego\<close>

record attestation_report =
  rep_Data :: bytes
  rep_SecurityVersion :: nat
  rep_Debug :: bool
  rep_UniqueID :: bytes
  rep_SignerID :: bytes
  rep_ProductID :: bytes
  rep_TCBStatus :: nat

text \<open>\<open>Inl\<close> is a non-nil error; \<open>ego_UpToDate\<close> is the constant \<^verbatim>\<open>tcbstatus.UpToDate\<close>.\<close>

record ego_api =
  ego_UpToDate :: nat
  ego_VerifyRemoteReport :: "bytes \<Rightarrow> string + attestation_report"
  ego_VerifyAzureAttestationToken :: "string \<Rightarrow> string \<Rightarrow> string + attestation_report"
  ego_GetSelfReport :: "string + attestation_report"
  ego_GetRemoteReport :: "bytes \<Rightarrow> string + bytes"
  ego_CreateAzureAttestationToken :: "bytes \<Rightarrow> string \<Rightarrow> string + string"

section \<open>keygrantor.go\<close>

definition ErrInDebugMode :: string where "ErrInDebugMode = ''Cannot work in debug mode''"
definition ErrTCBStatus :: string where "ErrTCBStatus = ''TCB is not up-to-date''"
definition ErrUniqueIDMismatch :: string where "ErrUniqueIDMismatch = ''UniqueID Mismatch''"
definition ErrSignerIDMismatch :: string where "ErrSignerIDMismatch = ''SignerID Mismatch''"
definition ErrProductIDMismatch :: string where "ErrProductIDMismatch = ''ProductID Mismatch''"

definition AttestationProviderURLs :: "string list" where
  "AttestationProviderURLs =
    [''https://sharedeus2.eus2.attest.azure.net'',
     ''https://sharedcus.cus.attest.azure.net'',
     ''https://shareduks.uks.attest.azure.net'',
     ''https://sharedeus.eus.attest.azure.net'',
     ''https://sharedcae.cae.attest.azure.net'']"

text \<open>An \<^verbatim>\<open>error\<close> result is an option, \<open>None\<close> being nil.\<close>

definition VerifyPeerReport :: "ego_api \<Rightarrow> attestation_report \<Rightarrow> attestation_report \<Rightarrow> string option" where
  "VerifyPeerReport E report selfReport =
     (if rep_Debug report then Some ErrInDebugMode
      else if rep_TCBStatus report \<noteq> ego_UpToDate E then Some ErrTCBStatus
      else if rep_UniqueID selfReport \<noteq> rep_UniqueID report then Some ErrUniqueIDMismatch
      else if rep_SignerID selfReport \<noteq> rep_SignerID report then Some ErrSignerIDMismatch
      else if rep_ProductID selfReport \<noteq> rep_ProductID report then Some ErrProductIDMismatch
      else None)"

text \<open>
  The loop over the providers. The \<^verbatim>\<open>err\<close> it assigns is a new variable of the loop body, so after
  the loop the named result \<^verbatim>\<open>err\<close> still has its initial value nil.
\<close>

primrec verify_jwt_loop ::
  "ego_api \<Rightarrow> string \<Rightarrow> attestation_report \<Rightarrow> string list \<Rightarrow> string option" where
  "verify_jwt_loop E token report [] = None"
| "verify_jwt_loop E token report (url # urls) =
     (case ego_VerifyAzureAttestationToken E token url of
        Inr tokenReport \<Rightarrow> VerifyPeerReport E tokenReport report
      | Inl err \<Rightarrow> verify_jwt_loop E token report urls)"

definition VerifyJWT :: "ego_api \<Rightarrow> string \<Rightarrow> attestation_report \<Rightarrow> string option" where
  "VerifyJWT E token report = verify_jwt_loop E token report AttestationProviderURLs"

definition GetSelfReportAndCheck :: "ego_api \<Rightarrow> attestation_report res" where
  "GetSelfReportAndCheck E =
     (case ego_GetSelfReport E of
        Inl err \<Rightarrow> Inl (PError err)
      | Inr selfReport \<Rightarrow>
          if rep_Debug selfReport then Inl (PError ErrInDebugMode)
          else (case ego_GetRemoteReport E [1] of
             Inl err \<Rightarrow> Inl (PError err)
           | Inr reportBytes \<Rightarrow>
               (case ego_VerifyRemoteReport E reportBytes of
                  Inl err \<Rightarrow> Inl (PError err)
                | Inr report \<Rightarrow>
                    (case VerifyPeerReport E report selfReport of
                       Some err \<Rightarrow> Inl (PError err)
                     | None \<Rightarrow> Inr selfReport))))"

section \<open>enclaveutil\<close>

text \<open>
  \<^verbatim>\<open>report.Data[:len(hash)]\<close> panics on a shorter slice and \<^verbatim>\<open>binary.LittleEndian.Uint16\<close> on fewer
  than two bytes.
\<close>

definition VerifyEnclaveReportBz ::
  "ego_api \<Rightarrow> (bytes \<Rightarrow> bytes) \<Rightarrow> bytes \<Rightarrow> bytes \<Rightarrow> bytes \<Rightarrow> bytes \<Rightarrow> string option res" where
  "VerifyEnclaveReportBz E sha256 pubKey reportBz signerIDBz uniqueIDBz =
     (case ego_VerifyRemoteReport E reportBz of
        Inl err \<Rightarrow> Inr (Some err)
      | Inr report \<Rightarrow>
          if rep_SignerID report \<noteq> signerIDBz
          then Inr (Some (''signer-id not match! expected: '' @ hex_EncodeToString signerIDBz
                 @ '', got: '' @ hex_EncodeToString (rep_SignerID report)))
          else if rep_UniqueID report \<noteq> uniqueIDBz
          then Inr (Some (''unique-id not match! expected: '' @ hex_EncodeToString uniqueIDBz
                 @ '', got: '' @ hex_EncodeToString (rep_UniqueID report)))
          else
            let hash = sha256 pubKey in
            if length (rep_Data report) < length hash then Inl PSliceBounds
            else if take (length hash) (rep_Data report) \<noteq> hash
            then Inr (Some (''report data does not match the pubKey'' @ [CHR 0x27] @ ''s hash''))
            else if rep_SecurityVersion report < 2 then Inr (Some ''invalid security version'')
            else if length (rep_ProductID report) < 2 then Inl PIndexOutOfRange
            else if be_val (rev (take 2 (rep_ProductID report))) \<noteq> 1 then Inr (Some ''invalid product ID'')
            else if rep_Debug report then Inr (Some ''should not open debug mode'')
            else Inr None)"

section \<open>Lemmas\<close>

text \<open>What a report must satisfy to count as one of the same enclave.\<close>

definition same_enclave :: "ego_api \<Rightarrow> attestation_report \<Rightarrow> attestation_report \<Rightarrow> bool" where
  "same_enclave E r s \<longleftrightarrow> \<not> rep_Debug r \<and> rep_TCBStatus r = ego_UpToDate E
     \<and> rep_UniqueID r = rep_UniqueID s \<and> rep_SignerID r = rep_SignerID s \<and> rep_ProductID r = rep_ProductID s"

lemma VerifyPeerReport_None [simp]: "VerifyPeerReport E r s = None \<longleftrightarrow> same_enclave E r s"
  by (auto simp: VerifyPeerReport_def same_enclave_def)

text \<open>The reports the providers in \<open>urls\<close> extract from a token, in order.\<close>

definition token_reports :: "ego_api \<Rightarrow> string \<Rightarrow> string list \<Rightarrow> attestation_report list" where
  "token_reports E token urls =
     List.map_filter (\<lambda>url. case ego_VerifyAzureAttestationToken E token url of
        Inl _ \<Rightarrow> None | Inr r \<Rightarrow> Some r) urls"

lemma verify_jwt_loop_first:
  "verify_jwt_loop E token report urls =
     (case token_reports E token urls of [] \<Rightarrow> None | r # _ \<Rightarrow> VerifyPeerReport E r report)"
  by (induction urls) (auto simp: token_reports_def map_filter_simps split: sum.split)

text \<open>An instance for the witnesses: reports are carried as their data bytes.\<close>

definition mini_report :: "bytes \<Rightarrow> attestation_report" where
  "mini_report d = \<lparr>rep_Data = d, rep_SecurityVersion = 2, rep_Debug = False, rep_UniqueID = [7],
     rep_SignerID = [8], rep_ProductID = [1, 0], rep_TCBStatus = 0\<rparr>"

definition mini_ego :: ego_api where
  "mini_ego = \<lparr>
     ego_UpToDate = 0,
     ego_VerifyRemoteReport = (\<lambda>b. Inr (mini_report (b @ replicate (64 - length b) 0))),
     ego_VerifyAzureAttestationToken = (\<lambda>token url.
       if token = ''good'' then Inr (mini_report []) else Inl ''bad token''),
     ego_GetSelfReport = Inr (mini_report []),
     ego_GetRemoteReport = (\<lambda>d. Inr d),
     ego_CreateAzureAttestationToken = (\<lambda>d url. Inr ''good'') \<rparr>"

lemma mini_same_enclave: "same_enclave mini_ego (mini_report d) (mini_report d')"
  by (simp add: same_enclave_def mini_report_def mini_ego_def)

lemma enclave_report_accepts:
  "VerifyEnclaveReportBz E sha256 pubKey reportBz signerIDBz uniqueIDBz = Inr None \<longleftrightarrow>
    (\<exists>r. ego_VerifyRemoteReport E reportBz = Inr r \<and> rep_SignerID r = signerIDBz \<and> rep_UniqueID r = uniqueIDBz
      \<and> (\<exists>rest. rep_Data r = sha256 pubKey @ rest) \<and> 2 \<le> rep_SecurityVersion r
      \<and> (\<exists>rest. rep_ProductID r = 1 # 0 # rest) \<and> \<not> rep_Debug r)"
proof -
  have data: "(length d \<ge> length h \<and> take (length h) d = h) \<longleftrightarrow> (\<exists>rest. d = h @ rest)" for d h :: bytes
    by (metis append_take_drop_id append_eq_conv_conj length_append le_add1)
  have pid: "(2 \<le> length p \<and> be_val (rev (take 2 p)) = 1) \<longleftrightarrow> (\<exists>rest. p = 1 # 0 # rest)" for p :: bytes
  proof (cases "2 \<le> length p")
    case True
    then obtain a b r where p: "p = a # b # r"
      by (cases p; cases "tl p") (auto simp: numeral_2_eq_2)
    have v: "be_val [b, a] = unat b * 256 + unat a"
      by (simp add: be_val_def)
    have one: "x * 256 + y = 1 \<longleftrightarrow> y = 1 \<and> x = 0" for x y :: nat by (cases x) auto
    have "be_val [b, a] = 1 \<longleftrightarrow> a = 1 \<and> b = 0"
      unfolding v one word_unat_eq_iff [of a 1] word_unat_eq_iff [of b 0] by simp
    then show ?thesis unfolding p by simp
  qed auto
  show ?thesis
  proof (cases "ego_VerifyRemoteReport E reportBz")
    case (Inr r)
    show ?thesis
      unfolding data [symmetric] pid [symmetric]
      using Inr by (auto simp: VerifyEnclaveReportBz_def Let_def)
  qed (simp add: VerifyEnclaveReportBz_def)
qed

section \<open>Properties\<close>

text \<open>
  C29: \<^verbatim>\<open>VerifyJWT\<close> accepts a token exactly if the first provider that can verify it extracts a report
  of the same enclave (not in debug mode, TCB up to date, equal unique, signer and product IDs), or
  if no provider can verify it at all: the error of the last provider is lost and the function
  returns nil.
\<close>

theorem verify_jwt_accepts:
  "VerifyJWT E token report = None \<longleftrightarrow>
    (case token_reports E token AttestationProviderURLs of
       [] \<Rightarrow> True
     | r # _ \<Rightarrow> \<not> rep_Debug r \<and> rep_TCBStatus r = ego_UpToDate E
         \<and> rep_UniqueID r = rep_UniqueID report \<and> rep_SignerID r = rep_SignerID report
         \<and> rep_ProductID r = rep_ProductID report)"
  by (simp add: VerifyJWT_def verify_jwt_loop_first same_enclave_def split: list.split)

text \<open>
  \<^verbatim>\<open>VerifyEnclaveReportBz\<close> accepts (no panic, nil error) exactly the remote reports the enclave
  package verifies that carry the expected signer and unique ID, begin with the hash of the public
  key, have security version at least 2 and product ID 1, and are not in debug mode.
\<close>

theorem verify_enclave_report_accepts:
  "VerifyEnclaveReportBz E sha256 pubKey reportBz signerIDBz uniqueIDBz = Inr None \<longleftrightarrow>
    (\<exists>r. ego_VerifyRemoteReport E reportBz = Inr r \<and> rep_SignerID r = signerIDBz \<and> rep_UniqueID r = uniqueIDBz
      \<and> (\<exists>rest. rep_Data r = sha256 pubKey @ rest) \<and> 2 \<le> rep_SecurityVersion r
      \<and> (\<exists>rest. rep_ProductID r = 1 # 0 # rest) \<and> \<not> rep_Debug r)"
  by (rule enclave_report_accepts)

end
