(* ===== verification/KeyGrantor.thy ===== *)
theory KeyGrantor
  imports Attestation KeyDerive
begin

text \<open>
  The key grantor: the HTTP handlers of \<^verbatim>\<open>keygrantor/cmd/main.go\<close> and the client
  \<^verbatim>\<open>GetKeyFromKeyGrantor\<close> of \<^verbatim>\<open>keygrantor/keygrantor.go\<close>. The third-party packages \<^verbatim>\<open>ego\<close>,
  \<^verbatim>\<open>go-bip32\<close> and \<^verbatim>\<open>ecies\<close> are parameters, as are SHA-256 and the JSON codec of the standard
  library, of which only the round trip matters here.
\<close>

section \<open>Packages and messages\<close>

record ('p, 's) ecies_api =
  ec_NewPublicKeyFromBytes :: "bytes \<Rightarrow> string + 'p"
  ec_PublicKeyBytes :: "'s \<Rightarrow> bytes"
  ec_Encrypt :: "'p \<Rightarrow> bytes \<Rightarrow> string + bytes"
  ec_Decrypt :: "'s \<Rightarrow> bytes \<Rightarrow> string + bytes"

record GetKeyParams =
  gk_Report :: string
  gk_JWT :: string

record json_api =
  json_Marshal :: "GetKeyParams \<Rightarrow> string + string"
  json_Unmarshal :: "string \<Rightarrow> string + GetKeyParams"

text \<open>
  A request as the handlers see it: the values of the query parameter \<^verbatim>\<open>pubkey\<close> and the result of
  reading the body. A handler writes a status and a body; a panic in it is caught by \<^verbatim>\<open>net/http\<close>,
  which drops the connection.
\<close>

record http_request =
  rq_pubkeys :: "string list"
  rq_body :: "string + string"

datatype http_response = Response nat string | Dropped go_panic

abbreviation StatusOK :: nat where "StatusOK \<equiv> 200"
abbreviation StatusBadRequest :: nat where "StatusBadRequest \<equiv> 400"
abbreviation StatusInternalServerError :: nat where "StatusInternalServerError \<equiv> 500"

section \<open>The server\<close>

text \<open>The two helpers either answer the request themselves (\<open>Inl\<close>) or return their result.\<close>

definition handleRequesterPubkey ::
  "('p, 's) ecies_api \<Rightarrow> http_request \<Rightarrow> http_response + 'p \<times> bytes" where
  "handleRequesterPubkey X r =
     (let pubkeys = rq_pubkeys r in
      if length pubkeys = 0 \<or> length (pubkeys ! 0) = 0
      then Inl (Response StatusBadRequest ''missing pubkey parameter'')
      else case hex_DecodeString (pubkeys ! 0) of
        None \<Rightarrow> Inl (Response StatusBadRequest ''pubkey hex string decode error'')
      | Some requesterPubkeyBz \<Rightarrow>
          (case ec_NewPublicKeyFromBytes X requesterPubkeyBz of
             Inl err \<Rightarrow> Inl (Response StatusBadRequest (''pubkey decode err: '' @ err))
           | Inr requesterPubKey \<Rightarrow> Inr (requesterPubKey, requesterPubkeyBz)))"

definition handleGetKeyParam ::
  "ego_api \<Rightarrow> json_api \<Rightarrow> (bytes \<Rightarrow> bytes) \<Rightarrow> http_request \<Rightarrow> bytes
     \<Rightarrow> http_response + attestation_report" where
  "handleGetKeyParam E J sha256 r pubkeyBz =
     (case rq_body r of
        Inl err \<Rightarrow> Inl (Response StatusInternalServerError ''failed to read request body'')
      | Inr body \<Rightarrow>
     (case json_Unmarshal J body of
        Inl err \<Rightarrow> Inl (Response StatusBadRequest ''failed to unmarshal request body'')
      | Inr params \<Rightarrow>
     (case hex_DecodeString (gk_Report params) of
        None \<Rightarrow> Inl (Response StatusBadRequest ''report decode error'')
      | Some reportBz \<Rightarrow>
     (case ego_VerifyRemoteReport E reportBz of
        Inl err \<Rightarrow> Inl (Response StatusBadRequest (''report check failed: '' @ err))
      | Inr report \<Rightarrow>
          if length (rep_Data report) \<noteq> 64
          then Inl (Response StatusBadRequest ''report data must 64bytes long'')
          else if sha256 pubkeyBz \<noteq> take 32 (rep_Data report)
          then Inl (Response StatusBadRequest ''pubkey not match the pubkey hash'')
          else (case VerifyJWT E (gk_JWT params) report of
             Some err \<Rightarrow> Inl (Response StatusBadRequest (''jwt token verify failed: '' @ err))
           | None \<Rightarrow> Inr report)))))"

text \<open>The reply with an encrypted key, shared by both handlers up to the error text.\<close>

definition reply_encrypted ::
  "('p, 's) ecies_api \<Rightarrow> string \<Rightarrow> 'p \<Rightarrow> bytes \<Rightarrow> http_response" where
  "reply_encrypted X msg pubKey keyBz =
     (case ec_Encrypt X pubKey keyBz of
        Inl err \<Rightarrow> Response StatusInternalServerError msg
      | Inr bz \<Rightarrow> Response StatusOK (hex_EncodeToString bz))"

text \<open>\<open>None\<close>: key derivation does not end.\<close>

definition handleKeyDerive ::
  "('p, 's) ecies_api \<Rightarrow> 'k bip32_api \<Rightarrow> (bytes \<Rightarrow> bytes) \<Rightarrow> 'k option \<Rightarrow> attestation_report \<Rightarrow> 'p
     \<Rightarrow> http_response option" where
  "handleKeyDerive X K sha256 ExtPrivKey report requesterPubKey =
     map_option (\<lambda>r.
       case bind_res r deref of
         Inl p \<Rightarrow> Dropped p
       | Inr derivedKey \<Rightarrow>
           reply_encrypted X ''failed to encrypted derivedKey'' requesterPubKey (bip_Serialize K derivedKey))
     (DeriveKey K ExtPrivKey (sha256 (rep_UniqueID report @ drop 32 (rep_Data report))))"

text \<open>The handler of \<^verbatim>\<open>/getkey\<close>.\<close>

definition handle_getkey ::
  "ego_api \<Rightarrow> ('p, 's) ecies_api \<Rightarrow> 'k bip32_api \<Rightarrow> json_api \<Rightarrow> (bytes \<Rightarrow> bytes) \<Rightarrow> 'k option
     \<Rightarrow> http_request \<Rightarrow> http_response option" where
  "handle_getkey E X K J sha256 ExtPrivKey r =
     (case handleRequesterPubkey X r of
        Inl resp \<Rightarrow> Some resp
      | Inr (pubKey, pubkeyBz) \<Rightarrow>
          (case handleGetKeyParam E J sha256 r pubkeyBz of
             Inl resp \<Rightarrow> Some resp
           | Inr report \<Rightarrow> handleKeyDerive X K sha256 ExtPrivKey report pubKey))"

text \<open>The handler of \<^verbatim>\<open>/xprv\<close>.\<close>

definition handle_xprv ::
  "ego_api \<Rightarrow> ('p, 's) ecies_api \<Rightarrow> 'k bip32_api \<Rightarrow> json_api \<Rightarrow> (bytes \<Rightarrow> bytes) \<Rightarrow> 'k option
     \<Rightarrow> http_request \<Rightarrow> http_response" where
  "handle_xprv E X K J sha256 ExtPrivKey r =
     (case handleRequesterPubkey X r of
        Inl resp \<Rightarrow> resp
      | Inr (pubKey, pubkeyBz) \<Rightarrow>
          (case handleGetKeyParam E J sha256 r pubkeyBz of
             Inl resp \<Rightarrow> resp
           | Inr report \<Rightarrow>
               (case GetSelfReportAndCheck E of
                  Inl p \<Rightarrow> Dropped p
                | Inr selfReport \<Rightarrow>
                    (case VerifyPeerReport E report selfReport of
                       Some err \<Rightarrow> Response StatusBadRequest (''report check failed: '' @ err)
                     | None \<Rightarrow>
                         (case deref ExtPrivKey of
                            Inl p \<Rightarrow> Dropped p
                          | Inr key \<Rightarrow>
                              reply_encrypted X ''failed to encrypted xprv'' pubKey (bip_Serialize K key))))))"

text \<open>The handlers of \<^verbatim>\<open>/xpub\<close> and \<^verbatim>\<open>/report\<close>; \<^verbatim>\<open>ExtPubKey\<close> is set once at the start.\<close>

definition handle_xpub :: "'k bip32_api \<Rightarrow> 'k option \<Rightarrow> http_response" where
  "handle_xpub K ExtPubKey =
     (case deref ExtPubKey of
        Inl p \<Rightarrow> Dropped p
      | Inr k \<Rightarrow> Response StatusOK (bip_B58Serialize K k))"

definition handle_report :: "ego_api \<Rightarrow> 'k bip32_api \<Rightarrow> (bytes \<Rightarrow> bytes) \<Rightarrow> 'k option \<Rightarrow> http_response" where
  "handle_report E K sha256 ExtPubKey =
     (case deref ExtPubKey of
        Inl p \<Rightarrow> Dropped p
      | Inr k \<Rightarrow>
          (case ego_GetRemoteReport E (sha256 (bytes_of_string (bip_B58Serialize K k))) of
             Inl err \<Rightarrow> Response StatusInternalServerError err
           | Inr report \<Rightarrow> Response StatusOK (hex_EncodeToString report)))"

section \<open>The client\<close>

text \<open>
  What \<^verbatim>\<open>http.Client.Post\<close> yields: an error, or a status with its text and the result of reading the
  body.
\<close>

type_synonym http_post = "string \<Rightarrow> string \<Rightarrow> string + (nat \<times> string) \<times> (string + string)"

definition HttpPost :: "http_post \<Rightarrow> string \<Rightarrow> string \<Rightarrow> string + string" where
  "HttpPost post url jsonReq =
     (case post url jsonReq of
        Inl err \<Rightarrow> Inl err
      | Inr ((code, status), body) \<Rightarrow>
          (case body of
             Inl err \<Rightarrow> Inl err
           | Inr body \<Rightarrow>
               if code \<noteq> StatusOK
               then Inl (''failed to get key, http status:'' @ status @ '', content:'' @ body)
               else Inr body))"

text \<open>The loop over the providers that creates the token; with none left the last error stays.\<close>

fun create_token :: "ego_api \<Rightarrow> bytes \<Rightarrow> string \<Rightarrow> string list \<Rightarrow> string + string" where
  "create_token E data err [] = Inl err"
| "create_token E data err (url # urls) =
     (case ego_CreateAzureAttestationToken E data url of
        Inr token \<Rightarrow> Inr token
      | Inl err \<Rightarrow> create_token E data err urls)"

text \<open>
  \<^verbatim>\<open>GetKeyFromKeyGrantor\<close> with the private key it generates as an argument. \<^verbatim>\<open>HttpPost\<close> never returns a
  nil body without an error, so the check for one has no branch here.
\<close>

definition GetKeyFromKeyGrantor ::
  "ego_api \<Rightarrow> ('p, 's) ecies_api \<Rightarrow> 'k bip32_api \<Rightarrow> json_api \<Rightarrow> (bytes \<Rightarrow> bytes) \<Rightarrow> http_post
     \<Rightarrow> 's \<Rightarrow> string \<Rightarrow> bytes \<Rightarrow> string + 'k option" where
  "GetKeyFromKeyGrantor E X K J sha256 post privKey keyGrantorUrl clientData =
     (let pubkey = ec_PublicKeyBytes X privKey;
          data = sha256 pubkey @ clientData in
      case ego_GetRemoteReport E data of
        Inl err \<Rightarrow> Inl (''failed to get remote report: '' @ err)
      | Inr report \<Rightarrow>
     (case create_token E data '''' AttestationProviderURLs of
        Inl err \<Rightarrow> Inl (''failed to create attestation report: '' @ err)
      | Inr token \<Rightarrow>
          let url = keyGrantorUrl
                @ (if length clientData = 0 then ''/xprv?pubkey='' else ''/getkey?pubkey='')
                @ hex_EncodeToString pubkey in
     (case json_Marshal J \<lparr>gk_Report = hex_EncodeToString report, gk_JWT = token\<rparr> of
        Inl err \<Rightarrow> Inl err
      | Inr jsonReq \<Rightarrow>
     (case HttpPost post url jsonReq of
        Inl err \<Rightarrow> Inl (''failed to get key: '' @ err)
      | Inr res \<Rightarrow>
     (case hex_DecodeString res of
        None \<Rightarrow> Inl ''failed to decode key: invalid hex''
      | Some resBz \<Rightarrow>
     (case ec_Decrypt X privKey resBz of
        Inl err \<Rightarrow> Inl (''failed to decrypt message from server: '' @ err)
      | Inr keyBz \<Rightarrow>
     (case bip_Deserialize K keyBz of
        (_, Some err) \<Rightarrow> Inl (''failed to deserialize the key from server: '' @ err)
      | (outKey, None) \<Rightarrow> Inr outKey)))))))"

section \<open>What a released key implies\<close>

text \<open>The checks both handlers make before anything secret is touched.\<close>

definition vetted ::
  "ego_api \<Rightarrow> ('p, 's) ecies_api \<Rightarrow> json_api \<Rightarrow> (bytes \<Rightarrow> bytes) \<Rightarrow> http_request \<Rightarrow> 'p
     \<Rightarrow> attestation_report \<Rightarrow> bool" where
  "vetted E X J sha256 r pub report \<longleftrightarrow>
     (\<exists>p ps pubkeyBz body params reportBz.
        rq_pubkeys r = p # ps \<and> p \<noteq> '''' \<and> hex_DecodeString p = Some pubkeyBz
        \<and> ec_NewPublicKeyFromBytes X pubkeyBz = Inr pub
        \<and> rq_body r = Inr body \<and> json_Unmarshal J body = Inr params
        \<and> hex_DecodeString (gk_Report params) = Some reportBz
        \<and> ego_VerifyRemoteReport E reportBz = Inr report
        \<and> length (rep_Data report) = 64 \<and> take 32 (rep_Data report) = sha256 pubkeyBz
        \<and> VerifyJWT E (gk_JWT params) report = None)"

lemma handleRequesterPubkey_Inr:
  "handleRequesterPubkey X r = Inr (pub, bz) \<longleftrightarrow>
     (\<exists>p ps. rq_pubkeys r = p # ps \<and> p \<noteq> '''' \<and> hex_DecodeString p = Some bz
       \<and> ec_NewPublicKeyFromBytes X bz = Inr pub)"
  by (cases "rq_pubkeys r")
    (auto simp: handleRequesterPubkey_def Let_def split: option.split sum.split)

lemma handleGetKeyParam_Inr:
  "handleGetKeyParam E J sha256 r bz = Inr report \<longleftrightarrow>
     (\<exists>body params reportBz. rq_body r = Inr body \<and> json_Unmarshal J body = Inr params
        \<and> hex_DecodeString (gk_Report params) = Some reportBz
        \<and> ego_VerifyRemoteReport E reportBz = Inr report
        \<and> length (rep_Data report) = 64 \<and> take 32 (rep_Data report) = sha256 bz
        \<and> VerifyJWT E (gk_JWT params) report = None)"
  by (auto simp: handleGetKeyParam_def split: option.split sum.split)

lemma helpers_Inl_status:
  "handleRequesterPubkey X r = Inl resp \<Longrightarrow> \<exists>st msg. resp = Response st msg \<and> st \<noteq> StatusOK"
  "handleGetKeyParam E J sha256 r bz = Inl resp \<Longrightarrow> \<exists>st msg. resp = Response st msg \<and> st \<noteq> StatusOK"
  by (auto simp: handleRequesterPubkey_def handleGetKeyParam_def Let_def
      split: if_splits option.splits sum.splits)

lemma vetted_intro:
  "handleRequesterPubkey X r = Inr (pub, bz) \<Longrightarrow> handleGetKeyParam E J sha256 r bz = Inr report
    \<Longrightarrow> vetted E X J sha256 r pub report"
  unfolding vetted_def handleRequesterPubkey_Inr handleGetKeyParam_Inr by blast

lemma reply_encrypted_OK:
  "reply_encrypted X msg pub bz = Response StatusOK s \<longleftrightarrow>
     (\<exists>c. ec_Encrypt X pub bz = Inr c \<and> s = hex_EncodeToString c)"
  by (auto simp: reply_encrypted_def split: sum.split)

context bip32
begin

lemma handleKeyDerive_result:
  "handleKeyDerive X K sha256 (Some k) report pub =
     Some (case child_walk K k (path_of (sha256 (rep_UniqueID report @ drop 32 (rep_Data report)))) of
       None \<Rightarrow> Dropped PNilDeref
     | Some c \<Rightarrow> reply_encrypted X ''failed to encrypted derivedKey'' pub (bip_Serialize K c))"
proof -
  have P: "digits31 9 (be_val h) = path_of h" for h by (simp only: path_of_def digits31_def)
  show ?thesis
    unfolding handleKeyDerive_def DeriveKey_def derive_loop_walk P
    by (simp add: deref_def split: option.split)
qed

end

section \<open>An instance of the packages\<close>

definition mini_ecies :: "(bytes, bytes) ecies_api" where
  "mini_ecies = \<lparr>
     ec_NewPublicKeyFromBytes = Inr, ec_PublicKeyBytes = (\<lambda>s. 2 # s),
     ec_Encrypt = (\<lambda>p m. Inr (p @ m)), ec_Decrypt = (\<lambda>s c. Inr (drop (length s + 1) c)) \<rparr>"

text \<open>The report, preceded by its length in unary, then the token.\<close>

definition mini_json :: json_api where
  "mini_json = \<lparr>
     json_Marshal = (\<lambda>p. Inr (replicate (length (gk_Report p)) (CHR ''x'') @ '':'' @ gk_Report p @ gk_JWT p)),
     json_Unmarshal = (\<lambda>b.
       let n = length (takeWhile (\<lambda>c. c = CHR ''x'') b); r = drop (n + 1) b in
       Inr \<lparr>gk_Report = take n r, gk_JWT = drop n r\<rparr>) \<rparr>"

lemma mini_json_round: "\<exists>j. json_Marshal mini_json p = Inr j \<and> json_Unmarshal mini_json j = Inr p"
proof -
  have "takeWhile (\<lambda>c. c = CHR ''x'') (replicate n (CHR ''x'') @ '':'' @ r) = replicate n (CHR ''x'')" for n r
    by (subst takeWhile_append2) simp_all
  then show ?thesis by (simp add: mini_json_def Let_def)
qed

definition mini_sha :: "bytes \<Rightarrow> bytes" where
  "mini_sha b = take 32 (b @ replicate 32 0)"

text \<open>A grantor that serves the client of the packages' instances.\<close>

definition mini_net :: "string \<Rightarrow> (bool \<times> uint32 list) \<Rightarrow> http_post" where
  "mini_net base k url body =
     (case handle_getkey mini_ego mini_ecies path_bip32 mini_json mini_sha (Some k)
            \<lparr>rq_pubkeys = [drop (length base + length ''/getkey?pubkey='') url], rq_body = Inr body\<rparr> of
        Some (Response st s) \<Rightarrow> Inr ((st, ''''), Inr s)
      | _ \<Rightarrow> Inl ''EOF'')"

section \<open>Client and server together\<close>

text \<open>
  What the packages document: a public key is read back from its bytes, decryption inverts
  encryption, JSON decoding inverts encoding; a verified remote report carries the 64 bytes it was
  created for and the unique ID \<open>uid\<close> of the client's enclave; a token created for the same data
  verifies only to a report of that enclave.
\<close>

locale key_exchange = bip32 K
  for K :: "'k bip32_api" +
  fixes E :: ego_api and X :: "('p, 's) ecies_api" and J :: json_api and sha256 :: "bytes \<Rightarrow> bytes"
    and pub :: "'s \<Rightarrow> 'p" and uid :: bytes
  assumes sha256_length: "length (sha256 b) = 32"
    and PublicKey: "ec_NewPublicKeyFromBytes X (ec_PublicKeyBytes X s) = Inr (pub s)"
      "ec_PublicKeyBytes X s \<noteq> []"
    and Decrypt: "ec_Encrypt X (pub s) m = Inr c \<Longrightarrow> ec_Decrypt X s c = Inr m"
    and Json: "\<exists>j. json_Marshal J p = Inr j \<and> json_Unmarshal J j = Inr p"
    and RemoteReport: "length d = 64 \<Longrightarrow> ego_GetRemoteReport E d = Inr rb
      \<Longrightarrow> \<exists>r. ego_VerifyRemoteReport E rb = Inr r \<and> rep_Data r = d \<and> rep_UniqueID r = uid"
    and Token: "ego_CreateAzureAttestationToken E d url = Inr t \<Longrightarrow> ego_GetRemoteReport E d = Inr rb
      \<Longrightarrow> ego_VerifyRemoteReport E rb = Inr r \<Longrightarrow> ego_VerifyAzureAttestationToken E t url' = Inr tr
      \<Longrightarrow> same_enclave E tr r"
begin

lemma created_token_verifies:
  assumes "create_token E d err urls = Inr t" "ego_GetRemoteReport E d = Inr rb"
    and "ego_VerifyRemoteReport E rb = Inr r"
  shows "VerifyJWT E t r = None"
proof -
  have "\<exists>url. ego_CreateAzureAttestationToken E d url = Inr t"
    using assms(1) by (induction E d err urls rule: create_token.induct) (auto split: sum.splits)
  then obtain url where "ego_CreateAzureAttestationToken E d url = Inr t" by blast
  from Token [OF this assms(2,3)]
  have "verify_jwt_loop E t r urls' = None" for urls'
    by (induction urls') (auto split: sum.split)
  then show ?thesis by (simp add: VerifyJWT_def)
qed

lemma get_key:
  assumes "length clientData = 32"
    and rb: "ego_GetRemoteReport E (sha256 (ec_PublicKeyBytes X s) @ clientData) = Inr rb"
    and t: "create_token E (sha256 (ec_PublicKeyBytes X s) @ clientData) '''' AttestationProviderURLs = Inr t"
    and c: "child_walk K k (path_of (sha256 (uid @ clientData))) = Some c"
    and ct: "ec_Encrypt X (pub s) (bip_Serialize K c) = Inr ct"
    and net: "\<And>p body. post (base @ ''/getkey?pubkey='' @ p) body =
      (case handle_getkey E X K J sha256 (Some k) \<lparr>rq_pubkeys = [p], rq_body = Inr body\<rparr> of
         Some (Response st s) \<Rightarrow> Inr ((st, ''''), Inr s) | _ \<Rightarrow> Inl ''EOF'')"
  shows "GetKeyFromKeyGrantor E X K J sha256 post s base clientData = Inr (Some c)"
proof -
  let ?bz = "ec_PublicKeyBytes X s" and ?p = "hex_EncodeToString (ec_PublicKeyBytes X s)"
  let ?d = "sha256 ?bz @ clientData"
  let ?params = "\<lparr>gk_Report = hex_EncodeToString rb, gk_JWT = t\<rparr>"
  have "length ?d = 64" using assms(1) sha256_length by simp
  from RemoteReport [OF this rb] obtain r
    where r: "ego_VerifyRemoteReport E rb = Inr r" "rep_Data r = ?d" "rep_UniqueID r = uid" by blast
  from Json [of ?params] obtain j where j: "json_Marshal J ?params = Inr j" "json_Unmarshal J j = Inr ?params"
    by blast
  let ?rq = "\<lparr>rq_pubkeys = [?p], rq_body = Inr j\<rparr>"
  have "?p \<noteq> ''''" using PublicKey(2) [of s] length_hex_encode [of ?bz] by (metis length_0_conv mult_eq_0_iff zero_neq_numeral)
  then have 1: "handleRequesterPubkey X ?rq = Inr (pub s, ?bz)"
    using PublicKey(1) by (simp add: handleRequesterPubkey_Inr)
  have 2: "handleGetKeyParam E J sha256 ?rq ?bz = Inr r"
    using r j created_token_verifies [OF t rb r(1)] assms(1) sha256_length
    by (simp add: handleGetKeyParam_Inr)
  have "drop 32 (rep_Data r) = clientData" using r(2) sha256_length by simp
  then have "handle_getkey E X K J sha256 (Some k) ?rq = Some (Response StatusOK (hex_EncodeToString ct))"
    using 1 2 c ct r(3) by (simp add: handle_getkey_def handleKeyDerive_result reply_encrypted_def)
  then have "post (base @ ''/getkey?pubkey='' @ ?p) j = Inr ((StatusOK, ''''), Inr (hex_EncodeToString ct))"
    using net [of ?p j] by simp
  moreover have "clientData \<noteq> []" using assms(1) by auto
  ultimately show ?thesis
    using rb t j(1) Decrypt [OF ct] Deserialize [of c]
    by (simp add: GetKeyFromKeyGrantor_def Let_def HttpPost_def)
qed

end

interpretation mini_exchange: key_exchange path_bip32 mini_ego mini_ecies mini_json mini_sha "\<lambda>s. 2 # s" "[7]"
  by unfold_locales
    (auto simp: mini_json_round mini_sha_def mini_ecies_def mini_ego_def mini_report_def same_enclave_def)

lemma key_exchange_mini: "key_exchange path_bip32 mini_ego mini_ecies mini_json mini_sha (\<lambda>s. 2 # s) [7]"
  by (rule mini_exchange.key_exchange_axioms)

section \<open>Properties\<close>




text \<open>A request of the packages' instances that passes every check.\<close>

definition mini_request :: http_request where
  "mini_request = \<lparr>rq_pubkeys = [''0205''], rq_body = Inr (replicate 64 (CHR ''x'') @ '':''
     @ hex_EncodeToString (mini_sha [2, 5]) @ ''good'')\<rparr>"

lemma mini_request_params:
  "handleRequesterPubkey mini_ecies mini_request = Inr ([2, 5], [2, 5])"
  "\<exists>report. handleGetKeyParam mini_ego mini_json mini_sha mini_request [2, 5] = Inr report"
proof -
  show "handleRequesterPubkey mini_ecies mini_request = Inr ([2, 5], [2, 5])"
    by (simp add: handleRequesterPubkey_Inr mini_request_def mini_ecies_def hex_value_def)
  let ?h = "hex_EncodeToString (mini_sha [2, 5])"
  have len: "length (mini_sha [2, 5]) = 32" by (simp add: mini_sha_def)
  have "json_Marshal mini_json \<lparr>gk_Report = ?h, gk_JWT = ''good''\<rparr>
      = Inr (replicate 64 (CHR ''x'') @ '':'' @ ?h @ ''good'')"
    by (simp add: mini_json_def len)
  then have "json_Unmarshal mini_json (replicate 64 (CHR ''x'') @ '':'' @ ?h @ ''good'')
      = Inr \<lparr>gk_Report = ?h, gk_JWT = ''good''\<rparr>"
    using mini_json_round [of "\<lparr>gk_Report = ?h, gk_JWT = ''good''\<rparr>"] by auto
  moreover have "VerifyJWT mini_ego ''good'' (mini_report d) = None" for d
    using mini_same_enclave
    by (simp add: VerifyJWT_def AttestationProviderURLs_def mini_ego_def same_enclave_def mini_report_def)
  ultimately show "\<exists>report. handleGetKeyParam mini_ego mini_json mini_sha mini_request [2, 5] = Inr report"
    using len by (simp add: handleGetKeyParam_Inr mini_request_def)
      (simp add: mini_ego_def mini_report_def)
qed




end
