(* ===== verification/KeyStore.thy ===== *)
theory KeyStore
  imports KeyGrantor
begin

text \<open>
  Where keys come from and where they are kept: the random generators and the sealed key file of
  \<^verbatim>\<open>keygrantor/keygrantor.go\<close>, the start of the grantor (\<^verbatim>\<open>main\<close> in \<^verbatim>\<open>keygrantor/cmd/main.go\<close>) and the
  client side of \<^verbatim>\<open>keygrantor/simpleclient.go\<close>. Files are a map from names to contents: a file is there
  or not, and other failures of the file system are not modelled.
\<close>

type_synonym fs = "string \<rightharpoonup> bytes"

section \<open>Randomness\<close>

text \<open>
  \<open>r i\<close> is the outcome of the \<open>i\<close>-th \<^verbatim>\<open>rdrand\<close> instruction; when it fails the instruction leaves zero in
  its destination. \<^verbatim>\<open>rdrand16\<close> of \<^verbatim>\<open>util.h\<close> tries up to \<^verbatim>\<open>RETRY_LIMIT\<close> (ten) times, and its result code
  is not looked at.
\<close>

type_synonym rdrand = "nat \<Rightarrow> 16 word option"

primrec rdrand16 :: "rdrand \<Rightarrow> nat \<Rightarrow> nat \<Rightarrow> 16 word \<times> nat" where
  "rdrand16 r 0 pos = (0, pos)"
| "rdrand16 r (Suc tries) pos =
     (case r pos of Some x \<Rightarrow> (x, pos + 1) | None \<Rightarrow> rdrand16 r tries (pos + 1))"

primrec GenerateRandomBytes :: "rdrand \<Rightarrow> nat \<Rightarrow> nat \<Rightarrow> bytes \<times> nat" where
  "GenerateRandomBytes r 0 pos = ([], pos)"
| "GenerateRandomBytes r (Suc count) pos =
     (case rdrand16 r 10 pos of (x, pos) \<Rightarrow>
      case GenerateRandomBytes r count pos of (out, pos) \<Rightarrow> (ucast x # out, pos))"

text \<open>\<^verbatim>\<open>for\<close> loops without a bound: \<open>None\<close> is a loop that does not end.\<close>

partial_function (option) GetRandomExtPrivKey ::
  "(bytes \<Rightarrow> 'k option \<times> string option) \<Rightarrow> rdrand \<Rightarrow> nat \<Rightarrow> ('k option \<times> nat) option" where
  "GetRandomExtPrivKey NewMasterKey r pos =
     (let (seed, pos) = GenerateRandomBytes r 64 pos; (key, err) = NewMasterKey seed in
      if err = None then Some (key, pos) else GetRandomExtPrivKey NewMasterKey r pos)"

partial_function (option) GenerateEciesPrivateKey ::
  "(bytes \<Rightarrow> 's) \<Rightarrow> rdrand \<Rightarrow> nat \<Rightarrow> ('s \<times> nat) option" where
  "GenerateEciesPrivateKey NewPrivateKeyFromBytes r pos =
     (let (bz, pos) = GenerateRandomBytes r 32 pos in
      if IsValidPrivateKey bz then Some (NewPrivateKeyFromBytes bz, pos)
      else GenerateEciesPrivateKey NewPrivateKeyFromBytes r pos)"

text \<open>\<^verbatim>\<open>RandReader.Read(p)\<close> fills the whole slice; \<open>GenerateRandomBip32Key\<close> is the script's function.\<close>

definition RandReader_Read :: "rdrand \<Rightarrow> nat \<Rightarrow> nat \<Rightarrow> (bytes \<times> int \<times> string option) \<times> nat" where
  "RandReader_Read r len pos =
     (case GenerateRandomBytes r len pos of (out, pos) \<Rightarrow> ((out, int len, None), pos))"

definition GenerateRandomBip32Key ::
  "(bytes \<Rightarrow> 'k option \<times> string option) \<Rightarrow> rdrand \<Rightarrow> nat \<Rightarrow> ('k Bip32Key \<times> nat) option" where
  "GenerateRandomBip32Key NewMasterKey r pos =
     map_option (\<lambda>(key, pos). (\<lparr>bk_key = key\<rparr>, pos)) (GetRandomExtPrivKey NewMasterKey r pos)"

section \<open>The key file\<close>

text \<open>\<^verbatim>\<open>ego\<close>'s sealing with a key of the enclave.\<close>

record seal_api =
  sl_SealWithUniqueKey :: "bytes \<Rightarrow> string + bytes"
  sl_Unseal :: "bytes \<Rightarrow> string + bytes"

definition SealKeyToFile ::
  "seal_api \<Rightarrow> 'k bip32_api \<Rightarrow> string \<Rightarrow> 'k option \<Rightarrow> fs \<Rightarrow> fs res" where
  "SealKeyToFile S K fname extPrivKey f =
     bind_res (deref extPrivKey) (\<lambda>k.
       case sl_SealWithUniqueKey S (bip_Serialize K k) of
         Inl err \<Rightarrow> Inl (PError err)
       | Inr out \<Rightarrow> Inr (f(fname \<mapsto> out)))"

definition RecoverKeyFromFile ::
  "seal_api \<Rightarrow> 'k bip32_api \<Rightarrow> string \<Rightarrow> fs \<Rightarrow> ('k option \<times> bool) res" where
  "RecoverKeyFromFile S K fname f =
     (case f fname of
        None \<Rightarrow> Inr (None, False)
      | Some fileData \<Rightarrow>
          (case sl_Unseal S fileData of
             Inl err \<Rightarrow> Inl (PError err)
           | Inr rawData \<Rightarrow>
               (case bip_Deserialize K rawData of
                  (_, Some err) \<Rightarrow> Inl (PError err)
                | (extPrivKey, None) \<Rightarrow> Inr (extPrivKey, True))))"

section \<open>The grantor starts\<close>

definition KeyFile :: string where
  "KeyFile = ''/data/key.txt''"

text \<open>
  The packages the start needs, together. \<open>ks_newPriv\<close> is \<^verbatim>\<open>ecies.NewPrivateKeyFromBytes\<close>.
\<close>

record ('k, 'p, 's) key_env =
  ks_ego :: ego_api
  ks_ecies :: "('p, 's) ecies_api"
  ks_bip :: "'k bip32_api"
  ks_NewMasterKey :: "bytes \<Rightarrow> 'k option \<times> string option"
  ks_newPriv :: "bytes \<Rightarrow> 's"
  ks_json :: json_api
  ks_seal :: seal_api
  ks_sha256 :: "bytes \<Rightarrow> bytes"
  ks_post :: http_post
  ks_rdrand :: rdrand

text \<open>\<^verbatim>\<open>GetKeyFromKeyGrantor\<close> with the key pair it generates.\<close>

definition fetch_key ::
  "('k, 'p, 's) key_env \<Rightarrow> string \<Rightarrow> bytes \<Rightarrow> nat \<Rightarrow> (string + 'k option) option" where
  "fetch_key V url clientData pos =
     map_option (\<lambda>(privKey, pos).
       GetKeyFromKeyGrantor (ks_ego V) (ks_ecies V) (ks_bip V) (ks_json V) (ks_sha256 V) (ks_post V)
         privKey url clientData)
     (GenerateEciesPrivateKey (ks_newPriv V) (ks_rdrand V) pos)"

text \<open>\<^verbatim>\<open>main\<close> up to the HTTP server: the private and the public extended key, and the files.\<close>

definition kg_start ::
  "('k, 'p, 's) key_env \<Rightarrow> string \<Rightarrow> fs \<Rightarrow> ('k option \<times> 'k option \<times> fs) res option" where
  "kg_start V keySrc f =
     (let publish = (\<lambda>ExtPrivKey f.
        bind_res (deref ExtPrivKey) (\<lambda>k. Inr (ExtPrivKey, Some (bip_PublicKey (ks_bip V) k), f)));
          seal = (\<lambda>ExtPrivKey.
        bind_res (SealKeyToFile (ks_seal V) (ks_bip V) KeyFile ExtPrivKey f) (publish ExtPrivKey)) in
      case RecoverKeyFromFile (ks_seal V) (ks_bip V) KeyFile f of
        Inl p \<Rightarrow> Some (Inl p)
      | Inr (ExtPrivKey, fileExists) \<Rightarrow>
          if fileExists then Some (publish ExtPrivKey f)
          else if length keySrc = 0
          then map_option (\<lambda>(key, pos). seal key) (GetRandomExtPrivKey (ks_NewMasterKey V) (ks_rdrand V) 0)
          else map_option (\<lambda>r. case r of Inl err \<Rightarrow> Inl (PError err) | Inr key \<Rightarrow> seal key)
                 (fetch_key V keySrc [] 0))"

section \<open>The simple client\<close>

record ('k, 'q) SimpleClient =
  sc_ExtPrivKey :: "'k option"
  sc_ExtPubKey :: "'k option"
  sc_PrivKey :: "'q option"
  sc_PubKeyBz :: bytes

text \<open>
  \<open>privFrom\<close> is \<^verbatim>\<open>secp256k1.PrivKeyFromBytes\<close> and \<open>pubBytes\<close> the compressed public key of its result. The
  receiver is a pointer: on nil the first assignment to a field panics, after its right-hand side.
\<close>

definition InitKeys ::
  "('k, 'p, 's) key_env \<Rightarrow> (bytes \<Rightarrow> 'q) \<Rightarrow> ('q \<Rightarrow> bytes) \<Rightarrow> ('k, 'q) SimpleClient option
     \<Rightarrow> string \<Rightarrow> bytes \<Rightarrow> bool \<Rightarrow> fs \<Rightarrow> ('k, 'q) SimpleClient res option" where
  "InitKeys V privFrom pubBytes sc keySrc clientData loadFromFile f =
     (let finish = (\<lambda>key.
        bind_res (deref sc) (\<lambda>c. bind_res (deref key) (\<lambda>k.
          Inr (c\<lparr>sc_ExtPrivKey := Some k, sc_ExtPubKey := Some (bip_PublicKey (ks_bip V) k),
                 sc_PrivKey := Some (privFrom (bip_Key (ks_bip V) k)),
                 sc_PubKeyBz := pubBytes (privFrom (bip_Key (ks_bip V) k))\<rparr>)))) in
      if loadFromFile
      then Some (bind_res (RecoverKeyFromFile (ks_seal V) (ks_bip V) keySrc f) (\<lambda>(key, fileExists).
             bind_res (deref sc) (\<lambda>_.
             if \<not> fileExists then Inl (PError (''Cannot find key file: '' @ keySrc)) else finish key)))
      else map_option (\<lambda>r. case r of
               Inl err \<Rightarrow> bind_res (deref sc) (\<lambda>_. Inl (PError err))
             | Inr key \<Rightarrow> finish key)
           (fetch_key V keySrc clientData 0))"

text \<open>
  The HTTPS server of the client, given its certificate: the four handlers it installs. \<^verbatim>\<open>/report\<close> goes on
  after an error, but the nil report it then writes adds nothing to the reply.
\<close>

definition report_data :: "(bytes \<Rightarrow> bytes) \<Rightarrow> bytes \<Rightarrow> ('k, 'q) SimpleClient \<Rightarrow> bytes" where
  "report_data sha256 cert sc = sha256 cert @ sha256 (sc_PubKeyBz sc)"

definition sc_cert :: "bytes \<Rightarrow> http_response" where
  "sc_cert cert = Response StatusOK (hex_EncodeToString cert)"

definition sc_pubkey :: "(bytes \<Rightarrow> bytes) \<Rightarrow> ('k, 'q) SimpleClient \<Rightarrow> http_response" where
  "sc_pubkey sha256 sc = Response StatusOK (hex_EncodeToString (sha256 (sc_PubKeyBz sc)))"

definition sc_report :: "ego_api \<Rightarrow> (bytes \<Rightarrow> bytes) \<Rightarrow> bytes \<Rightarrow> ('k, 'q) SimpleClient \<Rightarrow> http_response" where
  "sc_report E sha256 cert sc =
     (case ego_GetRemoteReport E (report_data sha256 cert sc) of
        Inl err \<Rightarrow> Response StatusInternalServerError (err @ hex_EncodeToString [])
      | Inr peerReport \<Rightarrow> Response StatusOK (hex_EncodeToString peerReport))"

definition sc_token :: "ego_api \<Rightarrow> (bytes \<Rightarrow> bytes) \<Rightarrow> bytes \<Rightarrow> ('k, 'q) SimpleClient \<Rightarrow> http_response" where
  "sc_token E sha256 cert sc =
     (case create_token E (report_data sha256 cert sc) '''' AttestationProviderURLs of
        Inl err \<Rightarrow> Response StatusInternalServerError err
      | Inr token \<Rightarrow> Response StatusOK token)"

section \<open>Lemmas\<close>

lemma rdrand16_dead:
  "(\<And>i. pos \<le> i \<Longrightarrow> r i = None) \<Longrightarrow> rdrand16 r tries pos = (0, pos + tries)"
  by (induction tries arbitrary: pos) auto

lemma GenerateRandomBytes_dead:
  "(\<And>i. pos \<le> i \<Longrightarrow> r i = None) \<Longrightarrow>
    GenerateRandomBytes r count pos = (replicate count 0, pos + 10 * count)"
proof (induction count arbitrary: pos)
  case (Suc count)
  then have "rdrand16 r 10 pos = (0, pos + 10)" by (intro rdrand16_dead) simp
  with Suc show ?case by simp
qed simp

lemma length_GenerateRandomBytes [simp]: "length (fst (GenerateRandomBytes r count pos)) = count"
  by (induction count arbitrary: pos) (auto split: prod.split simp: prod.case_eq_if)

lemma ecies_key_valid:
  assumes "GenerateEciesPrivateKey newPriv r pos = Some z"
  shows "\<exists>q. IsValidPrivateKey (fst (GenerateRandomBytes r 32 q))
    \<and> fst z = newPriv (fst (GenerateRandomBytes r 32 q)) \<and> pos \<le> q"
proof (rule GenerateEciesPrivateKey.raw_induct [of "\<lambda>newPriv r pos z.
    \<exists>q. IsValidPrivateKey (fst (GenerateRandomBytes r 32 q))
      \<and> fst z = newPriv (fst (GenerateRandomBytes r 32 q)) \<and> pos \<le> q", OF _ assms])
  fix f :: "(bytes \<Rightarrow> 'a) \<Rightarrow> rdrand \<Rightarrow> nat \<Rightarrow> ('a \<times> nat) option"
  fix newPriv :: "bytes \<Rightarrow> 'a" and r pos z
  assume IH: "\<And>newPriv r pos z. f newPriv r pos = Some z \<Longrightarrow>
      \<exists>q. IsValidPrivateKey (fst (GenerateRandomBytes r 32 q))
        \<and> fst z = newPriv (fst (GenerateRandomBytes r 32 q)) \<and> pos \<le> q"
    and eq: "(let (bz, pos) = GenerateRandomBytes r 32 pos in
        if IsValidPrivateKey bz then Some (newPriv bz, pos) else f newPriv r pos) = Some z"
  have mono: "p \<le> snd (rdrand16 r t p)" for t p by (induction t arbitrary: p) (auto split: option.split intro: Suc_leD)
  have mono: "p \<le> snd (GenerateRandomBytes r c p)" for c p
    by (induction c arbitrary: p) (auto split: prod.split simp: prod.case_eq_if intro: order_trans [OF mono])
  show "\<exists>q. IsValidPrivateKey (fst (GenerateRandomBytes r 32 q))
      \<and> fst z = newPriv (fst (GenerateRandomBytes r 32 q)) \<and> pos \<le> q"
  proof (cases "IsValidPrivateKey (fst (GenerateRandomBytes r 32 pos))")
    case True
    with eq show ?thesis by (auto simp: prod.case_eq_if intro!: exI [of _ pos])
  next
    case False
    with eq have "f newPriv r (snd (GenerateRandomBytes r 32 pos)) = Some z"
      by (simp add: prod.case_eq_if)
    from IH [OF this] mono [of pos 32] show ?thesis by (meson order_trans)
  qed
qed

lemma zero_not_valid: "\<not> IsValidPrivateKey (replicate n 0)"
proof -
  have "be_val (replicate n 0) = 0" by (induction n) (simp_all add: be_val_def replicate_app_Cons_same [symmetric])
  then show ?thesis by (simp add: IsValidPrivateKey_def)
qed

lemma ecies_dead:
  assumes "\<And>i. pos \<le> i \<Longrightarrow> r i = None"
  shows "GenerateEciesPrivateKey newPriv r pos = None"
proof (cases "GenerateEciesPrivateKey newPriv r pos")
  case (Some z)
  from ecies_key_valid [OF this] obtain q where "pos \<le> q" "IsValidPrivateKey (fst (GenerateRandomBytes r 32 q))"
    by blast
  then show ?thesis using GenerateRandomBytes_dead [of q r 32] assms zero_not_valid [of 32] by simp
qed

lemma recover_sealed:
  assumes "bip32 K" "\<And>b out. sl_SealWithUniqueKey S b = Inr out \<Longrightarrow> sl_Unseal S out = Inr b"
    and "SealKeyToFile S K fname (Some k) f = Inr f'"
  shows "RecoverKeyFromFile S K fname f' = Inr (Some k, True)"
  using assms by (auto simp: SealKeyToFile_def RecoverKeyFromFile_def deref_def bip32.Deserialize
      split: sum.splits)

section \<open>Properties\<close>

text \<open>
  the key of a grantor survives restarts. However it started - from its key file, from random
  data or from another grantor - once the start has succeeded with key \<open>k\<close> the key file holds \<open>k\<close>, and
  every later start of the same enclave succeeds with \<open>k\<close> again, whatever its arguments, the network
  and the random numbers are then; the published key is always the public key of \<open>k\<close>.
\<close>

theorem restart_keeps_key:
  assumes "bip32 (ks_bip V)"
    and "\<And>b out. sl_SealWithUniqueKey (ks_seal V) b = Inr out \<Longrightarrow> sl_Unseal (ks_seal V) out = Inr b"
    and "kg_start V keySrc f = Some (Inr (ExtPrivKey, ExtPubKey, f'))"
    and "ks_bip V' = ks_bip V" "ks_seal V' = ks_seal V"
  shows "\<exists>k. ExtPrivKey = Some k \<and> ExtPubKey = Some (bip_PublicKey (ks_bip V) k)
    \<and> kg_start V' keySrc' f' = Some (Inr (ExtPrivKey, ExtPubKey, f'))"
proof -
  let ?S = "ks_seal V" and ?K = "ks_bip V"
  have again: "kg_start V' keySrc' f'' = Some (Inr (Some k, Some (bip_PublicKey ?K k), f''))"
    if "RecoverKeyFromFile ?S ?K KeyFile f'' = Inr (Some k, True)" for f'' k
    using that assms(4,5) by (simp add: kg_start_def deref_def Let_def)
  have sealed: "\<exists>k. ExtPrivKey = Some k \<and> ExtPubKey = Some (bip_PublicKey ?K k)
      \<and> RecoverKeyFromFile ?S ?K KeyFile f' = Inr (Some k, True)"
    if "bind_res (SealKeyToFile ?S ?K KeyFile key f)
      (\<lambda>f. bind_res (deref key) (\<lambda>k. Inr (key, Some (bip_PublicKey ?K k), f))) = Inr (ExtPrivKey, ExtPubKey, f')" for key
    using that recover_sealed [OF assms(1,2)] by (cases key) (auto simp: deref_def)
  obtain key e where r: "RecoverKeyFromFile ?S ?K KeyFile f = Inr (key, e)"
    using assms(3) by (cases "RecoverKeyFromFile ?S ?K KeyFile f") (auto simp: kg_start_def Let_def)
  have "\<exists>k. ExtPrivKey = Some k \<and> ExtPubKey = Some (bip_PublicKey ?K k)
      \<and> RecoverKeyFromFile ?S ?K KeyFile f' = Inr (Some k, True)"
  proof (cases e)
    case True
    then show ?thesis using assms(3) r by (cases key) (auto simp: kg_start_def Let_def deref_def)
  next
    case False
    show ?thesis
    proof (cases "keySrc = ''''")
      case True
      with False r assms(3) obtain key where "bind_res (SealKeyToFile ?S ?K KeyFile key f)
        (\<lambda>f. bind_res (deref key) (\<lambda>k. Inr (key, Some (bip_PublicKey ?K k), f))) = Inr (ExtPrivKey, ExtPubKey, f')"
        by (auto simp: kg_start_def Let_def)
      then show ?thesis by (rule sealed)
    next
      case ne: False
      obtain z where z: "fetch_key V keySrc [] 0 = Some z"
        using ne False r assms(3) by (cases "fetch_key V keySrc [] 0") (auto simp: kg_start_def Let_def)
      with ne False r assms(3) obtain key where "z = Inr key"
        by (cases z) (auto simp: kg_start_def Let_def)
      with z ne False r assms(3) show ?thesis by (intro sealed [of key]) (simp add: kg_start_def Let_def)
    qed
  qed
  with again show ?thesis by metis
qed

definition mini_seal :: seal_api where
  "mini_seal = \<lparr>sl_SealWithUniqueKey = (\<lambda>b. Inr (7 # b)), sl_Unseal = (\<lambda>b. Inr (tl b))\<rparr>"

definition mini_keys :: "(bool \<times> uint32 list, bytes, bytes) key_env" where
  "mini_keys = \<lparr>ks_ego = mini_ego, ks_ecies = mini_ecies, ks_bip = path_bip32,
     ks_NewMasterKey = (\<lambda>b. (Some (True, []), None)), ks_newPriv = id, ks_json = mini_json,
     ks_seal = mini_seal, ks_sha256 = mini_sha, ks_post = (\<lambda>u b. Inl ''EOF''), ks_rdrand = (\<lambda>i. Some 7)\<rparr>"

theorem restart_keeps_key_witness:
  "\<exists>f k. kg_start mini_keys '''' Map.empty = Some (Inr (Some k, Some (bip_PublicKey path_bip32 k), f))
    \<and> kg_start mini_keys ''http://kg'' f = Some (Inr (Some k, Some (bip_PublicKey path_bip32 k), f))"
proof -
  have env: "ks_bip mini_keys = path_bip32" "ks_seal mini_keys = mini_seal"
    "\<And>b. ks_NewMasterKey mini_keys b = (Some (True, []), None)" by (simp_all add: mini_keys_def)
  have rand: "GetRandomExtPrivKey (ks_NewMasterKey mini_keys) (ks_rdrand mini_keys) 0
      = Some (Some (True, []), snd (GenerateRandomBytes (ks_rdrand mini_keys) 64 0))"
    by (simp add: GetRandomExtPrivKey.simps [of _ _ 0] env prod.case_eq_if)
  have start: "kg_start mini_keys '''' Map.empty
      = Some (Inr (Some (True, []), Some (bip_PublicKey path_bip32 (True, [])),
          [KeyFile \<mapsto> 7 # bip_Serialize path_bip32 (True, [])]))"
    unfolding kg_start_def rand by (simp add: RecoverKeyFromFile_def SealKeyToFile_def deref_def mini_seal_def env Let_def)
  have seal: "sl_SealWithUniqueKey (ks_seal mini_keys) b = Inr out \<Longrightarrow> sl_Unseal (ks_seal mini_keys) out = Inr b" for b out
    by (auto simp: env mini_seal_def)
  have K: "bip32 (ks_bip mini_keys)" by (simp add: env bip32_path)
  from restart_keeps_key [OF K seal start refl refl, of "''http://kg''"] start
  show ?thesis by (auto simp: env)
qed

text \<open>
  C36: randomness. Every key pair the client makes comes from 32 generated bytes that are a valid
  secp256k1 key. Since the result code of \<^verbatim>\<open>rdrand16\<close> is ignored, a processor whose generator has stopped
  working yields zero bytes without an error: making a key pair then never ends, while a grantor that
  starts without a key takes the master key of 64 zero bytes.
\<close>

theorem keys_from_entropy:
  "(GenerateEciesPrivateKey newPriv r pos = Some (s, pos') \<longrightarrow>
      (\<exists>q. IsValidPrivateKey (fst (GenerateRandomBytes r 32 q)) \<and> s = newPriv (fst (GenerateRandomBytes r 32 q))))
    \<and> ((\<forall>i \<ge> pos. r i = None) \<longrightarrow>
      GenerateRandomBytes r count pos = (replicate count 0, pos + 10 * count)
      \<and> GenerateEciesPrivateKey newPriv r pos = None
      \<and> (snd (NewMasterKey (replicate 64 0)) = None \<longrightarrow>
          GetRandomExtPrivKey NewMasterKey r pos = Some (fst (NewMasterKey (replicate 64 0)), pos + 640)))"
proof (intro conjI impI)
  assume "GenerateEciesPrivateKey newPriv r pos = Some (s, pos')"
  from ecies_key_valid [OF this]
  show "\<exists>q. IsValidPrivateKey (fst (GenerateRandomBytes r 32 q)) \<and> s = newPriv (fst (GenerateRandomBytes r 32 q))"
    by auto
next
  assume "\<forall>i \<ge> pos. r i = None"
  then have dead: "\<And>i. pos \<le> i \<Longrightarrow> r i = None" by blast
  show "GenerateRandomBytes r count pos = (replicate count 0, pos + 10 * count)"
    by (rule GenerateRandomBytes_dead [OF dead])
  show "GenerateEciesPrivateKey newPriv r pos = None" by (rule ecies_dead [OF dead])
  assume "snd (NewMasterKey (replicate 64 0)) = None"
  then show "GetRandomExtPrivKey NewMasterKey r pos = Some (fst (NewMasterKey (replicate 64 0)), pos + 640)"
    by (simp add: GetRandomExtPrivKey.simps [of _ r pos] GenerateRandomBytes_dead [OF dead] prod.case_eq_if)
qed

theorem keys_from_entropy_witness:
  "GetRandomExtPrivKey (\<lambda>seed. (Some (sum_list (map unat seed)), None)) (\<lambda>i. None) 3 = Some (Some 0, 643)"
  using keys_from_entropy [of "id :: bytes \<Rightarrow> bytes" "\<lambda>i. None" 3 "[]" 0 0 "\<lambda>seed. (Some (sum_list (map unat seed)), None)"]
  by (simp add: sum_list_replicate)

end
