(* ===== verification/KeySync.thy ===== *)
theory KeySync
  imports KeyStore
begin

text \<open>
  Several grantors together: a grantor started with \<^verbatim>\<open>-xprvsrc\<close> (\<^verbatim>\<open>main\<close> in \<^verbatim>\<open>keygrantor/cmd/main.go\<close>)
  takes its key from the \<^verbatim>\<open>/xprv\<close> handler of another. Every machine has its own enclave and its own
  sealing; the key file of a machine stays when its grantor stops.
\<close>

section \<open>A cluster of grantors\<close>

record 'k machine =
  mc_files :: fs
  mc_key :: "'k option"

text \<open>\<open>mc_key\<close> is \<^verbatim>\<open>ExtPrivKey\<close> of a running grantor; machines are named by the URL of their server.\<close>

type_synonym 'k cluster = "string \<Rightarrow> 'k machine"

text \<open>What the network returns for a request to \<^verbatim>\<open>/xprv\<close> when it loses and changes nothing.\<close>

definition xprv_post ::
  "ego_api \<Rightarrow> ('p, 's) ecies_api \<Rightarrow> 'k bip32_api \<Rightarrow> json_api \<Rightarrow> (bytes \<Rightarrow> bytes) \<Rightarrow> 'k option
     \<Rightarrow> string \<Rightarrow> string \<Rightarrow> string + (nat \<times> string) \<times> (string + string)" where
  "xprv_post E X K J sha key p body =
     (case handle_xprv E X K J sha key \<lparr>rq_pubkeys = [p], rq_body = Inr body\<rparr> of
        Response st s \<Rightarrow> Inr ((st, ''''), Inr s)
      | Dropped q \<Rightarrow> Inl ''EOF'')"

text \<open>
  A step is the start of a stopped grantor that has a key file or the address of another, or the stop of
  one. The network may lose requests, but an answer with status 200 comes from the handler of a running
  grantor; the random numbers, the network and the address are arbitrary in every step.
\<close>

inductive cstep ::
  "'k bip32_api \<Rightarrow> ('p, 's) ecies_api \<Rightarrow> json_api \<Rightarrow> (bytes \<Rightarrow> bytes) \<Rightarrow> (string \<Rightarrow> ego_api) \<Rightarrow> (string \<Rightarrow> seal_api)
     \<Rightarrow> 'k cluster \<Rightarrow> 'k cluster \<Rightarrow> bool"
  for K :: "'k bip32_api" and X :: "('p, 's) ecies_api" and J :: json_api and sha :: "bytes \<Rightarrow> bytes"
    and E :: "string \<Rightarrow> ego_api" and S :: "string \<Rightarrow> seal_api" where
  start: "mc_key (c A) = None \<Longrightarrow> ks_ego V = E A \<Longrightarrow> ks_ecies V = X \<Longrightarrow> ks_bip V = K \<Longrightarrow> ks_json V = J
    \<Longrightarrow> ks_sha256 V = sha \<Longrightarrow> ks_seal V = S A
    \<Longrightarrow> (\<And>p body t s. ks_post V (src @ ''/xprv?pubkey='' @ p) body = Inr ((StatusOK, t), Inr s)
          \<Longrightarrow> mc_key (c src) \<noteq> None \<and> xprv_post (E src) X K J sha (mc_key (c src)) p body = Inr ((StatusOK, ''''), Inr s))
    \<Longrightarrow> src \<noteq> '''' \<or> mc_files (c A) KeyFile \<noteq> None
    \<Longrightarrow> kg_start V src (mc_files (c A)) = Some (Inr (key, pubkey, f))
    \<Longrightarrow> cstep K X J sha E S c (c(A := \<lparr>mc_files = f, mc_key = key\<rparr>))"
| stop: "cstep K X J sha E S c (c(A := (c A)\<lparr>mc_key := None\<rparr>))"

section \<open>The client against /xprv\<close>

lemma xprv_post_OK:
  assumes "xprv_post E X K J sha (Some k) p body = Inr ((StatusOK, t), Inr s)"
    and "hex_DecodeString p = Some bz" "ec_NewPublicKeyFromBytes X bz = Inr pub"
  shows "\<exists>ct. ec_Encrypt X pub (bip_Serialize K k) = Inr ct \<and> s = hex_EncodeToString ct"
proof -
  let ?r = "\<lparr>rq_pubkeys = [p], rq_body = Inr body\<rparr>"
  have h: "handle_xprv E X K J sha (Some k) ?r = Response StatusOK s"
    using assms(1) by (auto simp: xprv_post_def split: http_response.splits)
  have "handleRequesterPubkey X ?r = Inr (pub, bz) \<or> (\<exists>resp. handleRequesterPubkey X ?r = Inl resp)"
    using assms(2,3) by (simp add: handleRequesterPubkey_def Let_def)
  then show ?thesis using h
    by (auto simp: handle_xprv_def deref_def reply_encrypted_OK dest: helpers_Inl_status
        split: sum.splits option.splits)
qed

text \<open>
  Beyond \<open>key_exchange\<close>: the data of a report are padded with zeros to 64 bytes, and the reports of the
  enclave verify as those of one enclave.
\<close>

locale key_sync = key_exchange K E X J sha256 pub uid
  for K :: "'k bip32_api" and E :: ego_api and X :: "('p, 's) ecies_api" and J :: json_api
    and sha256 :: "bytes \<Rightarrow> bytes" and pub :: "'s \<Rightarrow> 'p" and uid :: bytes +
  assumes PadReport: "length d \<le> 64 \<Longrightarrow> ego_GetRemoteReport E d = Inr rb
      \<Longrightarrow> \<exists>r. ego_VerifyRemoteReport E rb = Inr r \<and> rep_Data r = d @ replicate (64 - length d) 0"
    and OwnReport: "ego_GetRemoteReport E d = Inr rb \<Longrightarrow> ego_VerifyRemoteReport E rb = Inr r
      \<Longrightarrow> ego_GetSelfReport E = Inr self \<Longrightarrow> same_enclave E r self"

context key_exchange
begin

lemma got_xprv:
  assumes "GetKeyFromKeyGrantor E' X K J sha256 post s base [] = Inr key"
    and net: "\<And>p body t r. post (base @ ''/xprv?pubkey='' @ p) body = Inr ((StatusOK, t), Inr r)
      \<Longrightarrow> xprv_post E'' X K J sha256 (Some k) p body = Inr ((StatusOK, ''''), Inr r)"
  shows "key = Some k"
proof -
  let ?p = "hex_EncodeToString (ec_PublicKeyBytes X s)"
  from assms(1) obtain j res resBz keyBz where
    post: "HttpPost post (base @ ''/xprv?pubkey='' @ ?p) j = Inr res"
    and hex: "hex_DecodeString res = Some resBz"
    and dec: "ec_Decrypt X s resBz = Inr keyBz" and des: "bip_Deserialize K keyBz = (key, None)"
    by (auto simp: GetKeyFromKeyGrantor_def Let_def split: sum.splits option.splits prod.splits)
  from post obtain t where "post (base @ ''/xprv?pubkey='' @ ?p) j = Inr ((StatusOK, t), Inr res)"
    by (auto simp: HttpPost_def split: sum.splits prod.splits if_splits)
  from xprv_post_OK [OF net [OF this] _ PublicKey(1)]
  obtain ct where "ec_Encrypt X (pub s) (bip_Serialize K k) = Inr ct" "res = hex_EncodeToString ct" by auto
  with hex dec des Decrypt Deserialize [of k] show ?thesis by auto
qed

text \<open>The client takes whatever key the answer holds: nothing tells who encrypted it.\<close>

lemma any_reply:
  assumes "ego_GetRemoteReport E' (sha256 (ec_PublicKeyBytes X s)) = Inr rb"
    and "create_token E' (sha256 (ec_PublicKeyBytes X s)) '''' AttestationProviderURLs = Inr t"
    and ct: "ec_Encrypt X (pub s) (bip_Serialize K k) = Inr ct"
    and net: "\<And>p bz P ct body. hex_DecodeString p = Some bz \<Longrightarrow> ec_NewPublicKeyFromBytes X bz = Inr P
      \<Longrightarrow> ec_Encrypt X P (bip_Serialize K k) = Inr ct
      \<Longrightarrow> post (base @ ''/xprv?pubkey='' @ p) body = Inr ((StatusOK, ''''), Inr (hex_EncodeToString ct))"
  shows "GetKeyFromKeyGrantor E' X K J sha256 post s base [] = Inr (Some k)"
proof -
  let ?p = "hex_EncodeToString (ec_PublicKeyBytes X s)"
  have post: "post (base @ ''/xprv?pubkey='' @ ?p) j = Inr ((StatusOK, ''''), Inr (hex_EncodeToString ct))" for j
    by (rule net [OF _ PublicKey(1) ct]) simp
  obtain j where "json_Marshal J \<lparr>gk_Report = hex_EncodeToString rb, gk_JWT = t\<rparr> = Inr j" using Json by blast
  with assms(1,2) post [of j] Decrypt [OF ct] Deserialize [of k] show ?thesis
    by (simp add: GetKeyFromKeyGrantor_def Let_def HttpPost_def)
qed

lemma fetched_key:
  assumes "fetch_key V base [] pos = Some (Inr key)"
    and "ks_ecies V = X" "ks_bip V = K" "ks_json V = J" "ks_sha256 V = sha256"
    and "\<And>p body t r. ks_post V (base @ ''/xprv?pubkey='' @ p) body = Inr ((StatusOK, t), Inr r)
      \<Longrightarrow> xprv_post E'' X K J sha256 (Some k) p body = Inr ((StatusOK, ''''), Inr r)"
  shows "key = Some k"
  using assms(1) unfolding fetch_key_def assms(2-5) by (auto intro!: got_xprv [OF _ assms(6)])

end

section \<open>One key in the cluster\<close>

text \<open>What holds of every machine: its key file and its running grantor have the key \<open>k\<close> or nothing.\<close>

definition keeps_key :: "'k bip32_api \<Rightarrow> (string \<Rightarrow> seal_api) \<Rightarrow> 'k \<Rightarrow> 'k cluster \<Rightarrow> bool" where
  "keeps_key K S k c \<longleftrightarrow> (\<forall>A. mc_key (c A) \<in> {None, Some k}
     \<and> (mc_files (c A) KeyFile = None
        \<or> RecoverKeyFromFile (S A) K KeyFile (mc_files (c A)) = Inr (Some k, True)))"

definition founded :: "string \<Rightarrow> fs \<Rightarrow> 'k \<Rightarrow> 'k cluster" where
  "founded A f k = (\<lambda>_. \<lparr>mc_files = Map.empty, mc_key = None\<rparr>)(A := \<lparr>mc_files = f, mc_key = Some k\<rparr>)"

text \<open>A start that succeeds runs with the key of the file, or seals the key it has made or fetched.\<close>

lemma kg_start_from_file:
  assumes "RecoverKeyFromFile (ks_seal V) (ks_bip V) KeyFile f = Inr (Some k, True)"
  shows "kg_start V src f = Some (Inr (Some k, Some (bip_PublicKey (ks_bip V) k), f))"
  using assms by (simp add: kg_start_def Let_def deref_def)

lemma sealed_file:
  assumes "bind_res (SealKeyToFile S K KeyFile key f)
      (\<lambda>f. bind_res (deref key) (\<lambda>k. Inr (key, Some (bip_PublicKey K k), f))) = Inr (key', pubkey, f')"
    and "bip32 K" "\<And>b out. sl_SealWithUniqueKey S b = Inr out \<Longrightarrow> sl_Unseal S out = Inr b"
  shows "key' = key \<and> (\<exists>k. key = Some k \<and> RecoverKeyFromFile S K KeyFile f' = Inr (Some k, True))"
  using assms(1) recover_sealed [OF assms(2,3)] by (cases key) (auto simp: deref_def)

lemma kg_start_sealed:
  assumes "kg_start V src f = Some (Inr (key, pubkey, f'))" "f KeyFile = None"
    and "bip32 (ks_bip V)"
    and "\<And>b out. sl_SealWithUniqueKey (ks_seal V) b = Inr out \<Longrightarrow> sl_Unseal (ks_seal V) out = Inr b"
  shows "(\<exists>k. key = Some k \<and> RecoverKeyFromFile (ks_seal V) (ks_bip V) KeyFile f' = Inr (Some k, True))
    \<and> (src \<noteq> '''' \<longrightarrow> fetch_key V src [] 0 = Some (Inr key))"
proof -
  have r: "RecoverKeyFromFile (ks_seal V) (ks_bip V) KeyFile f = Inr (None, False)"
    using assms(2) by (simp add: RecoverKeyFromFile_def)
  show ?thesis
  proof (cases "src = ''''")
    case True
    with assms(1) r obtain key0 where "bind_res (SealKeyToFile (ks_seal V) (ks_bip V) KeyFile key0 f)
        (\<lambda>f. bind_res (deref key0) (\<lambda>k. Inr (key0, Some (bip_PublicKey (ks_bip V) k), f))) = Inr (key, pubkey, f')"
      by (auto simp: kg_start_def Let_def)
    from sealed_file [OF this assms(3,4)] True show ?thesis by simp
  next
    case False
    then obtain z where z: "fetch_key V src [] 0 = Some z"
      using r assms(1) by (cases "fetch_key V src [] 0") (auto simp: kg_start_def Let_def)
    with False r assms(1) obtain key0 where key0: "z = Inr key0"
      by (cases z) (auto simp: kg_start_def Let_def)
    with z False r assms(1) have "bind_res (SealKeyToFile (ks_seal V) (ks_bip V) KeyFile key0 f)
        (\<lambda>f. bind_res (deref key0) (\<lambda>k. Inr (key0, Some (bip_PublicKey (ks_bip V) k), f))) = Inr (key, pubkey, f')"
      by (simp add: kg_start_def Let_def)
    from sealed_file [OF this assms(3,4)] z key0 show ?thesis by simp
  qed
qed

lemma keeps_key_founded:
  assumes "kg_start V '''' Map.empty = Some (Inr (Some k, pubkey, f))" "bip32 K"
    and "\<And>b out. sl_SealWithUniqueKey (S A) b = Inr out \<Longrightarrow> sl_Unseal (S A) out = Inr b"
    and V: "ks_bip V = K" "ks_seal V = S A"
  shows "keeps_key K S k (founded A f k)"
  using kg_start_sealed [OF assms(1)] assms(2,3) by (simp add: keeps_key_def founded_def V)

lemma keeps_key_step:
  assumes "cstep K X J sha E S c c'" "keeps_key K S k c"
    and "key_exchange K E0 X J sha pub uid"
    and seal: "\<And>A b out. sl_SealWithUniqueKey (S A) b = Inr out \<Longrightarrow> sl_Unseal (S A) out = Inr b"
  shows "keeps_key K S k c'"
  using assms(1)
proof cases
  case (stop A)
  then show ?thesis using assms(2) by (simp add: keeps_key_def)
next
  case (start A V src key pubkey f)
  have K: "bip32 (ks_bip V)" using assms(3) start by (simp add: key_exchange_def)
  have "key = Some k \<and> RecoverKeyFromFile (S A) K KeyFile f = Inr (Some k, True)"
  proof (cases "mc_files (c A) KeyFile")
    case None
    then have "src \<noteq> ''''" using start by simp
    from kg_start_sealed [OF start(11) None K] seal this start obtain k' where
      k': "key = Some k'" "RecoverKeyFromFile (S A) K KeyFile f = Inr (Some k', True)"
        "fetch_key V src [] 0 = Some (Inr key)" by metis
    have "key = Some k"
    proof (rule key_exchange.fetched_key [OF assms(3) k'(3)])
      fix p body t r
      assume "ks_post V (src @ ''/xprv?pubkey='' @ p) body = Inr ((StatusOK, t), Inr r)"
      with start(9) have "mc_key (c src) \<noteq> None"
        "xprv_post (E src) X K J sha (mc_key (c src)) p body = Inr ((StatusOK, ''''), Inr r)" by blast+
      moreover have "mc_key (c src) \<in> {None, Some k}" using assms(2) by (auto simp: keeps_key_def)
      ultimately show "xprv_post (E src) X K J sha (Some k) p body = Inr ((StatusOK, ''''), Inr r)" by auto
    qed (use start in auto)
    with k' show ?thesis by simp
  next
    case (Some b)
    then have "RecoverKeyFromFile (S A) K KeyFile (mc_files (c A)) = Inr (Some k, True)"
      using assms(2) unfolding keeps_key_def by (metis option.distinct(1))
    with kg_start_from_file [of V "mc_files (c A)" k src] start show ?thesis by simp
  qed
  with assms(2) start show ?thesis by (simp add: keeps_key_def)
qed

lemma cluster_keeps_key:
  assumes "kg_start V '''' Map.empty = Some (Inr (Some k, pubkey, f))" "ks_bip V = K" "ks_seal V = S A"
    and "key_exchange K E0 X J sha pub uid"
    and "\<And>B b out. sl_SealWithUniqueKey (S B) b = Inr out \<Longrightarrow> sl_Unseal (S B) out = Inr b"
    and "(cstep K X J sha E S)\<^sup>*\<^sup>* (founded A f k) c"
  shows "keeps_key K S k c"
proof -
  have "keeps_key K S k (founded A f k)"
    using keeps_key_founded [OF assms(1), of K S A] assms(2-5) by (simp add: key_exchange_def)
  from assms(6) this show ?thesis
    by (induction rule: rtranclp_induct) (auto intro: keeps_key_step [OF _ _ assms(4,5)])
qed

section \<open>A second grantor comes up\<close>

context key_sync
begin

lemma get_xprv:
  assumes rb: "ego_GetRemoteReport E (sha256 (ec_PublicKeyBytes X s)) = Inr rb"
    and t: "create_token E (sha256 (ec_PublicKeyBytes X s)) '''' AttestationProviderURLs = Inr t"
    and self: "GetSelfReportAndCheck E = Inr self"
    and ct: "ec_Encrypt X (pub s) (bip_Serialize K k) = Inr ct"
    and net: "\<And>p body. post (base @ ''/xprv?pubkey='' @ p) body = xprv_post E X K J sha256 (Some k) p body"
  shows "GetKeyFromKeyGrantor E X K J sha256 post s base [] = Inr (Some k)"
proof -
  let ?bz = "ec_PublicKeyBytes X s" and ?p = "hex_EncodeToString (ec_PublicKeyBytes X s)"
  let ?params = "\<lparr>gk_Report = hex_EncodeToString rb, gk_JWT = t\<rparr>"
  from PadReport [OF _ rb] sha256_length obtain r
    where r: "ego_VerifyRemoteReport E rb = Inr r" "rep_Data r = sha256 ?bz @ replicate 32 0" by auto
  from Json [of ?params] obtain j where j: "json_Marshal J ?params = Inr j" "json_Unmarshal J j = Inr ?params"
    by blast
  let ?rq = "\<lparr>rq_pubkeys = [?p], rq_body = Inr j\<rparr>"
  have "?p \<noteq> ''''" using PublicKey(2) [of s] length_hex_encode [of ?bz] by (metis length_0_conv mult_eq_0_iff zero_neq_numeral)
  then have 1: "handleRequesterPubkey X ?rq = Inr (pub s, ?bz)"
    using PublicKey(1) by (simp add: handleRequesterPubkey_Inr)
  have 2: "handleGetKeyParam E J sha256 ?rq ?bz = Inr r"
    using r j created_token_verifies [OF t rb r(1)] sha256_length by (simp add: handleGetKeyParam_Inr)
  have "ego_GetSelfReport E = Inr self"
    using self by (auto simp: GetSelfReportAndCheck_def split: sum.splits if_splits option.splits)
  from OwnReport [OF rb r(1) this] have 3: "VerifyPeerReport E r self = None" by simp
  have "handle_xprv E X K J sha256 (Some k) ?rq = Response StatusOK (hex_EncodeToString ct)"
    using 1 2 3 self ct by (simp add: handle_xprv_def deref_def reply_encrypted_def del: VerifyPeerReport_None)
  then have "post (base @ ''/xprv?pubkey='' @ ?p) j = Inr ((StatusOK, ''''), Inr (hex_EncodeToString ct))"
    unfolding net by (simp add: xprv_post_def)
  then show ?thesis using rb t j(1) Decrypt [OF ct] Deserialize [of k]
    by (simp add: GetKeyFromKeyGrantor_def Let_def HttpPost_def)
qed

lemma sync_start:
  assumes "ks_ego V = E" "ks_ecies V = X" "ks_bip V = K" "ks_json V = J" "ks_sha256 V = sha256"
    and "f KeyFile = None" "base \<noteq> ''''"
    and "GenerateEciesPrivateKey (ks_newPriv V) (ks_rdrand V) 0 = Some (s, pos)"
    and "ego_GetRemoteReport E (sha256 (ec_PublicKeyBytes X s)) = Inr rb"
    and "create_token E (sha256 (ec_PublicKeyBytes X s)) '''' AttestationProviderURLs = Inr t"
    and "GetSelfReportAndCheck E = Inr self"
    and "ec_Encrypt X (pub s) (bip_Serialize K k) = Inr ct"
    and "sl_SealWithUniqueKey (ks_seal V) (bip_Serialize K k) = Inr out"
    and "\<And>p body. ks_post V (base @ ''/xprv?pubkey='' @ p) body = xprv_post E X K J sha256 (Some k) p body"
  shows "kg_start V base f = Some (Inr (Some k, Some (bip_PublicKey K k), f(KeyFile \<mapsto> out)))"
proof -
  have "fetch_key V base [] 0 = Some (Inr (Some k))"
    using assms(1-5,8) get_xprv [OF assms(9-12,14)] by (simp add: fetch_key_def)
  then show ?thesis using assms(3,6,7,13)
    by (simp add: kg_start_def Let_def RecoverKeyFromFile_def SealKeyToFile_def deref_def)
qed

end

interpretation mini_sync: key_sync path_bip32 mini_ego mini_ecies mini_json mini_sha "\<lambda>s. 2 # s" "[7]"
  by unfold_locales (auto simp: mini_ego_def mini_report_def same_enclave_def)

lemma key_sync_mini: "key_sync path_bip32 mini_ego mini_ecies mini_json mini_sha (\<lambda>s. 2 # s) [7]"
  by (rule mini_sync.key_sync_axioms)

text \<open>A machine of the packages' instances that reaches the grantor with key \<open>k\<close> at \<open>base\<close>.\<close>

definition sync_keys :: "string \<Rightarrow> (bool \<times> uint32 list) \<Rightarrow> (bool \<times> uint32 list, bytes, bytes) key_env" where
  "sync_keys base k = mini_keys\<lparr>ks_post := (\<lambda>url body.
     xprv_post mini_ego mini_ecies path_bip32 mini_json mini_sha (Some k)
       (drop (length base + length ''/xprv?pubkey='') url) body)\<rparr>"

lemma sync_keys_env [simp]:
  "ks_ego (sync_keys base k) = mini_ego" "ks_ecies (sync_keys base k) = mini_ecies"
  "ks_bip (sync_keys base k) = path_bip32" "ks_json (sync_keys base k) = mini_json"
  "ks_sha256 (sync_keys base k) = mini_sha" "ks_seal (sync_keys base k) = mini_seal"
  "ks_newPriv (sync_keys base k) = id" "ks_rdrand (sync_keys base k) = (\<lambda>i. Some 7)"
  by (simp_all add: sync_keys_def mini_keys_def)

lemma sync_keys_post:
  "ks_post (sync_keys base k) (base @ ''/xprv?pubkey='' @ p) body
    = xprv_post mini_ego mini_ecies path_bip32 mini_json mini_sha (Some k) p body"
  by (simp add: sync_keys_def)

lemma mini_self: "GetSelfReportAndCheck mini_ego = Inr (mini_report [])"
proof -
  have "VerifyPeerReport mini_ego (mini_report d) (mini_report d') = None" for d d'
    by (simp add: mini_same_enclave)
  moreover have "ego_GetSelfReport mini_ego = Inr (mini_report [])" "ego_GetRemoteReport mini_ego [1] = Inr [1]"
    "ego_VerifyRemoteReport mini_ego [1] = Inr (mini_report ([1] @ replicate 63 0))" "\<not> rep_Debug (mini_report [])"
    by (simp_all add: mini_ego_def mini_report_def)
  ultimately show ?thesis by (simp add: GetSelfReportAndCheck_def del: VerifyPeerReport_None)
qed

lemma GenerateRandomBytes_constant:
  "GenerateRandomBytes (\<lambda>i. Some x) count pos = (replicate count (ucast x), pos + count)"
proof (induction count arbitrary: pos)
  case (Suc count)
  have "rdrand16 (\<lambda>i. Some x) 10 pos = (x, pos + 1)" by (simp add: numeral_eq_Suc)
  with Suc show ?case by simp
qed simp

lemma mini_key_pair: "GenerateEciesPrivateKey id (\<lambda>i. Some 7) 0 = Some (replicate 32 7, 32)"
proof -
  have "255 * be_val (replicate n 7) + 7 = 7 * 256 ^ n" for n
    by (induction n) (simp_all add: replicate_append_same [symmetric])
  from this [of 32] have "IsValidPrivateKey (replicate 32 7)"
    by (simp add: IsValidPrivateKey_def secp256k1_N_def Let_def)
  then show ?thesis by (simp add: GenerateEciesPrivateKey.simps [of id _ 0] GenerateRandomBytes_constant)
qed

lemma mini_sync_start:
  assumes "base \<noteq> ''''"
  shows "kg_start (sync_keys base k) base Map.empty
    = Some (Inr (Some k, Some (bip_PublicKey path_bip32 k), [KeyFile \<mapsto> 7 # bip_Serialize path_bip32 k]))"
proof (rule mini_sync.sync_start [where s = "replicate 32 7" and pos = 32 and t = "''good''"
      and self = "mini_report []"])
  show "ks_post (sync_keys base k) (base @ ''/xprv?pubkey='' @ p) body
      = xprv_post mini_ego mini_ecies path_bip32 mini_json mini_sha (Some k) p body" for p body
    by (rule sync_keys_post)
  show "ec_Encrypt mini_ecies (2 # replicate 32 7) (bip_Serialize path_bip32 k)
      = Inr (2 # replicate 32 7 @ bip_Serialize path_bip32 k)" by (simp add: mini_ecies_def)
  show "create_token mini_ego d '''' AttestationProviderURLs = Inr ''good''" "ego_GetRemoteReport mini_ego d = Inr d" for d
    by (simp_all add: mini_ego_def AttestationProviderURLs_def)
qed (use assms in \<open>simp_all add: mini_key_pair mini_self mini_seal_def\<close>)


section \<open>Properties\<close>

text \<open>
  C15: a cluster has one key. Take a grantor that started without a key file and without a source, and
  let any machines start and stop any number of times, each start with a key file of its own or from
  another machine, over a network that may lose requests but delivers only answers of running grantors.
  Then every running grantor has the key of the first one, and every machine that has a key file starts
  again with it, whatever the network and its arguments then are.
\<close>

theorem cluster_shares_one_key:
  assumes "kg_start V '''' Map.empty = Some (Inr (Some k, pubkey, f))" "ks_bip V = K" "ks_seal V = S A"
    and "key_exchange K E0 X J sha pub uid"
    and "\<And>B b out. sl_SealWithUniqueKey (S B) b = Inr out \<Longrightarrow> sl_Unseal (S B) out = Inr b"
    and "(cstep K X J sha E S)\<^sup>*\<^sup>* (founded A f k) c"
  shows "mc_key (c B) \<in> {None, Some k}
    \<and> (mc_files (c B) KeyFile \<noteq> None \<and> ks_bip V' = K \<and> ks_seal V' = S B \<longrightarrow>
        kg_start V' src (mc_files (c B)) = Some (Inr (Some k, Some (bip_PublicKey K k), mc_files (c B))))"
proof -
  have "keeps_key K S k c" by (rule cluster_keeps_key [OF assms])
  then have "mc_key (c B) \<in> {None, Some k}" "mc_files (c B) KeyFile \<noteq> None
      \<Longrightarrow> RecoverKeyFromFile (S B) K KeyFile (mc_files (c B)) = Inr (Some k, True)"
    by (auto simp: keeps_key_def dest: spec [of _ B])
  then show ?thesis using kg_start_from_file [of V' "mc_files (c B)" k src] by auto
qed

lemma mini_start:
  "kg_start mini_keys '''' Map.empty = Some (Inr (Some (True, []), Some (bip_PublicKey path_bip32 (True, [])),
     [KeyFile \<mapsto> 7 # bip_Serialize path_bip32 (True, [])]))"
proof -
  have env: "ks_bip mini_keys = path_bip32" "ks_seal mini_keys = mini_seal"
    "\<And>b. ks_NewMasterKey mini_keys b = (Some (True, []), None)" by (simp_all add: mini_keys_def)
  have "GetRandomExtPrivKey (ks_NewMasterKey mini_keys) (ks_rdrand mini_keys) 0
      = Some (Some (True, []), snd (GenerateRandomBytes (ks_rdrand mini_keys) 64 0))"
    by (simp add: GetRandomExtPrivKey.simps [of _ _ 0] env prod.case_eq_if)
  then show ?thesis
    by (simp add: kg_start_def RecoverKeyFromFile_def SealKeyToFile_def deref_def mini_seal_def env Let_def)
qed

lemma mini_unseals: "sl_SealWithUniqueKey mini_seal b = Inr out \<Longrightarrow> sl_Unseal mini_seal out = Inr b"
  by (auto simp: mini_seal_def)

text \<open>The cluster of the packages' instances in which \<^verbatim>\<open>http://b\<close> has started from \<^verbatim>\<open>http://a\<close>.\<close>

definition two_machines :: "(bool \<times> uint32 list) cluster" where
  "two_machines = (founded ''http://a'' [KeyFile \<mapsto> 7 # bip_Serialize path_bip32 (True, [])] (True, []))
     (''http://b'' := \<lparr>mc_files = [KeyFile \<mapsto> 7 # bip_Serialize path_bip32 (True, [])], mc_key = Some (True, [])\<rparr>)"

lemma two_machines_step:
  "cstep path_bip32 mini_ecies mini_json mini_sha (\<lambda>_. mini_ego) (\<lambda>_. mini_seal)
     (founded ''http://a'' [KeyFile \<mapsto> 7 # bip_Serialize path_bip32 (True, [])] (True, [])) two_machines"
  unfolding two_machines_def
proof (rule cstep.start [where V = "sync_keys ''http://a'' (True, [])" and src = "''http://a''"])
  show "kg_start (sync_keys ''http://a'' (True, [])) ''http://a'' (mc_files (founded ''http://a''
      [KeyFile \<mapsto> 7 # bip_Serialize path_bip32 (True, [])] (True, []) ''http://b''))
    = Some (Inr (Some (True, []), Some (bip_PublicKey path_bip32 (True, [])),
        [KeyFile \<mapsto> 7 # bip_Serialize path_bip32 (True, [])]))"
    using mini_sync_start [of "''http://a''" "(True, [])"] by (simp add: founded_def)
next
  fix p body t s
  assume "ks_post (sync_keys ''http://a'' (True, [])) (''http://a'' @ ''/xprv?pubkey='' @ p) body
      = Inr ((StatusOK, t), Inr s)"
  then have "xprv_post mini_ego mini_ecies path_bip32 mini_json mini_sha (Some (True, [])) p body = Inr ((StatusOK, t), Inr s)"
    unfolding sync_keys_post .
  moreover from this have "t = ''''" by (auto simp: xprv_post_def split: http_response.splits)
  ultimately show "mc_key (founded ''http://a'' [KeyFile \<mapsto> 7 # bip_Serialize path_bip32 (True, [])] (True, []) ''http://a'') \<noteq> None
      \<and> xprv_post mini_ego mini_ecies path_bip32 mini_json mini_sha
          (mc_key (founded ''http://a'' [KeyFile \<mapsto> 7 # bip_Serialize path_bip32 (True, [])] (True, []) ''http://a'')) p body
        = Inr ((StatusOK, ''''), Inr s)"
    by (simp add: founded_def)
qed (simp_all add: founded_def)

theorem cluster_shares_one_key_witness:
  "mc_key (two_machines ''http://b'') \<in> {None, Some (True, [])} \<and> mc_key (two_machines ''http://b'') \<noteq> None
    \<and> kg_start mini_keys ''http://c'' (mc_files (two_machines ''http://b''))
      = Some (Inr (Some (True, []), Some (bip_PublicKey path_bip32 (True, [])), mc_files (two_machines ''http://b'')))"
proof -
  have V: "ks_bip mini_keys = path_bip32" "ks_seal mini_keys = mini_seal" by (simp_all add: mini_keys_def)
  have "mc_key (two_machines ''http://b'') \<noteq> None" "mc_files (two_machines ''http://b'') KeyFile \<noteq> None"
    by (simp_all add: two_machines_def)
  moreover note cluster_shares_one_key [where S = "\<lambda>_. mini_seal" and A = "''http://a''", OF mini_start V key_exchange_mini mini_unseals
      r_into_rtranclp [where r = "cstep path_bip32 mini_ecies mini_json mini_sha (\<lambda>_. mini_ego) (\<lambda>_. mini_seal)",
        OF two_machines_step], of "''http://b''" mini_keys "''http://c''"]
  ultimately show ?thesis using V by blast
qed



text \<open>
  C17: nobody vouches for a source. \<^verbatim>\<open>GetKeyFromKeyGrantor\<close> attests the client to the server and nothing the other
  way round: a server without an enclave that takes the public key from the query and encrypts a key of its
  choice to it makes a fresh grantor start with that key, seal it and hand it on as its own.
\<close>

theorem start_takes_any_key:
  assumes "key_exchange (ks_bip V) E0 (ks_ecies V) (ks_json V) (ks_sha256 V) pub uid"
    and "f KeyFile = None" "base \<noteq> ''''"
    and "GenerateEciesPrivateKey (ks_newPriv V) (ks_rdrand V) 0 = Some (s, pos)"
    and "ego_GetRemoteReport (ks_ego V) (ks_sha256 V (ec_PublicKeyBytes (ks_ecies V) s)) = Inr rb"
    and "create_token (ks_ego V) (ks_sha256 V (ec_PublicKeyBytes (ks_ecies V) s)) '''' AttestationProviderURLs = Inr t"
    and "ec_Encrypt (ks_ecies V) (pub s) (bip_Serialize (ks_bip V) evil) = Inr ct"
    and "sl_SealWithUniqueKey (ks_seal V) (bip_Serialize (ks_bip V) evil) = Inr out"
    and "\<And>p bz P ct body. hex_DecodeString p = Some bz \<Longrightarrow> ec_NewPublicKeyFromBytes (ks_ecies V) bz = Inr P
      \<Longrightarrow> ec_Encrypt (ks_ecies V) P (bip_Serialize (ks_bip V) evil) = Inr ct
      \<Longrightarrow> ks_post V (base @ ''/xprv?pubkey='' @ p) body = Inr ((StatusOK, ''''), Inr (hex_EncodeToString ct))"
  shows "kg_start V base f = Some (Inr (Some evil, Some (bip_PublicKey (ks_bip V) evil), f(KeyFile \<mapsto> out)))"
proof -
  have "fetch_key V base [] 0 = Some (Inr (Some evil))"
    using assms(4) key_exchange.any_reply [OF assms(1,5,6,7), of "ks_post V" base] assms(9)
    by (simp add: fetch_key_def)
  then show ?thesis using assms(2,3,8)
    by (simp add: kg_start_def Let_def RecoverKeyFromFile_def SealKeyToFile_def deref_def)
qed

text \<open>The environment of a machine whose network leads to such a server.\<close>

definition planted_keys :: "string \<Rightarrow> (bool \<times> uint32 list) \<Rightarrow> (bool \<times> uint32 list, bytes, bytes) key_env" where
  "planted_keys base evil = mini_keys\<lparr>ks_post := (\<lambda>url body.
     case hex_DecodeString (drop (length base + length ''/xprv?pubkey='') url) of
       None \<Rightarrow> Inl ''EOF''
     | Some bz \<Rightarrow> Inr ((StatusOK, ''''), Inr (hex_EncodeToString (bz @ bip_Serialize path_bip32 evil))))\<rparr>"

theorem start_takes_any_key_witness:
  "kg_start (planted_keys ''http://e'' (True, [6, 6, 6])) ''http://e'' Map.empty
    = Some (Inr (Some (True, [6, 6, 6]), Some (bip_PublicKey path_bip32 (True, [6, 6, 6])),
        [KeyFile \<mapsto> 7 # bip_Serialize path_bip32 (True, [6, 6, 6])]))"
proof -
  let ?V = "planted_keys ''http://e'' (True, [6, 6, 6])"
  have V: "ks_ego ?V = mini_ego" "ks_ecies ?V = mini_ecies" "ks_bip ?V = path_bip32" "ks_json ?V = mini_json"
    "ks_sha256 ?V = mini_sha" "ks_seal ?V = mini_seal" "ks_newPriv ?V = id" "ks_rdrand ?V = (\<lambda>i. Some 7)"
    by (simp_all add: planted_keys_def mini_keys_def)
  have post: "hex_DecodeString p = Some bz \<Longrightarrow> ec_NewPublicKeyFromBytes mini_ecies bz = Inr P
      \<Longrightarrow> ec_Encrypt mini_ecies P (bip_Serialize path_bip32 (True, [6, 6, 6])) = Inr ct
      \<Longrightarrow> ks_post ?V (''http://e'' @ ''/xprv?pubkey='' @ p) body = Inr ((StatusOK, ''''), Inr (hex_EncodeToString ct))"
    for p bz P ct body by (auto simp: planted_keys_def mini_ecies_def)
  have 1: "ec_Encrypt mini_ecies (2 # replicate 32 7) b = Inr (2 # replicate 32 7 @ b)"
    "sl_SealWithUniqueKey mini_seal b = Inr (7 # b)"
    "ego_GetRemoteReport mini_ego b = Inr b" for b by (simp_all add: mini_ecies_def mini_seal_def mini_ego_def)
  have 2: "create_token mini_ego d '''' AttestationProviderURLs = Inr ''good''" for d
    by (simp add: mini_ego_def AttestationProviderURLs_def)
  note planted = start_takes_any_key [of ?V mini_ego "\<lambda>s. 2 # s" "[7]" Map.empty "''http://e''" "replicate 32 7" 32,
      unfolded V]
  from planted [OF key_exchange_mini refl _ mini_key_pair 1(3) 2 1(1,2) post] show ?thesis by simp
qed

end
