(* ===== verification/HttpServers.thy ===== *)
theory HttpServers
  imports KeyStore
begin

text \<open>
  The servers: the registration of the handlers of the grantor (\<^verbatim>\<open>createAndStartHttpServer\<close> in
  \<^verbatim>\<open>keygrantor/cmd/main.go\<close>) and of its client (\<^verbatim>\<open>CreateAndStartHttpsServer\<close> and \<^verbatim>\<open>createCertificate\<close> in
  \<^verbatim>\<open>keygrantor/simpleclient.go\<close>), and the choice of the handler for a path by \<^verbatim>\<open>net/http\<close>.
\<close>

section \<open>The default multiplexer\<close>

text \<open>
  Patterns are paths, in the order of their registration: those of the programs name no host. Paths are
  clean, that is, what is left after the redirections \<^verbatim>\<open>net/http\<close> makes.
\<close>

type_synonym 'h mux = "(string \<times> 'h) list"

definition HandleFunc :: "string \<Rightarrow> 'h option \<Rightarrow> 'h mux \<Rightarrow> 'h mux res" where
  "HandleFunc pattern handler m =
     (if pattern = '''' then Inl (PError ''http: invalid pattern'')
      else case handler of
        None \<Rightarrow> Inl (PError ''http: nil handler'')
      | Some h \<Rightarrow>
          if map_of m pattern \<noteq> None then Inl (PError (''http: multiple registrations for '' @ pattern))
          else Inr (m @ [(pattern, h)]))"

definition mux_match :: "'h mux \<Rightarrow> string \<Rightarrow> 'h option" where
  "mux_match m path =
     (case map_of m path of
        Some h \<Rightarrow> Some h
      | None \<Rightarrow>
          map_option snd (fold (\<lambda>(p, h) best.
              if p \<noteq> '''' \<and> last p = CHR ''/'' \<and> take (length p) path = p
                 \<and> (case best of None \<Rightarrow> True | Some (q, _) \<Rightarrow> length q < length p)
              then Some (p, h) else best) m None))"

type_synonym http_handler = "http_request \<Rightarrow> http_response option"

definition serve :: "http_handler mux \<Rightarrow> string \<Rightarrow> http_request \<Rightarrow> http_response option" where
  "serve m path r = (case mux_match m path of None \<Rightarrow> Some (Response 404 (''404 page not found'' @ [CHR 0x0A])) | Some h \<Rightarrow> h r)"

section \<open>The grantor\<close>

definition createAndStartHttpServer ::
  "ego_api \<Rightarrow> ('p, 's) ecies_api \<Rightarrow> 'k bip32_api \<Rightarrow> json_api \<Rightarrow> (bytes \<Rightarrow> bytes) \<Rightarrow> 'k option \<Rightarrow> 'k option
     \<Rightarrow> http_handler mux \<Rightarrow> http_handler mux res" where
  "createAndStartHttpServer E X K J sha256 ExtPrivKey ExtPubKey m =
     bind_res (HandleFunc ''/xpub'' (Some (\<lambda>r. Some (handle_xpub K ExtPubKey))) m) (\<lambda>m.
     bind_res (HandleFunc ''/report'' (Some (\<lambda>r. Some (handle_report E K sha256 ExtPubKey))) m) (\<lambda>m.
     bind_res (HandleFunc ''/xprv'' (Some (\<lambda>r. Some (handle_xprv E X K J sha256 ExtPrivKey r))) m) (\<lambda>m.
     HandleFunc ''/getkey'' (Some (handle_getkey E X K J sha256 ExtPrivKey)) m)))"

section \<open>The client's certificate and server\<close>

text \<open>A time is in nanoseconds; the fields of the template that are not set are zero.\<close>

record cert_template =
  ct_SerialNumber :: int
  ct_CommonName :: string
  ct_NotAfter :: int
  ct_DNSNames :: "string list"

record 'v tls_config =
  tc_Certificates :: "(bytes list \<times> 'v) list"

text \<open>
  \<^verbatim>\<open>crypto/rsa\<close> and \<^verbatim>\<open>crypto/x509\<close> read random bytes from the reader they are given, from a position on.
\<close>

type_synonym rand_reader = "nat \<Rightarrow> nat \<Rightarrow> (bytes \<times> int \<times> string option) \<times> nat"

record ('v, 'u) x509_api =
  xk_GenerateKey :: "rand_reader \<Rightarrow> nat \<Rightarrow> nat \<Rightarrow> ('v option \<times> string option) \<times> nat"
  xk_PublicKey :: "'v \<Rightarrow> 'u"
  xk_CreateCertificate :: "rand_reader \<Rightarrow> cert_template \<Rightarrow> cert_template \<Rightarrow> 'u \<Rightarrow> 'v \<Rightarrow> nat
    \<Rightarrow> (bytes \<times> string option) \<times> nat"

text \<open>Both errors are dropped: a nil key is dereferenced, a nil certificate is used.\<close>

definition createCertificate ::
  "('v, 'u) x509_api \<Rightarrow> rdrand \<Rightarrow> int \<Rightarrow> string \<Rightarrow> nat \<Rightarrow> (bytes \<times> 'v \<times> 'v tls_config) res" where
  "createCertificate L r now serverName pos =
     (let template = \<lparr>ct_SerialNumber = 0, ct_CommonName = serverName,
            ct_NotAfter = now + 10 * 365 * 24 * 3600 * 10 ^ 9, ct_DNSNames = [serverName]\<rparr>;
          randReader = RandReader_Read r;
          ((priv, _), pos) = xk_GenerateKey L randReader 2048 pos in
      bind_res (deref priv) (\<lambda>priv.
        let ((cert, _), pos) = xk_CreateCertificate L randReader template template (xk_PublicKey L priv) priv pos in
        Inr (cert, priv, \<lparr>tc_Certificates = [([cert], priv)]\<rparr>)))"

text \<open>The handlers of the caller, in the order the loop over their map happens to take.\<close>

primrec handle_all_funcs :: "(string \<times> 'h option) list \<Rightarrow> 'h mux \<Rightarrow> 'h mux res" where
  "handle_all_funcs [] m = Inr m"
| "handle_all_funcs (nh # hs) m = bind_res (HandleFunc (fst nh) (snd nh) m) (handle_all_funcs hs)"

definition CreateAndStartHttpsServer ::
  "ego_api \<Rightarrow> (bytes \<Rightarrow> bytes) \<Rightarrow> ('v, 'u) x509_api \<Rightarrow> rdrand \<Rightarrow> int \<Rightarrow> ('k, 'q) SimpleClient option \<Rightarrow> string
     \<Rightarrow> (string \<times> http_handler option) list \<Rightarrow> http_handler mux \<Rightarrow> nat \<Rightarrow> (http_handler mux \<times> 'v tls_config) res" where
  "CreateAndStartHttpsServer E sha256 L r now sc serverName handlers m pos =
     bind_res (createCertificate L r now serverName pos) (\<lambda>(cert, _, tlsCfg).
     bind_res (deref sc) (\<lambda>sc.
     bind_res (HandleFunc ''/cert'' (Some (\<lambda>r. Some (sc_cert cert))) m) (\<lambda>m.
     bind_res (HandleFunc ''/pubkey'' (Some (\<lambda>r. Some (sc_pubkey sha256 sc))) m) (\<lambda>m.
     bind_res (HandleFunc ''/report'' (Some (\<lambda>r. Some (sc_report E sha256 cert sc))) m) (\<lambda>m.
     bind_res (HandleFunc ''/token'' (Some (\<lambda>r. Some (sc_token E sha256 cert sc))) m) (\<lambda>m.
     bind_res (handle_all_funcs handlers m) (\<lambda>m.
     Inr (m, tlsCfg))))))))"

section \<open>Registration\<close>

lemma HandleFunc_Inr [simp]:
  "HandleFunc pattern handler m = Inr m' \<longleftrightarrow>
    (\<exists>h. pattern \<noteq> '''' \<and> handler = Some h \<and> map_of m pattern = None \<and> m' = m @ [(pattern, h)])"
  by (auto simp: HandleFunc_def split: option.splits)

lemma handle_all_funcs_Inr:
  "handle_all_funcs hs m = Inr m' \<longleftrightarrow>
    (\<exists>us. hs = map (\<lambda>(n, h). (n, Some h)) us \<and> m' = m @ us \<and> distinct (map fst us)
      \<and> (\<forall>n \<in> fst ` set us. n \<noteq> '''' \<and> n \<notin> fst ` set m))"
proof (induction hs arbitrary: m)
  case (Cons nh hs)
  obtain n h where nh: "nh = (n, h)" by (cases nh)
  show ?case
  proof (cases h)
    case None
    then show ?thesis by (auto simp: nh HandleFunc_def)
  next
    case (Some g)
    have "handle_all_funcs (nh # hs) m = Inr m' \<longleftrightarrow>
        n \<noteq> '''' \<and> n \<notin> fst ` set m \<and> handle_all_funcs hs (m @ [(n, g)]) = Inr m'"
      by (auto simp: nh Some map_of_eq_None_iff simp del: handle_all_funcs.simps(1))
    also have "\<dots> \<longleftrightarrow> (\<exists>us. nh # hs = map (\<lambda>(n, h). (n, Some h)) us \<and> m' = m @ us \<and> distinct (map fst us)
        \<and> (\<forall>n \<in> fst ` set us. n \<noteq> '''' \<and> n \<notin> fst ` set m))"
      unfolding Cons.IH by (auto simp: nh Some Cons_eq_map_conv) (metis fst_conv rev_image_eqI)
    finally show ?thesis .
  qed
qed auto

lemma mux_exact: "map_of m path = Some h \<Longrightarrow> mux_match m path = Some h"
  by (simp add: mux_match_def)

text \<open>The four handlers of the grantor, and nothing else.\<close>

lemma createAndStartHttpServer_serves:
  assumes "createAndStartHttpServer E X K J sha256 key pubkey [] = Inr m"
  shows "serve m ''/xpub'' r = Some (handle_xpub K pubkey)"
    and "serve m ''/report'' r = Some (handle_report E K sha256 pubkey)"
    and "serve m ''/xprv'' r = Some (handle_xprv E X K J sha256 key r)"
    and "serve m ''/getkey'' r = handle_getkey E X K J sha256 key r"
    and "path \<notin> {''/xpub'', ''/report'', ''/xprv'', ''/getkey''} \<Longrightarrow>
      serve m path r = Some (Response 404 (''404 page not found'' @ [CHR 0x0A]))"
  using assms by (auto simp: createAndStartHttpServer_def serve_def mux_match_def)

lemma createAndStartHttpServer_starts:
  "\<exists>m. createAndStartHttpServer E X K J sha256 key pubkey [] = Inr m"
  by (simp add: createAndStartHttpServer_def HandleFunc_def)

definition reserved_paths :: "string list" where
  "reserved_paths = [''/cert'', ''/pubkey'', ''/report'', ''/token'']"

text \<open>The server of the client starts if and only if a key is made and the caller's patterns are its own.\<close>

lemma CreateAndStartHttpsServer_Inr:
  "CreateAndStartHttpsServer E sha256 L r now (Some sc) serverName handlers [] pos = Inr (m, tls) \<longleftrightarrow>
    (\<exists>cert priv us. createCertificate L r now serverName pos = Inr (cert, priv, tls)
      \<and> handlers = map (\<lambda>(n, h). (n, Some h)) us \<and> distinct (map fst us)
      \<and> (\<forall>n \<in> fst ` set us. n \<noteq> '''' \<and> n \<notin> set reserved_paths)
      \<and> m = [(''/cert'', \<lambda>r. Some (sc_cert cert)), (''/pubkey'', \<lambda>r. Some (sc_pubkey sha256 sc)),
             (''/report'', \<lambda>r. Some (sc_report E sha256 cert sc)), (''/token'', \<lambda>r. Some (sc_token E sha256 cert sc))] @ us)"
  by (auto simp: CreateAndStartHttpsServer_def deref_def handle_all_funcs_Inr reserved_paths_def)

lemma createCertificate_tls:
  "createCertificate L r now serverName pos = Inr (cert, priv, tls) \<Longrightarrow> tc_Certificates tls = [([cert], priv)]"
  by (auto simp: createCertificate_def Let_def case_prod_beta)

section \<open>Properties\<close>


text \<open>Keys are single bytes of the reader, certificates the name.\<close>

definition mini_x509 :: "(bytes, bytes) x509_api" where
  "mini_x509 = \<lparr>xk_GenerateKey = (\<lambda>rd bits pos. case rd 1 pos of ((out, _, _), pos) \<Rightarrow> ((Some out, None), pos)),
     xk_PublicKey = id,
     xk_CreateCertificate = (\<lambda>rd t parent pk key pos. ((pk @ bytes_of_string (ct_CommonName t), None), pos))\<rparr>"


end
