(* ===== verification/ClientKeys.thy ===== *)
theory ClientKeys
  imports KeySync HttpServers
begin

text \<open>
  The client of \<^verbatim>\<open>keygrantor/simpleclient.go\<close> and the grantors of a cluster together: which keys \<^verbatim>\<open>InitKeys\<close>
  can end with.
\<close>

section \<open>The client against /getkey\<close>

context key_exchange
begin

lemma got_key:
  assumes got: "GetKeyFromKeyGrantor E X K J sha256 post s base clientData = Inr key"
    and len: "length clientData = 32"
    and net: "\<And>p body t r. post (base @ ''/getkey?pubkey='' @ p) body = Inr ((StatusOK, t), Inr r)
      \<Longrightarrow> handle_getkey E X K J sha256 (Some k) \<lparr>rq_pubkeys = [p], rq_body = Inr body\<rparr> = Some (Response StatusOK r)"
  shows "\<exists>c. key = Some c \<and> child_walk K k (path_of (sha256 (uid @ clientData))) = Some c"
proof -
  let ?bz = "ec_PublicKeyBytes X s" and ?p = "hex_EncodeToString (ec_PublicKeyBytes X s)"
  let ?d = "sha256 ?bz @ clientData"
  have "clientData \<noteq> []" using len by auto
  with got obtain rb tok j res resBz keyBz where
    rb: "ego_GetRemoteReport E ?d = Inr rb"
    and j: "json_Marshal J \<lparr>gk_Report = hex_EncodeToString rb, gk_JWT = tok\<rparr> = Inr j"
    and post: "HttpPost post (base @ ''/getkey?pubkey='' @ ?p) j = Inr res"
    and hex: "hex_DecodeString res = Some resBz"
    and dec: "ec_Decrypt X s resBz = Inr keyBz" and des: "bip_Deserialize K keyBz = (key, None)"
    by (auto simp: GetKeyFromKeyGrantor_def Let_def split: sum.splits option.splits prod.splits)
  let ?rq = "\<lparr>rq_pubkeys = [?p], rq_body = Inr j\<rparr>"
  from post obtain t where "post (base @ ''/getkey?pubkey='' @ ?p) j = Inr ((StatusOK, t), Inr res)"
    by (auto simp: HttpPost_def split: sum.splits prod.splits if_splits)
  from net [OF this] have ok: "handle_getkey E X K J sha256 (Some k) ?rq = Some (Response StatusOK res)" .
  have "length ?d = 64" using len sha256_length by simp
  from RemoteReport [OF this rb] obtain r
    where r: "ego_VerifyRemoteReport E rb = Inr r" "rep_Data r = ?d" "rep_UniqueID r = uid" by blast
  have "?p \<noteq> ''''" using PublicKey(2) [of s] length_hex_encode [of ?bz] by (metis length_0_conv mult_eq_0_iff zero_neq_numeral)
  then have 1: "handleRequesterPubkey X ?rq = Inr (pub s, ?bz)"
    using PublicKey(1) by (simp add: handleRequesterPubkey_Inr)
  have "json_Unmarshal J j = Inr \<lparr>gk_Report = hex_EncodeToString rb, gk_JWT = tok\<rparr>"
    using Json [of "\<lparr>gk_Report = hex_EncodeToString rb, gk_JWT = tok\<rparr>"] j by auto
  then have 2: "handleGetKeyParam E J sha256 ?rq ?bz = Inr r'' \<Longrightarrow> r'' = r" for r''
    using r(1) by (auto simp: handleGetKeyParam_Inr)
  have "drop 32 (rep_Data r) = clientData" using r(2) sha256_length by simp
  with ok 1 2 r(3) obtain c where c: "child_walk K k (path_of (sha256 (uid @ clientData))) = Some c"
    and enc: "reply_encrypted X ''failed to encrypted derivedKey'' (pub s) (bip_Serialize K c) = Response StatusOK res"
    by (auto simp: handle_getkey_def handleKeyDerive_result dest: helpers_Inl_status split: sum.splits option.splits)
  from enc obtain ct where "ec_Encrypt X (pub s) (bip_Serialize K c) = Inr ct" "res = hex_EncodeToString ct"
    by (auto simp: reply_encrypted_OK)
  with hex dec des Decrypt Deserialize [of c] have "key = Some c" by auto
  with c show ?thesis by blast
qed

end

section \<open>InitKeys\<close>

lemma InitKeys_fetched:
  assumes "InitKeys V privFrom pubBytes (Some sc) src clientData False f = Some (Inr sc')"
  shows "\<exists>c. fetch_key V src clientData 0 = Some (Inr (Some c))
    \<and> sc' = sc\<lparr>sc_ExtPrivKey := Some c, sc_ExtPubKey := Some (bip_PublicKey (ks_bip V) c),
        sc_PrivKey := Some (privFrom (bip_Key (ks_bip V) c)), sc_PubKeyBz := pubBytes (privFrom (bip_Key (ks_bip V) c))\<rparr>"
proof -
  obtain z where z: "fetch_key V src clientData 0 = Some z"
    using assms by (cases "fetch_key V src clientData 0") (auto simp: InitKeys_def Let_def)
  with assms obtain key where key: "z = Inr key" by (cases z) (auto simp: InitKeys_def Let_def deref_def)
  with z assms obtain c where "key = Some c" by (cases key) (auto simp: InitKeys_def Let_def deref_def)
  with z key assms show ?thesis by (auto simp: InitKeys_def Let_def deref_def)
qed

text \<open>The keys a client has for an extended key.\<close>

definition holds_key :: "'k bip32_api \<Rightarrow> (bytes \<Rightarrow> 'q) \<Rightarrow> ('q \<Rightarrow> bytes) \<Rightarrow> 'k \<Rightarrow> ('k, 'q) SimpleClient \<Rightarrow> bool" where
  "holds_key K privFrom pubBytes c sc \<longleftrightarrow> sc_ExtPrivKey sc = Some c \<and> sc_ExtPubKey sc = Some (bip_PublicKey K c)
     \<and> sc_PrivKey sc = Some (privFrom (bip_Key K c)) \<and> sc_PubKeyBz sc = pubBytes (privFrom (bip_Key K c))"

section \<open>Properties\<close>


text \<open>A client that reaches the second machine of the small cluster.\<close>

definition client_env :: "(bool \<times> uint32 list, bytes, bytes) key_env" where
  "client_env = mini_keys\<lparr>ks_post := mini_net ''http://b'' (True, [])\<rparr>"

lemma client_env_simps [simp]:
  "ks_ego client_env = mini_ego" "ks_ecies client_env = mini_ecies" "ks_bip client_env = path_bip32"
  "ks_json client_env = mini_json" "ks_sha256 client_env = mini_sha" "ks_newPriv client_env = id"
  "ks_rdrand client_env = (\<lambda>i. Some 7)" "ks_post client_env = mini_net ''http://b'' (True, [])"
  by (simp_all add: client_env_def mini_keys_def)

lemma mini_net_getkey:
  "mini_net base k (base @ ''/getkey?pubkey='' @ p) body =
    (case handle_getkey mini_ego mini_ecies path_bip32 mini_json mini_sha (Some k)
       \<lparr>rq_pubkeys = [p], rq_body = Inr body\<rparr> of
       Some (Response st s) \<Rightarrow> Inr ((st, ''''), Inr s) | _ \<Rightarrow> Inl ''EOF'')"
  by (simp add: mini_net_def)

lemma path_walk: "child_walk path_bip32 (True, p) is' = Some (True, p @ map of_nat is')"
  by (induction is' arbitrary: p) (simp_all add: path_bip32_def)

lemma client_env_fetch:
  assumes "length d = 32"
  shows "fetch_key client_env ''http://b'' d 0 = Some (Inr (Some (True, map of_nat (path_of (mini_sha ([7] @ d))))))"
proof -
  have r: "ego_GetRemoteReport mini_ego e = Inr e" and t: "create_token mini_ego e '''' AttestationProviderURLs = Inr ''good''"
    and e: "ec_Encrypt mini_ecies q m = Inr (q @ m)" for e q m
    by (simp_all add: mini_ego_def AttestationProviderURLs_def mini_ecies_def)
  have walk: "child_walk path_bip32 (True, []) is' = Some (True, map of_nat is')" for is'
    using path_walk [of "[]" is'] by simp
  from mini_exchange.get_key [OF assms r t walk e mini_net_getkey] show ?thesis
    by (simp add: fetch_key_def mini_key_pair)
qed


end
