(* ===== verification/GoText.thy ===== *)
theory GoText
  imports GoStd
begin

text \<open>
  Text functions of the Go standard library: \<^verbatim>\<open>strings.TrimSpace\<close>, \<^verbatim>\<open>strings.Split\<close> on one character,
  \<^verbatim>\<open>bufio.Scanner\<close> with its default split function and buffer, and decimal numbers with a sign
  (\<^verbatim>\<open>strconv.Itoa\<close>, \<^verbatim>\<open>strconv.Atoi\<close>).
\<close>

section \<open>TrimSpace\<close>

text \<open>The UTF-8 encodings of the characters of \<^verbatim>\<open>unicode.IsSpace\<close>.\<close>

definition go_spaces :: "string list" where
  "go_spaces =
     map (\<lambda>c. [char_of c]) [9, 10, 11, 12, 13, 32 :: nat]
     @ map (map char_of) ([[0xc2, 0x85], [0xc2, 0xa0], [0xe1, 0x9a, 0x80]]
         @ map (\<lambda>k. [0xe2, 0x80, k]) ([0x80..<0x8b] @ [0xa8, 0xa9, 0xaf])
         @ [[0xe2, 0x81, 0x9f], [0xe3, 0x80, 0x80 :: nat]])"

function trim_left :: "string list \<Rightarrow> string \<Rightarrow> string" where
  "trim_left sp s =
     (case List.find (\<lambda>e. e \<noteq> [] \<and> take (length e) s = e) sp of
        None \<Rightarrow> s
      | Some e \<Rightarrow> trim_left sp (drop (length e) s))"
  by pat_completeness auto
termination
proof (relation "measure (\<lambda>(sp, s). length s)", goal_cases)
  case (2 sp s e)
  then have "e \<noteq> []" "take (length e) s = e" by (auto simp: find_Some_iff)
  then show ?case by (cases s) auto
qed simp

declare trim_left.simps [simp del]

definition TrimSpace :: "string \<Rightarrow> string" where
  "TrimSpace s = rev (trim_left (map rev go_spaces) (rev (trim_left go_spaces s)))"

lemma trim_left_id:
  assumes "s = c # t" "\<forall>e \<in> set sp. hd e \<noteq> c"
  shows "trim_left sp s = s"
proof -
  have "take (length e) s \<noteq> e" if "e \<in> set sp" "e \<noteq> []" for e
    using assms that by (cases e) auto
  then have "List.find (\<lambda>e. e \<noteq> [] \<and> take (length e) s = e) sp = None"
    by (auto simp: find_None_iff)
  then show ?thesis by (simp add: trim_left.simps)
qed

text \<open>A text between braces, as a JSON object is, has nothing to trim.\<close>

lemma TrimSpace_braces:
  assumes "s = CHR ''{'' # t" "last s = CHR ''}''"
  shows "TrimSpace s = s"
proof -
  have s: "rev s = CHR ''}'' # rev (butlast s)"
    using assms by (metis append_butlast_last_id list.discI rev_append rev_singleton_conv append_Cons append_Nil rev.simps(2) rev_rev_ident)
  have "\<forall>e \<in> set go_spaces. hd e \<noteq> CHR ''{''" "\<forall>e \<in> set (map rev go_spaces). hd e \<noteq> CHR ''}''"
    by (simp_all add: go_spaces_def upt_rec char_of_eq_iff)
  with trim_left_id [OF assms(1)] trim_left_id [OF s] show ?thesis
    by (simp add: TrimSpace_def)
qed

section \<open>Splitting\<close>

text \<open>\<^verbatim>\<open>strings.Split(s, c)\<close> for a separator of one character: never an empty list.\<close>

primrec split_on :: "char \<Rightarrow> string \<Rightarrow> string list" where
  "split_on c [] = [[]]"
| "split_on c (x # s) =
     (if x = c then [] # split_on c s
      else case split_on c s of [] \<Rightarrow> [[x]] | f # fs \<Rightarrow> (x # f) # fs)"

lemma split_on_not_Nil [simp]: "split_on c s \<noteq> []"
  by (induction s) (auto split: list.split)

lemma split_on_none: "c \<notin> set s \<Longrightarrow> split_on c s = [s]"
  by (induction s) auto

lemma split_on_append: "c \<notin> set s \<Longrightarrow> split_on c (s @ c # t) = s # split_on c t"
  by (induction s) auto

lemma length_split_on: "length (split_on c s) = Suc (count_list s c)"
  by (induction s) (auto split: list.split)

section \<open>Lines\<close>

text \<open>
  The tokens of \<^verbatim>\<open>bufio.NewScanner\<close>: lines without their end, a trailing carriage return dropped. A line
  that does not fit the buffer of 64 KiB with its end stops the scanner.
\<close>

definition dropCR :: "bytes \<Rightarrow> bytes" where
  "dropCR l = (if l \<noteq> [] \<and> last l = 13 then butlast l else l)"

function scan_lines :: "bytes \<Rightarrow> bytes list" where
  "scan_lines b =
     (let line = takeWhile (\<lambda>x. x \<noteq> 10) b; rest = dropWhile (\<lambda>x. x \<noteq> 10) b in
      if b = [] \<or> length line \<ge> 65536 then []
      else dropCR line # (if rest = [] then [] else scan_lines (tl rest)))"
  by pat_completeness auto
termination
proof (relation "measure length", goal_cases)
  case (2 b line rest)
  have "length rest \<le> length b" unfolding 2 by (rule length_dropWhile_le)
  with 2(4) have "length (tl rest) < length b" by (cases rest) simp_all
  then show ?case by simp
qed simp

declare scan_lines.simps [simp del]

text \<open>Lines the scanner returns as they are.\<close>

definition clean_line :: "bytes \<Rightarrow> bool" where
  "clean_line l \<longleftrightarrow> 10 \<notin> set l \<and> (l = [] \<or> last l \<noteq> 13) \<and> length l < 65536"

lemma scan_lines_join:
  "\<forall>l \<in> set ls. clean_line l \<Longrightarrow> scan_lines (concat (map (\<lambda>l. l @ [10]) ls)) = ls"
proof (induction ls)
  case Nil
  then show ?case by (simp add: scan_lines.simps)
next
  case (Cons l ls)
  let ?b = "l @ 10 # concat (map (\<lambda>l. l @ [10]) ls)"
  from Cons.prems have l: "10 \<notin> set l" "dropCR l = l" "length l < 65536"
    by (auto simp: clean_line_def dropCR_def)
  then have "takeWhile (\<lambda>x. x \<noteq> 10) ?b = l"
    "dropWhile (\<lambda>x. x \<noteq> 10) ?b = 10 # concat (map (\<lambda>l. l @ [10]) ls)"
    by (auto simp: takeWhile_append2 dropWhile_append2 intro!: takeWhile_append2 [THEN trans] dropWhile_append2 [THEN trans])
  with l Cons show ?case by (subst scan_lines.simps) (simp add: Let_def)
qed

text \<open>Whole lines as text, and what the scanner does after them.\<close>

definition as_lines :: "bytes list \<Rightarrow> bytes" where
  "as_lines ls = concat (map (\<lambda>l. l @ [10]) ls)"

lemma as_lines_simps [simp]: "as_lines [] = []" "as_lines (xs @ ys) = as_lines xs @ as_lines ys" "as_lines [l] = l @ [10]"
  by (simp_all add: as_lines_def)

lemma scan_line:
  "scan_lines (l @ 10 # b) =
     (let line = takeWhile (\<lambda>x. x \<noteq> 10) (l @ [10]) in
      if length line \<ge> 65536 then [] else dropCR line # scan_lines (tl (dropWhile (\<lambda>x. x \<noteq> 10) (l @ 10 # b))))"
proof -
  have t: "takeWhile (\<lambda>x. x \<noteq> 10) (l @ 10 # b) = takeWhile (\<lambda>x. x \<noteq> 10) (l @ [10])" by (induction l) auto
  have d: "dropWhile (\<lambda>x. x \<noteq> 10) (l @ 10 # b) \<noteq> []" by (induction l) auto
  show ?thesis by (subst scan_lines.simps) (simp add: Let_def t d)
qed

lemma scan_clean_line: "clean_line l \<Longrightarrow> scan_lines (l @ 10 # b) = l # scan_lines b"
proof -
  assume c: "clean_line l"
  then have t: "takeWhile (\<lambda>x. x \<noteq> 10) (l @ [10]) = l" "dropWhile (\<lambda>x. x \<noteq> 10) (l @ 10 # b) = 10 # b"
    by (auto simp: clean_line_def takeWhile_append2 dropWhile_append2 intro!: takeWhile_append2 [THEN trans] dropWhile_append2 [THEN trans])
  from c have "dropCR l = l" "length l < 65536" by (auto simp: clean_line_def dropCR_def)
  then show ?thesis unfolding scan_line t by simp
qed

lemma scan_as_lines: "\<forall>l \<in> set ls. clean_line l \<Longrightarrow> scan_lines (as_lines ls @ b) = ls @ scan_lines b"
  by (induction ls) (simp_all add: as_lines_def scan_clean_line)

section \<open>Signed decimal numbers\<close>

definition itoa :: "int \<Rightarrow> string" where
  "itoa i = (if i < 0 then CHR ''-'' # decimal (nat (- i)) else decimal (nat i))"

text \<open>\<^verbatim>\<open>%09d\<close>: at least nine characters, the sign before the zeros.\<close>

definition pad_09d :: "int \<Rightarrow> string" where
  "pad_09d i =
     (let d = decimal (nat \<bar>i\<bar>) in
      if i < 0 then CHR ''-'' # replicate (8 - length d) (CHR ''0'') @ d
      else replicate (9 - length d) (CHR ''0'') @ d)"

text \<open>
  \<^verbatim>\<open>strconv.Atoi\<close>: an optional sign and at least one decimal digit, in the range of a 64-bit integer.
\<close>

definition digit_value :: "char \<Rightarrow> nat option" where
  "digit_value c = (let n = of_char c in if 48 \<le> n \<and> n \<le> 57 then Some (n - 48) else None)"

primrec digits_value :: "nat \<Rightarrow> string \<Rightarrow> nat option" where
  "digits_value acc [] = Some acc"
| "digits_value acc (c # s) =
     (case digit_value c of None \<Rightarrow> None | Some d \<Rightarrow> digits_value (10 * acc + d) s)"

definition Atoi :: "string \<Rightarrow> int option" where
  "Atoi s =
     (let (neg, ds) = (case s of [] \<Rightarrow> (False, [])
        | c # t \<Rightarrow> if c = CHR ''-'' then (True, t) else if c = CHR ''+'' then (False, t) else (False, s)) in
      if ds = [] then None
      else case digits_value 0 ds of
        None \<Rightarrow> None
      | Some n \<Rightarrow>
          let i = (if neg then - int n else int n) in
          if - (2 ^ 63) \<le> i \<and> i < 2 ^ 63 then Some i else None)"

section \<open>Printed numbers are read back\<close>

lemma digits_value_append:
  "digits_value acc (s @ t) = (case digits_value acc s of None \<Rightarrow> None | Some n \<Rightarrow> digits_value n t)"
  by (induction s arbitrary: acc) (auto split: option.split)

lemma digit_value_hex_digit: "d < 10 \<Longrightarrow> digit_value (hex_digit d) = Some d"
proof -
  assume "d < 10"
  then have "d = 0 \<or> d = 1 \<or> d = 2 \<or> d = 3 \<or> d = 4 \<or> d = 5 \<or> d = 6 \<or> d = 7 \<or> d = 8 \<or> d = 9"
    by presburger
  then show ?thesis by (elim disjE) (simp_all add: digit_value_def hex_digit_def)
qed

lemma digits_value_decimal: "digits_value 0 (decimal n) = Some n"
proof (induction n rule: decimal.induct)
  case (1 n)
  show ?case
  proof (cases "n < 10")
    case True
    then show ?thesis by (simp add: decimal.simps [of n] digit_value_hex_digit)
  next
    case False
    with 1 show ?thesis
      by (simp add: decimal.simps [of n] digits_value_append digit_value_hex_digit)
  qed
qed

lemma decimal_not_Nil [simp]: "decimal n \<noteq> []"
  by (subst decimal.simps) simp

lemma decimal_digits: "c \<in> set (decimal n) \<Longrightarrow> \<exists>d < 10. c = hex_digit d"
proof (induction n rule: decimal.induct)
  case (1 n)
  then show ?case by (cases "n < 10") (auto simp: decimal.simps [of n] intro: exI [of _ n] exI [of _ "n mod 10"])
qed

lemma hex_digit_not_sign: "d < 10 \<Longrightarrow> hex_digit d \<noteq> CHR ''-'' \<and> hex_digit d \<noteq> CHR ''+''"
  using digit_value_hex_digit [of d] by (auto simp: digit_value_def)

lemma Atoi_itoa:
  assumes "- (2 ^ 63) \<le> i" "i < 2 ^ 63"
  shows "Atoi (itoa i) = Some i"
proof (cases "i < 0")
  case True
  then show ?thesis using assms
    by (simp add: Atoi_def itoa_def digits_value_decimal Let_def)
next
  case False
  obtain c t where d: "decimal (nat i) = c # t" by (cases "decimal (nat i)") simp_all
  then obtain k where "k < 10" "c = hex_digit k" using decimal_digits [of c "nat i"] by auto
  with hex_digit_not_sign [of k] have "c \<noteq> CHR ''-''" "c \<noteq> CHR ''+''" by auto
  with False assms d digits_value_decimal [of "nat i"] show ?thesis
    by (simp add: Atoi_def itoa_def Let_def)
qed

lemma itoa_sint_inject: "itoa (sint (a :: int64)) = itoa (sint b) \<longleftrightarrow> a = b"
proof
  have r: "- (2 ^ 63) \<le> sint c \<and> sint c < 2 ^ 63" for c :: int64
    using sint_greater_eq [of c] sint_less [of c] by simp
  assume "itoa (sint a) = itoa (sint b)"
  then have "sint a = sint b" using Atoi_itoa r by (metis option.inject)
  then show "a = b" by (rule signed_word_eqI)
qed simp

end
