(* ===== verification/HttpRequests.thy ===== *)
theory HttpRequests
  imports Args Attestation GoText Buffer
begin

text \<open>
  The requests a script sends, \<^verbatim>\<open>script/request/https.go\<close>, and the attestation of another enclave server
  over them, \<^verbatim>\<open>script/request/enclave.go\<close>. What leaves the process (\<^verbatim>\<open>http.Client\<close>), the parsing of URLs
  and certificates and \<^verbatim>\<open>encoding/json\<close> are parameters; headers and their canonical names are modelled.
\<close>

section \<open>Headers\<close>

text \<open>\<^verbatim>\<open>textproto.CanonicalMIMEHeaderKey\<close>: unchanged unless every byte is allowed in a header name.\<close>

definition is_upper :: "char \<Rightarrow> bool" where
  "is_upper c \<longleftrightarrow> 65 \<le> (of_char c :: nat) \<and> (of_char c :: nat) \<le> 90"

definition is_lower :: "char \<Rightarrow> bool" where
  "is_lower c \<longleftrightarrow> 97 \<le> (of_char c :: nat) \<and> (of_char c :: nat) \<le> 122"

definition valid_header_byte :: "char \<Rightarrow> bool" where
  "valid_header_byte c \<longleftrightarrow> is_upper c \<or> is_lower c \<or> digit_value c \<noteq> None
     \<or> c \<in> set (''!#$%&*+-.^_|~'' @ [CHR 0x27, CHR 0x60])"

definition to_upper :: "char \<Rightarrow> char" where
  "to_upper c = (if is_lower c then char_of (of_char c - 32 :: nat) else c)"

definition to_lower :: "char \<Rightarrow> char" where
  "to_lower c = (if is_upper c then char_of (of_char c + 32 :: nat) else c)"

primrec canonical_bytes :: "bool \<Rightarrow> string \<Rightarrow> string" where
  "canonical_bytes upper [] = []"
| "canonical_bytes upper (c # s) =
     (let c = (if upper then to_upper c else to_lower c) in c # canonical_bytes (c = CHR ''-'') s)"

definition CanonicalHeaderKey :: "string \<Rightarrow> string" where
  "CanonicalHeaderKey s = (if list_all valid_header_byte s then canonical_bytes True s else s)"

text \<open>\<^verbatim>\<open>http.Header\<close>: a map from canonical names to the values, in order.\<close>

type_synonym header = "string \<rightharpoonup> string list"

definition Header_Add :: "header \<Rightarrow> string \<Rightarrow> string \<Rightarrow> header" where
  "Header_Add m key v =
     m(CanonicalHeaderKey key \<mapsto> (case m (CanonicalHeaderKey key) of None \<Rightarrow> [] | Some vs \<Rightarrow> vs) @ [v])"

section \<open>Requests and responses\<close>

record 'u go_request =
  gr_Method :: string
  gr_URL :: 'u
  gr_Header :: header
  gr_Body :: string
  gr_Close :: bool

text \<open>
  A response of \<^verbatim>\<open>http.Client\<close>: the header as the list of its pairs in the order the \<^verbatim>\<open>range\<close> loop visits
  them, and the outcome of reading the body.
\<close>

record raw_response =
  rr_Status :: string
  rr_StatusCode :: int64
  rr_Header :: "(string \<times> string list) list"
  rr_Body :: "string + string"

record HttpResponse =
  hr_Status :: string
  hr_StatusCode :: int64
  hr_Headers :: "(string \<times> string) list"
  hr_Body :: string

record attestationResult =
  ar_Success :: bool
  ar_Error :: string
  ar_Result :: string

text \<open>
  \<open>hx_Do\<close> sends a request over connections made with the given TLS configuration (its root certificates;
  \<open>None\<close> is the nil configuration). \<open>hx_PemDecode\<close> yields the bytes of the block, if one is found.
\<close>

record ('w, 'u, 'c) https_env =
  hx_ParseURL :: "string \<Rightarrow> string + 'u"
  hx_Do :: "'c list option \<Rightarrow> 'u go_request \<Rightarrow> 'w \<Rightarrow> 'w \<times> (string + raw_response)"
  hx_PemDecode :: "string \<Rightarrow> bytes option"
  hx_ParseCertificate :: "bytes \<Rightarrow> string + 'c"
  hx_Unmarshal :: "string \<Rightarrow> string + attestationResult"

primrec add_headers :: "string list \<Rightarrow> header \<Rightarrow> string + header" where
  "add_headers [] m = Inr m"
| "add_headers (h # hs) m =
     (let fields = split_on (CHR '':'') h in
      if length fields \<noteq> 2 then Inl (''Invalid header: '' @ h)
      else add_headers hs (Header_Add m (TrimSpace (fields ! 0)) (TrimSpace (fields ! 1))))"

definition newHttpRequest ::
  "('w, 'u, 'c) https_env \<Rightarrow> string \<Rightarrow> string \<Rightarrow> string \<Rightarrow> string list \<Rightarrow> string + 'u go_request" where
  "newHttpRequest E meth serverURL body headers =
     (case hx_ParseURL E serverURL of
        Inl err \<Rightarrow> Inl err
      | Inr url \<Rightarrow>
          (case add_headers headers Map.empty of
             Inl err \<Rightarrow> Inl err
           | Inr m \<Rightarrow> Inr \<lparr>gr_Method = meth, gr_URL = url, gr_Header = m, gr_Body = body, gr_Close = False\<rparr>))"

definition newHttpResponse :: "raw_response \<Rightarrow> string + HttpResponse" where
  "newHttpResponse resp =
     (case rr_Body resp of
        Inl err \<Rightarrow> Inl err
      | Inr body \<Rightarrow>
          (let keys = sort (map fst (rr_Header resp)) in
           Inr \<lparr>hr_Status = rr_Status resp, hr_StatusCode = rr_StatusCode resp,
             hr_Headers = concat (map (\<lambda>k. map (\<lambda>v. (k, v))
               (case map_of (rr_Header resp) k of None \<Rightarrow> [] | Some vs \<Rightarrow> vs)) keys),
             hr_Body = body\<rparr>))"

definition HttpsRequest ::
  "('w, 'u, 'c) https_env \<Rightarrow> 'c list option \<Rightarrow> string \<Rightarrow> string \<Rightarrow> string \<Rightarrow> string list \<Rightarrow> 'w
     \<Rightarrow> 'w \<times> HttpResponse res" where
  "HttpsRequest E tlsConfig meth serverURL body headers w =
     (if serverURL = '''' then (w, Inl (PSymbol ''Empty url''))
      else case newHttpRequest E meth serverURL body headers of
        Inl err \<Rightarrow> (w, Inl (PSymbol (''Error in parsing http request: '' @ err)))
      | Inr req \<Rightarrow>
          (case hx_Do E tlsConfig (req\<lparr>gr_Close := True\<rparr>) w of
             (w, Inl err) \<Rightarrow> (w, Inl (PSymbol (''Error in sending http request: '' @ err)))
           | (w, Inr resp) \<Rightarrow>
               (w, case newHttpResponse resp of
                  Inl err \<Rightarrow> Inl (PSymbol (''Error in parsing http response: '' @ err))
                | Inr result \<Rightarrow> Inr result)))"

section \<open>Trusted certificates\<close>

text \<open>\<^verbatim>\<open>pem.Decode\<close> without a block gives nil, which is dereferenced. The pool holds a certificate once.\<close>

primrec load_certs :: "('w, 'u, 'c) https_env \<Rightarrow> string list \<Rightarrow> 'c list \<Rightarrow> (string + 'c list) res" where
  "load_certs E [] pool = Inr (Inr pool)"
| "load_certs E (c # cs) pool =
     (case hx_PemDecode E c of
        None \<Rightarrow> Inl PNilDeref
      | Some b \<Rightarrow>
          (case hx_ParseCertificate E b of
             Inl err \<Rightarrow> Inr (Inl err)
           | Inr x509Cert \<Rightarrow> load_certs E cs (if x509Cert \<in> set pool then pool else pool @ [x509Cert])))"

definition LoadTlsConfig :: "('w, 'u, 'c) https_env \<Rightarrow> string list \<Rightarrow> (string + 'c list) res" where
  "LoadTlsConfig E certs = load_certs E certs []"

text \<open>The new value of the package variable \<^verbatim>\<open>tlsConfig\<close> (nil after an error) and the error.\<close>

definition InitTrustedHttpsCerts ::
  "('w, 'u, 'c) https_env \<Rightarrow> string list \<Rightarrow> 'c list option \<Rightarrow> 'c list option \<times> string option res" where
  "InitTrustedHttpsCerts E certs tlsConfig =
     (case LoadTlsConfig E certs of
        Inl p \<Rightarrow> (tlsConfig, Inl p)
      | Inr (Inl err) \<Rightarrow> (None, Inr (Some err))
      | Inr (Inr pool) \<Rightarrow> (Some pool, Inr None))"

section \<open>Attesting a server\<close>

text \<open>One of the two requests: its answer must have status 200 and be a JSON result.\<close>

definition get_attestation ::
  "('w, 'u, 'c) https_env \<Rightarrow> 'c list option \<Rightarrow> string \<Rightarrow> string \<Rightarrow> 'w \<Rightarrow> 'w \<times> attestationResult res" where
  "get_attestation E tlsConfig what url w =
     (case HttpsRequest E tlsConfig ''GET'' url '''' [''Content-Type:application/json''] w of
        (w, Inl p) \<Rightarrow> (w, Inl p)
      | (w, Inr resp) \<Rightarrow>
          (w, if hr_StatusCode resp \<noteq> 200
              then Inl (PSymbol (''Error when get server pubkey: '' @ itoa (sint (hr_StatusCode resp))
                @ '', body: '' @ hr_Body resp))
              else case hx_Unmarshal E (hr_Body resp) of
                Inl err \<Rightarrow> Inl (PSymbol (''Failed to unmarshal '' @ what @ '' response: '' @ err))
              | Inr r \<Rightarrow> Inr r))"

definition attest_args :: "'x jsval list \<Rightarrow> (string \<times> string \<times> string) res" where
  "attest_args args =
     (if length args \<noteq> 3 then Inl IncorrectArgumentCount
      else case args ! 0 of
        JStr serverURL \<Rightarrow>
          (case args ! 1 of
             JStr signerID \<Rightarrow>
               (case args ! 2 of
                  JStr uniqueID \<Rightarrow> Inr (serverURL, signerID, uniqueID)
                | _ \<Rightarrow> Inl (PSymbol ''The third argument must be unique ID''))
           | _ \<Rightarrow> Inl (PSymbol ''The second argument must be signer ID''))
      | _ \<Rightarrow> Inl (PSymbol ''The first argument must be server URL''))"

definition AttestEnclaveServer ::
  "('w, 'u, 'c) https_env \<Rightarrow> ego_api \<Rightarrow> geth_api \<Rightarrow> (bytes \<Rightarrow> bytes) \<Rightarrow> 'c list option \<Rightarrow> 'x jsval list \<Rightarrow> 'w
     \<Rightarrow> 'w \<times> (bool \<times> string) res" where
  "AttestEnclaveServer E X G sha256 tlsConfig args w =
     (case attest_args args of
        Inl p \<Rightarrow> (w, Inl p)
      | Inr (serverURL, signerID, uniqueID) \<Rightarrow>
     (case get_attestation E tlsConfig ''pubKey'' (serverURL @ ''/pubkey'') w of
        (w, Inl p) \<Rightarrow> (w, Inl p)
      | (w, Inr pubKeyResult) \<Rightarrow>
     (case get_attestation E tlsConfig ''report'' (serverURL @ ''/pubkey_report'') w of
        (w, Inl p) \<Rightarrow> (w, Inl p)
      | (w, Inr reportResult) \<Rightarrow>
          (w, bind_res (VerifyEnclaveReportBz X sha256 (geth_FromHex G (ar_Result pubKeyResult))
                 (geth_FromHex G (ar_Result reportResult)) (geth_FromHex G signerID) (geth_FromHex G uniqueID))
               (\<lambda>err. case err of Some err \<Rightarrow> Inr (False, err) | None \<Rightarrow> Inr (True, ''''))))))"

section \<open>Lemmas\<close>

lemma add_headers_ok: "\<forall>h \<in> set hs. count_list h (CHR '':'') = 1 \<Longrightarrow> \<exists>m'. add_headers hs m = Inr m'"
  by (induction hs arbitrary: m) (auto simp: Let_def length_split_on)

lemma add_headers_bad:
  "\<forall>h \<in> set hs. count_list h (CHR '':'') = 1 \<Longrightarrow> count_list h (CHR '':'') \<noteq> 1 \<Longrightarrow>
    add_headers (hs @ h # hs') m = Inl (''Invalid header: '' @ h)"
  by (induction hs arbitrary: m) (auto simp: Let_def length_split_on)

text \<open>A header of a name and a value.\<close>

lemma add_headers_one:
  assumes "CHR '':'' \<notin> set k" "CHR '':'' \<notin> set v"
  shows "add_headers ((k @ '':'' @ v) # hs) m = add_headers hs (Header_Add m (TrimSpace k) (TrimSpace v))"
  using assms by (simp add: split_on_append split_on_none)

lemma sorted_concat_keys: "sorted ks \<Longrightarrow> sorted (map fst (concat (map (\<lambda>k. map (Pair k) (f k)) ks)))"
proof (induction ks)
  case (Cons k ks)
  have "sorted (map fst (map (Pair k) (f k)))" by (induction "f k") (auto simp: comp_def sorted_wrt_iff_nth_less)
  with Cons show ?case by (auto simp: sorted_append comp_def)
qed simp

lemma filter_concat_keys:
  "distinct ks \<Longrightarrow> map snd (filter (\<lambda>p. fst p = k) (concat (map (\<lambda>k. map (Pair k) (f k)) ks)))
    = (if k \<in> set ks then f k else [])"
proof (induction ks)
  case (Cons a ks)
  have "filter (\<lambda>p. fst p = k) (map (Pair a) vs) = (if a = k then map (Pair a) vs else [])" for vs :: "'b list"
    by (induction vs) auto
  with Cons show ?case by (auto simp: comp_def)
qed simp

lemma newHttpResponse_headers:
  assumes "rr_Body resp = Inr body" "distinct (map fst (rr_Header resp))"
  shows "\<exists>r. newHttpResponse resp = Inr r \<and> hr_StatusCode r = rr_StatusCode resp \<and> hr_Body r = body
    \<and> sorted (map fst (hr_Headers r))
    \<and> (\<forall>k. map snd (filter (\<lambda>p. fst p = k) (hr_Headers r))
          = (case map_of (rr_Header resp) k of None \<Rightarrow> [] | Some vs \<Rightarrow> vs))"
proof -
  let ?ks = "sort (map fst (rr_Header resp))"
  define f where "f k = (case map_of (rr_Header resp) k of None \<Rightarrow> [] | Some vs \<Rightarrow> vs)" for k
  have "f k = []" if "k \<notin> set ?ks" for k
    using that map_of_eq_None_iff [of "rr_Header resp" k] by (simp add: f_def)
  moreover have "newHttpResponse resp = Inr \<lparr>hr_Status = rr_Status resp, hr_StatusCode = rr_StatusCode resp,
      hr_Headers = concat (map (\<lambda>k. map (Pair k) (f k)) ?ks), hr_Body = body\<rparr>"
    using assms(1) by (simp add: newHttpResponse_def Let_def f_def)
  ultimately show ?thesis
    using sorted_concat_keys [of ?ks f] filter_concat_keys [of ?ks _ f] assms(2) f_def by auto
qed

lemma attest_args_Inr [simp]: "attest_args args = Inr (a, b, c) \<longleftrightarrow> args = [JStr a, JStr b, JStr c]"
  by (auto simp: attest_args_def length_Suc_conv numeral_3_eq_3 split: jsval.splits)

lemma attest_args_JStr [simp]: "attest_args [JStr a, JStr b, JStr c] = Inr (a, b, c)"
  by simp

lemma add_headers_find:
  "\<not> list_all (\<lambda>h. count_list h (CHR '':'') = 1) hs \<Longrightarrow>
    add_headers hs m = Inl (''Invalid header: '' @ the (List.find (\<lambda>h. count_list h (CHR '':'') \<noteq> 1) hs))"
  by (induction hs arbitrary: m) (auto simp: Let_def length_split_on)

section \<open>Properties\<close>


definition mini_https :: "(unit, string, unit) https_env" where
  "mini_https = \<lparr>hx_ParseURL = Inr,
     hx_Do = (\<lambda>tls req w. (w, Inr \<lparr>rr_Status = ''200 OK'', rr_StatusCode = 200,
       rr_Header = [(''B'', [''2'']), (''A'', [''1'', ''3''])], rr_Body = Inr (gr_URL req)\<rparr>)),
     hx_PemDecode = (\<lambda>s. None), hx_ParseCertificate = (\<lambda>b. Inr ()),
     hx_Unmarshal = (\<lambda>s. Inr \<lparr>ar_Success = True, ar_Error = '''', ar_Result = '''' \<rparr>)\<rparr>"



end
