(* ===== verification/ClientAttest.thy ===== *)
theory ClientAttest
  imports HttpServers HttpRequests
begin

text \<open>
  A script that attests a server (\<^verbatim>\<open>script/request/enclave.go\<close>) and the server the repository has for enclaves
  (\<^verbatim>\<open>CreateAndStartHttpsServer\<close> in \<^verbatim>\<open>keygrantor/simpleclient.go\<close>), connected by a network that loses nothing.
\<close>

section \<open>The network between them\<close>

definition raw_of :: "http_response option \<Rightarrow> string + raw_response" where
  "raw_of resp =
     (case resp of
        Some (Response st s) \<Rightarrow> Inr \<lparr>rr_Status = itoa (int st), rr_StatusCode = of_nat st, rr_Header = [], rr_Body = Inr s\<rparr>
      | _ \<Rightarrow> Inl ''EOF'')"

text \<open>\<open>H\<close> leads the path after the address \<open>base\<close> to the handlers of the server.\<close>

definition leads_to :: "('w, 'u, 'c) https_env \<Rightarrow> 'c list option \<Rightarrow> string \<Rightarrow> http_handler mux \<Rightarrow> bool" where
  "leads_to H tls base m \<longleftrightarrow>
     (\<forall>path \<in> {''/pubkey'', ''/pubkey_report''}. \<exists>u. hx_ParseURL H (base @ path) = Inr u
        \<and> (\<forall>hdr w. hx_Do H tls \<lparr>gr_Method = ''GET'', gr_URL = u, gr_Header = hdr, gr_Body = '''', gr_Close = True\<rparr> w
              = (w, raw_of (serve m path \<lparr>rq_pubkeys = [], rq_body = Inr ''''\<rparr>))))"

lemma get_attestation_serves:
  assumes "leads_to H tls base m" "path \<in> {''/pubkey'', ''/pubkey_report''}"
    and "serve m path \<lparr>rq_pubkeys = [], rq_body = Inr ''''\<rparr> = Some (Response st s)"
  shows "get_attestation H tls what (base @ path) w =
    (w, if (of_nat st :: int64) \<noteq> 200
        then Inl (PSymbol (''Error when get server pubkey: '' @ itoa (sint (of_nat st :: int64)) @ '', body: '' @ s))
        else case hx_Unmarshal H s of
          Inl err \<Rightarrow> Inl (PSymbol (''Failed to unmarshal '' @ what @ '' response: '' @ err))
        | Inr r \<Rightarrow> Inr r)"
proof -
  from assms(1,2) obtain u where u: "hx_ParseURL H (base @ path) = Inr u"
    "\<And>hdr w. hx_Do H tls \<lparr>gr_Method = ''GET'', gr_URL = u, gr_Header = hdr, gr_Body = '''', gr_Close = True\<rparr> w
      = (w, raw_of (serve m path \<lparr>rq_pubkeys = [], rq_body = Inr ''''\<rparr>))"
    unfolding leads_to_def by blast
  obtain hdr where "add_headers [''Content-Type:application/json''] Map.empty = Inr hdr"
    using add_headers_ok [of "[''Content-Type:application/json'']" Map.empty] by auto
  then have "newHttpRequest H ''GET'' (base @ path) '''' [''Content-Type:application/json'']
      = Inr \<lparr>gr_Method = ''GET'', gr_URL = u, gr_Header = hdr, gr_Body = '''', gr_Close = False\<rparr>"
    unfolding newHttpRequest_def by (simp only: u(1) sum.case)
  moreover have "path \<noteq> ''''" using assms(2) by auto
  ultimately show ?thesis
    unfolding get_attestation_def HttpsRequest_def
    by (simp add: u(2) assms(3) raw_of_def newHttpResponse_def del: add_headers.simps)
qed

section \<open>Properties\<close>


definition plain_https :: "http_handler mux \<Rightarrow> (unit, string, unit) https_env" where
  "plain_https m = \<lparr>hx_ParseURL = Inr,
     hx_Do = (\<lambda>tls req w. (w, raw_of (serve m (drop (length ''https://host'') (gr_URL req)) \<lparr>rq_pubkeys = [], rq_body = Inr ''''\<rparr>))),
     hx_PemDecode = (\<lambda>s. None), hx_ParseCertificate = (\<lambda>b. Inr ()),
     hx_Unmarshal = (\<lambda>s. if s \<noteq> '''' \<and> s ! 0 = CHR 0x7B then Inr \<lparr>ar_Success = True, ar_Error = '''', ar_Result = '''' \<rparr>
       else Inl ''invalid character'')\<rparr>"


end
