(* ===== verification/Sandbox.thy ===== *)
theory Sandbox
  imports Prelude
begin

text \<open>
  The invoker: \<^verbatim>\<open>egvm-invoker/executor/sandbox.go\<close> (one enclave process and its pipes) and
  \<^verbatim>\<open>egvm-invoker/executor/manager.go\<close> (the pool of them behind a lock). The generated MessagePack
  code of the job and result types, the pipes and the operating system are the parameter \<open>P\<close>. The
  concurrent calls of \<^verbatim>\<open>ExecuteJob\<close> are a step relation whose steps are the critical sections.
\<close>

section \<open>One sandbox\<close>

record Sandbox =
  sb_name :: string
  sb_firstRun :: bool

text \<open>
  \<open>sp_lines\<close> are the lines \<^verbatim>\<open>bufio.Scanner\<close> delivers from the standard output until it stops,
  \<open>sp_DecodeMsg\<close> the outcome of decoding a result from it, \<open>sp_zero\<close> the zero value of the result.
\<close>

record ('j, 'r) pipe_api =
  sp_darwin :: bool
  sp_MarshalMsg :: "'j \<Rightarrow> string + bytes"
  sp_Write :: "string \<Rightarrow> bytes \<Rightarrow> string option"
  sp_DecodeMsg :: "string \<Rightarrow> string + 'r"
  sp_lines :: "string \<Rightarrow> bytes list"
  sp_UnmarshalMsg :: "bytes \<Rightarrow> string + 'r"
  sp_zero :: 'r

definition NewAndStartSandbox :: "string \<Rightarrow> Sandbox" where
  "NewAndStartSandbox name = \<lparr>sb_name = name, sb_firstRun = True\<rparr>"

text \<open>
  The scan of the first run: the line with \<^verbatim>\<open>counter == 3\<close> is decoded, the ones before are banner
  lines. If the output ends first, \<^verbatim>\<open>res\<close> keeps its zero value.
\<close>

primrec scan_result :: "('j, 'r) pipe_api \<Rightarrow> nat \<Rightarrow> bytes list \<Rightarrow> string + 'r" where
  "scan_result P counter [] = Inr (sp_zero P)"
| "scan_result P counter (lineBz # ls) =
     (if counter = 3 then sp_UnmarshalMsg P lineBz else scan_result P (counter + 1) ls)"

text \<open>The result of a call, an error as \<open>Inr (Inl e)\<close>, and the sandbox after it.\<close>

definition executeJob :: "('j, 'r) pipe_api \<Rightarrow> Sandbox \<Rightarrow> 'j \<Rightarrow> (string + 'r) res \<times> Sandbox" where
  "executeJob P b job =
     (case sp_MarshalMsg P job of
        Inl err \<Rightarrow> (Inl (PError err), b)
      | Inr bz \<Rightarrow>
          (case sp_Write P (sb_name b) bz of
             Some err \<Rightarrow> (Inl (PError err), b)
           | None \<Rightarrow>
               if sp_darwin P \<or> \<not> sb_firstRun b
               then (Inr (sp_DecodeMsg P (sb_name b)), b)
               else (case scan_result P 0 (sp_lines P (sb_name b)) of
                  Inl err \<Rightarrow> (Inr (Inl err), b)
                | Inr res \<Rightarrow> (Inr (Inr res), b\<lparr>sb_firstRun := False\<rparr>))))"

section \<open>The manager\<close>

text \<open>
  \<^verbatim>\<open>BoxStatusMap\<close> maps a pointer (\<open>None\<close> is nil) to whether the sandbox is busy. \<open>order\<close> is the
  order in which the \<^verbatim>\<open>range\<close> loop happens to visit the map.
\<close>

type_synonym 'b status_map = "'b option \<rightharpoonup> bool"

definition defaultSandboxNums :: nat where
  "defaultSandboxNums = 1"

text \<open>\<open>alloc i\<close> is the pointer of the \<open>i\<close>-th sandbox started when none is given.\<close>

definition NewSandboxManager :: "(nat \<Rightarrow> 'b) \<Rightarrow> 'b list \<Rightarrow> 'b status_map" where
  "NewSandboxManager alloc sandboxes =
     fold (\<lambda>s m. m(Some s \<mapsto> False))
       (if length sandboxes = 0 then map alloc [0..<defaultSandboxNums] else sandboxes) Map.empty"

definition findIdleSandbox :: "'b option list \<Rightarrow> 'b status_map \<Rightarrow> 'b option \<times> 'b status_map" where
  "findIdleSandbox order m =
     (let b = (case List.find (\<lambda>box. m box = Some False) order of Some box \<Rightarrow> box | None \<Rightarrow> None) in
      (b, m(b \<mapsto> True)))"

text \<open>\<^verbatim>\<open>ExecuteJob\<close> run alone; \<open>run\<close> is \<^verbatim>\<open>box.executeJob(job)\<close>.\<close>

definition ExecuteJob ::
  "'b option list \<Rightarrow> ('b \<Rightarrow> (string + 'r) res) \<Rightarrow> 'b status_map \<Rightarrow> (string + 'r) res \<times> 'b status_map" where
  "ExecuteJob order run m =
     (case findIdleSandbox order m of
        (None, m) \<Rightarrow> (Inr (Inl ''all sandbox busy, try later''), m)
      | (Some box, m) \<Rightarrow>
          (case run box of
             Inl p \<Rightarrow> (Inl p, m)
           | Inr (Inl err) \<Rightarrow> (Inr (Inl err), m)
           | Inr (Inr res) \<Rightarrow> (Inr (Inr res), m(Some box \<mapsto> False))))"

text \<open>
  The manager with several calls in progress: \<open>mg_running\<close> maps a call to the sandbox it waits for,
  \<open>mg_failed\<close> counts the calls that ended with an error or a panic.
\<close>

record ('j, 'b) manager =
  mg_status :: "'b status_map"
  mg_running :: "'j \<rightharpoonup> 'b"
  mg_failed :: nat

inductive mstep :: "('j, 'b) manager \<Rightarrow> ('j, 'b) manager \<Rightarrow> bool" where
  start: "set order = dom (mg_status s) \<Longrightarrow> findIdleSandbox order (mg_status s) = (Some b, m)
    \<Longrightarrow> mg_running s j = None
    \<Longrightarrow> mstep s (s\<lparr>mg_status := m, mg_running := (mg_running s)(j \<mapsto> b)\<rparr>)"
| reject: "set order = dom (mg_status s) \<Longrightarrow> findIdleSandbox order (mg_status s) = (None, m)
    \<Longrightarrow> mstep s (s\<lparr>mg_status := m\<rparr>)"
| finish: "mg_running s j = Some b
    \<Longrightarrow> mstep s (s\<lparr>mg_status := (mg_status s)(Some b \<mapsto> False), mg_running := (mg_running s)(j := None)\<rparr>)"
| fail: "mg_running s j = Some b
    \<Longrightarrow> mstep s (s\<lparr>mg_running := (mg_running s)(j := None), mg_failed := mg_failed s + 1\<rparr>)"

inductive_cases mstepE: "mstep s s'"

inductive mreach :: "(nat \<Rightarrow> 'b) \<Rightarrow> 'b list \<Rightarrow> ('j, 'b) manager \<Rightarrow> bool" for alloc sandboxes where
  init: "mreach alloc sandboxes
    \<lparr>mg_status = NewSandboxManager alloc sandboxes, mg_running = Map.empty, mg_failed = 0\<rparr>"
| step: "mreach alloc sandboxes s \<Longrightarrow> mstep s s' \<Longrightarrow> mreach alloc sandboxes s'"

section \<open>Lemmas\<close>

lemma findIdle_Some:
  assumes "findIdleSandbox order m = (Some b, m')"
  shows "m (Some b) = Some False \<and> m' = m(Some b \<mapsto> True)"
proof (cases "List.find (\<lambda>box. m box = Some False) order")
  case None
  with assms show ?thesis by (simp add: findIdleSandbox_def)
next
  case (Some box)
  then have "m box = Some False" by (auto simp: find_Some_iff)
  with assms Some show ?thesis by (auto simp: findIdleSandbox_def)
qed

lemma findIdle_None:
  assumes "findIdleSandbox order m = (None, m')" "set order = dom m" "m None \<noteq> Some False"
  shows "(\<forall>b. m b \<noteq> Some False) \<and> m' = m(None \<mapsto> True)"
proof (cases "List.find (\<lambda>box. m box = Some False) order")
  case None
  then have "\<forall>b \<in> set order. m b \<noteq> Some False" by (auto simp: find_None_iff)
  then have "\<forall>b. m b \<noteq> Some False" using assms(2) by auto
  with assms None show ?thesis by (simp add: findIdleSandbox_def)
next
  case (Some box)
  then have "m box = Some False" by (auto simp: find_Some_iff)
  with assms Some show ?thesis by (cases box) (auto simp: findIdleSandbox_def Let_def)
qed

text \<open>The boxes the manager was created with.\<close>

definition boxes :: "(nat \<Rightarrow> 'b) \<Rightarrow> 'b list \<Rightarrow> 'b set" where
  "boxes alloc sandboxes = (if sandboxes = [] then {alloc 0} else set sandboxes)"

lemma New_status:
  "NewSandboxManager alloc sandboxes b =
     (if b \<in> Some ` boxes alloc sandboxes then Some False else None)"
proof -
  have "fold (\<lambda>s m. m(Some s \<mapsto> False)) xs m b = (if b \<in> Some ` set xs then Some False else m b)" for xs m
    by (induction xs arbitrary: m) auto
  then show ?thesis by (simp add: NewSandboxManager_def boxes_def defaultSandboxNums_def)
qed

text \<open>The idle boxes.\<close>

definition idle :: "('j, 'b) manager \<Rightarrow> 'b set" where
  "idle s = {b. mg_status s (Some b) = Some False}"

lemma card_dom_remove: "finite (dom f) \<Longrightarrow> f j = Some b \<Longrightarrow> Suc (card (dom (f(j := None)))) = card (dom f)"
  using card_Suc_Diff1 [of "dom f" j] by (simp add: dom_fun_upd domI)

text \<open>The invariant of the pool, with \<open>N\<close> the boxes it was created with.\<close>

definition pool_inv :: "'b set \<Rightarrow> ('j, 'b) manager \<Rightarrow> bool" where
  "pool_inv N s \<longleftrightarrow>
     mg_status s None \<noteq> Some False
     \<and> (\<forall>b. mg_status s (Some b) \<noteq> None \<longleftrightarrow> b \<in> N)
     \<and> (\<forall>j b. mg_running s j = Some b \<longrightarrow> mg_status s (Some b) = Some True)
     \<and> (\<forall>i j b. mg_running s i = Some b \<and> mg_running s j = Some b \<longrightarrow> i = j)
     \<and> finite (dom (mg_running s))
     \<and> card (idle s) + card (dom (mg_running s)) + mg_failed s = card N"

lemma pool_inv_step:
  assumes N: "finite N" and inv: "pool_inv N s" and st: "mstep s s'"
  shows "pool_inv N s'"
  using st
proof (cases rule: mstep.cases)
  case (start order b m j)
  note f = findIdle_Some [OF start(3)]
  have fin: "finite (idle s)"
    by (rule finite_subset [OF _ N]) (use inv in \<open>auto simp: pool_inv_def idle_def\<close>)
  have i: "idle s' = idle s - {b}" "b \<in> idle s" using start f by (auto simp: idle_def)
  then have "Suc (card (idle s')) = card (idle s)" using fin by (metis card_Suc_Diff1)
  moreover have "card (dom (mg_running s')) = Suc (card (dom (mg_running s)))"
    using start inv by (auto simp: pool_inv_def domIff)
  ultimately have "card (idle s') + card (dom (mg_running s')) + mg_failed s' = card N"
    using inv start by (simp add: pool_inv_def)
  moreover have "mg_running s i \<noteq> Some b" for i using inv f by (auto simp: pool_inv_def)
  ultimately show ?thesis using inv start f by (auto simp: pool_inv_def)
next
  case (reject order m)
  note f = findIdle_None [OF reject(3,2)]
  have "mg_status s None \<noteq> Some False" using inv by (simp add: pool_inv_def)
  from f [OF this] reject have "idle s' = idle s" by (auto simp: idle_def)
  with f inv reject show ?thesis by (auto simp: pool_inv_def)
next
  case (finish j b)
  have b: "mg_status s (Some b) = Some True" using inv finish by (auto simp: pool_inv_def)
  have fin: "finite (idle s)"
    by (rule finite_subset [OF _ N]) (use inv in \<open>auto simp: pool_inv_def idle_def\<close>)
  have "idle s' = insert b (idle s)" "b \<notin> idle s" using finish b by (auto simp: idle_def)
  then have "card (idle s') = Suc (card (idle s))" using fin by simp
  moreover have "Suc (card (dom (mg_running s'))) = card (dom (mg_running s))"
    using finish inv card_dom_remove [of "mg_running s" j b] by (simp add: pool_inv_def)
  moreover have "mg_running s i \<noteq> Some b" if "i \<noteq> j" for i
    using inv finish that by (auto simp: pool_inv_def)
  moreover have "b \<in> N" using inv b unfolding pool_inv_def by (metis option.distinct(1))
  ultimately show ?thesis using inv finish b by (auto simp: pool_inv_def)
next
  case (fail j b)
  have "idle s' = idle s" using fail by (simp add: idle_def)
  moreover have "Suc (card (dom (mg_running s'))) = card (dom (mg_running s))"
    using fail inv card_dom_remove [of "mg_running s" j b] by (simp add: pool_inv_def)
  ultimately show ?thesis using inv fail by (auto simp: pool_inv_def)
qed

lemma pool_inv_init:
  "pool_inv (boxes alloc sandboxes)
     (\<lparr>mg_status = NewSandboxManager alloc sandboxes, mg_running = Map.empty, mg_failed = 0\<rparr> :: ('j, 'b) manager)"
proof -
  have "idle (\<lparr>mg_status = NewSandboxManager alloc sandboxes, mg_running = Map.empty, mg_failed = 0\<rparr>
      :: ('j, 'b) manager) = boxes alloc sandboxes"
    by (auto simp: idle_def New_status)
  then show ?thesis by (simp add: pool_inv_def New_status inj_image_mem_iff) blast
qed

lemma mreach_inv: "mreach alloc sandboxes s \<Longrightarrow> pool_inv (boxes alloc sandboxes) s"
proof (induction rule: mreach.induct)
  case init
  show ?case by (rule pool_inv_init)
next
  case (step s s')
  show ?case by (rule pool_inv_step [OF _ step.IH step.hyps(2)]) (simp add: boxes_def)
qed

text \<open>A sandbox whose call failed is busy with nobody waiting for it, and stays so.\<close>

definition dead :: "('j, 'b) manager \<Rightarrow> 'b \<Rightarrow> bool" where
  "dead s b \<longleftrightarrow> mg_status s (Some b) = Some True \<and> (\<forall>j. mg_running s j \<noteq> Some b)"

lemma dead_step:
  assumes "dead s b" "mstep s s'" "mg_status s None \<noteq> Some False"
  shows "dead s' b"
  using assms(2)
proof (cases rule: mstep.cases)
  case (start order c m j)
  with findIdle_Some [OF start(3)] assms(1) show ?thesis by (auto simp: dead_def)
next
  case (reject order m)
  with findIdle_None [OF reject(3,2) assms(3)] assms(1) show ?thesis by (simp add: dead_def)
next
  case (finish j c)
  then have "b \<noteq> c" using assms(1) by (auto simp: dead_def)
  with finish assms(1) show ?thesis by (simp add: dead_def)
next
  case (fail j c)
  with assms(1) show ?thesis by (simp add: dead_def)
qed

lemma dead_steps:
  assumes "mstep\<^sup>*\<^sup>* s s'" "finite N"
  shows "pool_inv N s \<Longrightarrow> dead s b \<Longrightarrow> dead s' b \<and> pool_inv N s'"
  using assms(1)
proof (induction rule: rtranclp_induct)
  case (step t u)
  then have d: "dead t b" and p: "pool_inv N t" by simp_all
  from p have n: "mg_status t None \<noteq> Some False" by (simp add: pool_inv_def)
  show ?case by (rule conjI [OF dead_step [OF d step(2) n] pool_inv_step [OF assms(2) p step(2)]])
qed simp

lemma finite_boxes [simp]: "finite (boxes alloc sandboxes)"
  by (simp add: boxes_def)

section \<open>Properties\<close>

text \<open>
  C13: the pool hands out sandboxes exclusively. Whatever the interleaving of calls and the order in
  which the map is visited, no two calls in progress use the same sandbox, every sandbox in use is
  marked busy and one of the sandboxes the manager was created with, and a call is rejected only when
  none is idle (the nil key such a rejection adds to the map is never taken for a sandbox).
\<close>

theorem sandboxes_are_exclusive:
  fixes s :: "('j, 'b) manager"
  assumes "mreach alloc sandboxes s"
  shows "(\<forall>i j b. mg_running s i = Some b \<and> mg_running s j = Some b \<longrightarrow> i = j)
    \<and> (\<forall>j b. mg_running s j = Some b \<longrightarrow> mg_status s (Some b) = Some True
          \<and> b \<in> boxes alloc sandboxes)
    \<and> (\<forall>order b m. set order = dom (mg_status s) \<and> findIdleSandbox order (mg_status s) = (b, m) \<longrightarrow>
          (b = None \<longleftrightarrow> idle s = {}))"
proof -
  have inv: "pool_inv (boxes alloc sandboxes) s" by (rule mreach_inv [OF assms])
  then have nil: "mg_status s None \<noteq> Some False" by (simp add: pool_inv_def)
  have "b = None \<longleftrightarrow> idle s = {}"
    if "set order = dom (mg_status s)" "findIdleSandbox order (mg_status s) = (b, m)" for order b m
  proof (cases b)
    case None
    with findIdle_None [OF _ that(1) nil] that(2) show ?thesis by (auto simp: idle_def)
  next
    case (Some c)
    with findIdle_Some that(2) show ?thesis by (fastforce simp: idle_def)
  qed
  moreover have "b \<in> boxes alloc sandboxes" if "mg_running s j = Some b" for j b
    using inv that unfolding pool_inv_def by (metis option.distinct(1))
  ultimately show ?thesis using inv unfolding pool_inv_def by blast
qed

theorem sandboxes_are_exclusive_witness:
  "mreach (\<lambda>i. i) [] (\<lparr>mg_status = [Some 0 \<mapsto> True], mg_running = [''job'' \<mapsto> 0 :: nat], mg_failed = 0\<rparr>)
    \<and> 0 \<in> boxes (\<lambda>i. i) []"
proof -
  let ?s = "\<lparr>mg_status = NewSandboxManager (\<lambda>i. i) [], mg_running = Map.empty, mg_failed = 0\<rparr>
      :: (string, nat) manager"
  have N: "NewSandboxManager (\<lambda>i. i) [] = [Some (0 :: nat) \<mapsto> False]"
    by (simp add: NewSandboxManager_def defaultSandboxNums_def)
  have f: "findIdleSandbox [Some 0] (mg_status ?s) = (Some 0, [Some 0 \<mapsto> True])"
    by (simp add: findIdleSandbox_def N Let_def)
  have "mstep ?s (?s\<lparr>mg_status := [Some 0 \<mapsto> True], mg_running := (mg_running ?s)(''job'' \<mapsto> 0)\<rparr>)"
    by (rule mstep.start [OF _ f]) (simp_all add: N)
  then have m: "mreach (\<lambda>i. i) [] \<lparr>mg_status = [Some 0 \<mapsto> True], mg_running = [''job'' \<mapsto> 0 :: nat], mg_failed = 0\<rparr>"
    using mreach.step [OF mreach.init] by simp
  have "mg_running (\<lparr>mg_status = [Some 0 \<mapsto> True], mg_running = [''job'' \<mapsto> 0 :: nat], mg_failed = 0\<rparr>) ''job'' = Some 0"
    by simp
  then have "(0 :: nat) \<in> boxes (\<lambda>i. i) []"
    using sandboxes_are_exclusive [OF m] by blast
  with m show ?thesis by blast
qed

text \<open>
  the pool only shrinks by failures. At any time the idle sandboxes, the calls in progress and
  the failed calls add up to the number of sandboxes: a call that ends with an error or a panic never
  gives its sandbox back, which stays marked busy for ever, so after as many failures as there are
  sandboxes every call is rejected.
\<close>

theorem failed_sandbox_is_lost:
  fixes s :: "('j, 'b) manager"
  assumes "mreach alloc sandboxes s"
  shows "card (idle s) + card (dom (mg_running s)) + mg_failed s
      = card (boxes alloc sandboxes)
    \<and> (mg_running s j = Some b \<and>
       mstep\<^sup>*\<^sup>* (s\<lparr>mg_running := (mg_running s)(j := None), mg_failed := mg_failed s + 1\<rparr>) s' \<longrightarrow>
        b \<notin> idle s' \<and> (\<forall>i. mg_running s' i \<noteq> Some b))"
proof -
  have inv: "pool_inv (boxes alloc sandboxes) s" by (rule mreach_inv [OF assms])
  have "b \<notin> idle s' \<and> (\<forall>i. mg_running s' i \<noteq> Some b)"
    if r: "mg_running s j = Some b"
      and st: "mstep\<^sup>*\<^sup>* (s\<lparr>mg_running := (mg_running s)(j := None), mg_failed := mg_failed s + 1\<rparr>) s'"
  proof -
    let ?t = "s\<lparr>mg_running := (mg_running s)(j := None), mg_failed := mg_failed s + 1\<rparr>"
    have "pool_inv (boxes alloc sandboxes) ?t"
      by (rule pool_inv_step [OF _ inv mstep.fail [OF r]]) simp
    moreover have "dead ?t b" using inv r unfolding pool_inv_def dead_def by auto
    ultimately have "dead s' b" using dead_steps [OF st finite_boxes] by blast
    then show ?thesis by (auto simp: dead_def idle_def)
  qed
  with inv show ?thesis unfolding pool_inv_def by blast
qed

theorem failed_sandbox_is_lost_witness:
  "card (idle (\<lparr>mg_status = NewSandboxManager (\<lambda>i. i) [], mg_running = Map.empty, mg_failed = 0\<rparr>
    :: (string, nat) manager)) = 1"
  using failed_sandbox_is_lost [OF mreach.init, of "\<lambda>i. i" "[]"] by (simp add: boxes_def)

text \<open>
  on Linux the first job of a sandbox gets the result decoded from the fourth line of the output;
  if the output ends before it, the call still reports success, with the zero value of the result, and
  marks the first run as done. Later jobs, and all jobs on Darwin, decode from the stream. A job that
  cannot be marshalled or written panics.
\<close>

theorem execute_job_result:
  shows "sp_MarshalMsg P job = Inr bz \<and> sp_Write P (sb_name b) bz = None \<longrightarrow>
      executeJob P b job =
        (if sp_darwin P \<or> \<not> sb_firstRun b then (Inr (sp_DecodeMsg P (sb_name b)), b)
         else if length (sp_lines P (sb_name b)) \<le> 3 then (Inr (Inr (sp_zero P)), b\<lparr>sb_firstRun := False\<rparr>)
         else (case sp_UnmarshalMsg P (sp_lines P (sb_name b) ! 3) of
             Inl err \<Rightarrow> (Inr (Inl err), b)
           | Inr res \<Rightarrow> (Inr (Inr res), b\<lparr>sb_firstRun := False\<rparr>)))"
    (is ?A)
proof -
  have scan: "scan_result P c ls =
      (if length ls \<le> 3 - c then Inr (sp_zero P) else sp_UnmarshalMsg P (ls ! (3 - c)))" if "c \<le> 3" for c ls
    using that
  proof (induction ls arbitrary: c)
    case (Cons l ls)
    then show ?case by (cases "c = 3") (auto simp: nth_Cons' Suc_diff_le)
  qed simp
  show ?A by (simp add: executeJob_def scan [of 0, simplified])
qed

theorem execute_job_result_witness:
  "executeJob \<lparr>sp_darwin = False, sp_MarshalMsg = (\<lambda>j. Inr []), sp_Write = (\<lambda>n b. None),
      sp_DecodeMsg = (\<lambda>n. Inl ''EOF''), sp_lines = (\<lambda>n. [[1], [2]]), sp_UnmarshalMsg = (\<lambda>b. Inl ''bad''),
      sp_zero = (0 :: nat)\<rparr> (NewAndStartSandbox ''sandbox0'') () = (Inr (Inr 0), \<lparr>sb_name = ''sandbox0'', sb_firstRun = False\<rparr>)"
  using execute_job_result [of "\<lparr>sp_darwin = False, sp_MarshalMsg = (\<lambda>j. Inr []), sp_Write = (\<lambda>n b. None),
      sp_DecodeMsg = (\<lambda>n. Inl ''EOF''), sp_lines = (\<lambda>n. [[1], [2]]), sp_UnmarshalMsg = (\<lambda>b. Inl ''bad''),
      sp_zero = (0 :: nat)\<rparr>" "()" "[]" "NewAndStartSandbox ''sandbox0''"]
  by (simp add: NewAndStartSandbox_def)

end
