(* ===== verification/SandboxSpec.thy ===== *)
theory SandboxSpec
  imports Sandbox
begin

text \<open>
  What the sandbox manager of \<^verbatim>\<open>egvm-invoker/executor/manager.go\<close> promises, without the map and the search
  in it: a pool of sandboxes, each free, held by one call, or lost. The steps of the manager and those of the
  pool match in both directions.
\<close>

section \<open>The abstract pool\<close>

record ('j, 'b) pool =
  pl_free :: "'b set"
  pl_held :: "'j \<rightharpoonup> 'b"
  pl_lost :: "'b set"

datatype ('j, 'b) pool_event = Acquire 'j 'b | Reject | Release 'j | Lose 'j

inductive pstep :: "('j, 'b) pool \<Rightarrow> ('j, 'b) pool_event \<Rightarrow> ('j, 'b) pool \<Rightarrow> bool" where
  acquire: "b \<in> pl_free p \<Longrightarrow> pl_held p j = None
    \<Longrightarrow> pstep p (Acquire j b) (p\<lparr>pl_free := pl_free p - {b}, pl_held := (pl_held p)(j \<mapsto> b)\<rparr>)"
| reject: "pl_free p = {} \<Longrightarrow> pstep p Reject p"
| release: "pl_held p j = Some b
    \<Longrightarrow> pstep p (Release j) (p\<lparr>pl_free := insert b (pl_free p), pl_held := (pl_held p)(j := None)\<rparr>)"
| lose: "pl_held p j = Some b
    \<Longrightarrow> pstep p (Lose j) (p\<lparr>pl_held := (pl_held p)(j := None), pl_lost := insert b (pl_lost p)\<rparr>)"

inductive_simps pstep_simps [simp]:
  "pstep p (Acquire j b) q" "pstep p Reject q" "pstep p (Release j) q" "pstep p (Lose j) q"

text \<open>The pool a state of the manager stands for.\<close>

definition pool_of :: "('j, 'b) manager \<Rightarrow> ('j, 'b) pool" where
  "pool_of s = \<lparr>pl_free = idle s, pl_held = mg_running s, pl_lost = Collect (dead s)\<rparr>"

definition fresh_pool :: "'b set \<Rightarrow> ('j, 'b) pool" where
  "fresh_pool N = \<lparr>pl_free = N, pl_held = Map.empty, pl_lost = {}\<rparr>"

section \<open>The pool is a partition\<close>

definition partitioned :: "'b set \<Rightarrow> ('j, 'b) pool \<Rightarrow> bool" where
  "partitioned N p \<longleftrightarrow> pl_free p \<union> ran (pl_held p) \<union> pl_lost p = N
     \<and> pl_free p \<inter> ran (pl_held p) = {} \<and> pl_free p \<inter> pl_lost p = {} \<and> ran (pl_held p) \<inter> pl_lost p = {}
     \<and> inj_on (pl_held p) (dom (pl_held p))"

lemma ran_remove:
  assumes "inj_on m (dom m)" "m j = Some b"
  shows "ran (m(j := None)) = ran m - {b}" "inj_on (m(j := None)) (dom (m(j := None)))"
proof -
  have "i = j" if "m i = Some b" for i using assms that by (metis domI inj_onD)
  then have "(\<exists>i. i \<noteq> j \<and> m i = Some x) \<longleftrightarrow> (\<exists>i. m i = Some x) \<and> x \<noteq> b" for x
    using assms(2) by (metis option.inject)
  moreover have "x \<in> ran (m(j := None)) \<longleftrightarrow> (\<exists>i. i \<noteq> j \<and> m i = Some x)" for x by (auto simp: ran_def)
  ultimately show "ran (m(j := None)) = ran m - {b}" by (auto simp: ran_def)
  show "inj_on (m(j := None)) (dom (m(j := None)))" using assms(1) by (auto simp: inj_on_def split: if_splits)
qed

lemma partitioned_step:
  assumes "pstep p e q" "partitioned N p"
  shows "partitioned N q"
  using assms(1)
proof cases
  case (acquire b j)
  then have "ran ((pl_held p)(j \<mapsto> b)) = insert b (ran (pl_held p))" by simp
  moreover have "inj_on ((pl_held p)(j \<mapsto> b)) (dom ((pl_held p)(j \<mapsto> b)))"
  proof -
    have "pl_held p i \<noteq> Some b" for i using acquire assms(2) by (auto simp: partitioned_def dest: ranI)
    then show ?thesis using assms(2) by (auto simp: partitioned_def inj_on_def)
  qed
  moreover have "b \<notin> pl_lost p" "b \<in> N" using acquire assms(2) by (auto simp: partitioned_def)
  ultimately show ?thesis using acquire assms(2) by (auto simp: partitioned_def)
next
  case reject
  then show ?thesis using assms(2) by simp
next
  case (release j b)
  with assms(2) have "b \<in> ran (pl_held p)" by (auto intro: ranI)
  with release assms(2) ran_remove [of "pl_held p" j b] show ?thesis by (auto simp: partitioned_def)
next
  case (lose j b)
  with assms(2) have "b \<in> ran (pl_held p)" by (auto intro: ranI)
  with lose assms(2) ran_remove [of "pl_held p" j b] show ?thesis by (auto simp: partitioned_def)
qed

section \<open>The steps match\<close>

lemma pool_of_start:
  "pool_of \<lparr>mg_status = NewSandboxManager alloc sandboxes, mg_running = Map.empty, mg_failed = 0\<rparr>
    = fresh_pool (boxes alloc sandboxes)"
  by (auto simp: pool_of_def fresh_pool_def idle_def dead_def New_status)

lemma held_status: "pool_inv N s \<Longrightarrow> mg_running s j = Some b \<Longrightarrow> mg_status s (Some b) = Some True"
  by (simp add: pool_inv_def)

lemma held_once: "pool_inv N s \<Longrightarrow> mg_running s i = Some b \<Longrightarrow> mg_running s j = Some b \<Longrightarrow> i = j"
  unfolding pool_inv_def by blast

text \<open>How the three steps that matter move a sandbox.\<close>

lemma pool_of_acquire:
  assumes "mg_status s (Some b) = Some False" "mg_running s j = None"
  shows "pool_of (s\<lparr>mg_status := (mg_status s)(Some b \<mapsto> True), mg_running := (mg_running s)(j \<mapsto> b)\<rparr>)
    = (pool_of s)\<lparr>pl_free := idle s - {b}, pl_held := (mg_running s)(j \<mapsto> b)\<rparr>" (is "pool_of ?t = _")
proof -
  have "mg_running ?t i = Some c \<longleftrightarrow> mg_running s i = Some c" if "c \<noteq> b" for i c
    using that assms(2) by auto
  then have "dead ?t c \<longleftrightarrow> dead s c" for c
    using assms(1) by (cases "c = b") (auto simp: dead_def)
  then have "Collect (dead ?t) = Collect (dead s)" by blast
  moreover have "idle ?t = idle s - {b}" by (auto simp: idle_def)
  ultimately show ?thesis by (simp add: pool_of_def)
qed

lemma pool_of_release:
  assumes "pool_inv N s" "mg_running s j = Some b"
  shows "pool_of (s\<lparr>mg_status := (mg_status s)(Some b \<mapsto> False), mg_running := (mg_running s)(j := None)\<rparr>)
    = (pool_of s)\<lparr>pl_free := insert b (idle s), pl_held := (mg_running s)(j := None)\<rparr>" (is "pool_of ?t = _")
proof -
  have "mg_running ?t i = Some c \<longleftrightarrow> mg_running s i = Some c" if "c \<noteq> b" for i c
    using that assms(2) by auto
  then have "dead ?t c \<longleftrightarrow> dead s c" for c
    using assms(2) by (cases "c = b") (auto simp: dead_def)
  then have "Collect (dead ?t) = Collect (dead s)" by blast
  moreover have "idle ?t = insert b (idle s)" by (auto simp: idle_def)
  ultimately show ?thesis by (simp add: pool_of_def)
qed

lemma pool_of_lose:
  assumes "pool_inv N s" "mg_running s j = Some b"
  shows "pool_of (s\<lparr>mg_running := (mg_running s)(j := None), mg_failed := mg_failed s + 1\<rparr>)
    = (pool_of s)\<lparr>pl_held := (mg_running s)(j := None), pl_lost := insert b (Collect (dead s))\<rparr>" (is "pool_of ?t = _")
proof -
  have "mg_running ?t i = Some c \<longleftrightarrow> mg_running s i = Some c" if "c \<noteq> b" for i c
    using that assms(2) by auto
  moreover have "mg_running ?t i \<noteq> Some b" for i using held_once [OF assms] by auto
  ultimately have "dead ?t c \<longleftrightarrow> c = b \<or> dead s c" for c
    using held_status [OF assms] by (cases "c = b") (auto simp: dead_def)
  then have "Collect (dead ?t) = insert b (Collect (dead s))" by blast
  then show ?thesis by (simp add: pool_of_def idle_def)
qed

lemma pool_of_reject: "pool_of (s\<lparr>mg_status := (mg_status s)(None \<mapsto> True)\<rparr>) = pool_of s"
  by (auto simp: pool_of_def idle_def dead_def)

text \<open>Each step of the manager is a step of the pool.\<close>

lemma manager_step_sound:
  assumes inv: "pool_inv N s" and st: "mstep s s'"
  shows "\<exists>e. pstep (pool_of s) e (pool_of s')"
  using st
proof (cases rule: mstep.cases)
  case (start order b m j)
  note f = findIdle_Some [OF start(3)]
  then have "pstep (pool_of s) (Acquire j b) (pool_of s')"
    using start pool_of_acquire [of s b j] by (simp add: pool_of_def idle_def)
  then show ?thesis ..
next
  case (reject order m)
  have "mg_status s None \<noteq> Some False" using inv by (simp add: pool_inv_def)
  note f = findIdle_None [OF reject(3,2) this]
  then have "pl_free (pool_of s) = {}" by (simp add: pool_of_def idle_def)
  then have "pstep (pool_of s) Reject (pool_of s')" using f reject pool_of_reject [of s] by simp
  then show ?thesis ..
next
  case (finish j b)
  then have "pstep (pool_of s) (Release j) (pool_of s')"
    using pool_of_release [OF inv finish(2)] by (simp add: pool_of_def)
  then show ?thesis ..
next
  case (fail j b)
  then have "pstep (pool_of s) (Lose j) (pool_of s')"
    using pool_of_lose [OF inv fail(2)] by (simp add: pool_of_def)
  then show ?thesis ..
qed

text \<open>Each step of the pool is taken by the manager, with a suitable order of the search.\<close>

lemma manager_step_complete:
  assumes inv: "pool_inv N s" and "finite N" and st: "pstep (pool_of s) e q"
  shows "\<exists>s'. mstep s s' \<and> pool_of s' = q"
proof -
  have "dom (mg_status s) \<subseteq> insert None (Some ` N)"
  proof
    fix x assume "x \<in> dom (mg_status s)"
    then show "x \<in> insert None (Some ` N)" using inv by (cases x) (auto simp: pool_inv_def)
  qed
  then have "finite (dom (mg_status s))" by (rule finite_subset) (simp add: assms(2))
  from finite_list [OF this] obtain order where order: "set order = dom (mg_status s)" ..
  have nil: "mg_status s None \<noteq> Some False" using inv by (simp add: pool_inv_def)
  from st show ?thesis
  proof cases
    case (acquire b j)
    then have b: "mg_status s (Some b) = Some False" by (simp add: pool_of_def idle_def)
    let ?m = "(mg_status s)(Some b \<mapsto> True)"
    let ?s' = "s\<lparr>mg_status := ?m, mg_running := (mg_running s)(j \<mapsto> b)\<rparr>"
    have "findIdleSandbox (Some b # order) (mg_status s) = (Some b, ?m)" using b by (simp add: findIdleSandbox_def Let_def)
    moreover have "set (Some b # order) = dom (mg_status s)" using order b by auto
    moreover have "mg_running s j = None" using acquire by (simp add: pool_of_def)
    ultimately have "mstep s ?s'" by (intro mstep.start)
    moreover have "pool_of ?s' = q"
      using acquire b pool_of_acquire [of s b j] by (simp add: pool_of_def)
    ultimately show ?thesis by blast
  next
    case reject
    have "mg_status s b \<noteq> Some False" for b
      using reject nil by (cases b) (auto simp: pool_of_def idle_def)
    then have "List.find (\<lambda>box. mg_status s box = Some False) order = None" by (simp add: find_None_iff)
    then have "findIdleSandbox order (mg_status s) = (None, (mg_status s)(None \<mapsto> True))"
      by (simp add: findIdleSandbox_def)
    from mstep.reject [OF order this] show ?thesis using pool_of_reject [of s] reject by blast
  next
    case (release j b)
    then have j: "mg_running s j = Some b" by (simp add: pool_of_def)
    from mstep.finish [OF j] show ?thesis
      using pool_of_release [OF inv j] release by (auto simp: pool_of_def)
  next
    case (lose j b)
    then have j: "mg_running s j = Some b" by (simp add: pool_of_def)
    from mstep.fail [OF j] show ?thesis
      using pool_of_lose [OF inv j] lose by (auto simp: pool_of_def)
  qed
qed

section \<open>Properties\<close>

text \<open>
  C14: the manager implements a pool. It starts as the pool in which all its sandboxes are free; from any state it
  reaches, each of its steps is a step of the pool it stands for and each step of that pool is one it can
  take, whatever the order in which its map is visited and the nil key a rejection leaves in it. So the
  sandboxes are at any time divided into free ones, ones held by exactly one call, and lost ones, and a
  lost one never returns.
\<close>

theorem manager_implements_pool:
  fixes s :: "('j, 'b) manager"
  assumes "mreach alloc sandboxes s"
  shows "pool_of (\<lparr>mg_status = NewSandboxManager alloc sandboxes, mg_running = Map.empty, mg_failed = 0\<rparr>
      :: ('j, 'b) manager) = fresh_pool (boxes alloc sandboxes)
    \<and> (\<forall>s'. mstep s s' \<longrightarrow> (\<exists>e. pstep (pool_of s) e (pool_of s')))
    \<and> (\<forall>e q. pstep (pool_of s) e q \<longrightarrow> (\<exists>s'. mstep s s' \<and> pool_of s' = q \<and> pl_lost (pool_of s) \<subseteq> pl_lost q))
    \<and> partitioned (boxes alloc sandboxes) (pool_of s)"
proof (intro conjI allI impI)
  note inv = mreach_inv [OF assms]
  show "pool_of \<lparr>mg_status = NewSandboxManager alloc sandboxes, mg_running = Map.empty, mg_failed = 0\<rparr>
      = fresh_pool (boxes alloc sandboxes)" by (rule pool_of_start)
  show "mstep s s' \<Longrightarrow> \<exists>e. pstep (pool_of s) e (pool_of s')" for s' by (rule manager_step_sound [OF inv])
  show "\<exists>s'. mstep s s' \<and> pool_of s' = q \<and> pl_lost (pool_of s) \<subseteq> pl_lost q" if e: "pstep (pool_of s) e q" for e q
    using manager_step_complete [OF inv finite_boxes e] e by (cases e) auto
  show "partitioned (boxes alloc sandboxes) (pool_of s)" using assms
  proof (induction rule: mreach.induct)
    case init
    show ?case unfolding pool_of_start by (simp add: partitioned_def fresh_pool_def)
  next
    case (step s s')
    from manager_step_sound [OF mreach_inv [OF step(1)] step(2)] step.IH show ?case
      by (auto dest: partitioned_step)
  qed
qed

theorem manager_implements_pool_witness:
  "partitioned {0} (pool_of (\<lparr>mg_status = NewSandboxManager (\<lambda>i. i) [], mg_running = Map.empty, mg_failed = 0\<rparr>
      :: (string, nat) manager))
    \<and> (\<exists>s'. mstep (\<lparr>mg_status = NewSandboxManager (\<lambda>i. i) [], mg_running = Map.empty, mg_failed = 0\<rparr>) s'
        \<and> pl_held (pool_of s') = [''job'' \<mapsto> (0 :: nat)])"
proof -
  have b: "boxes (\<lambda>i. i) [] = {0 :: nat}" by (simp add: boxes_def)
  note pool = manager_implements_pool [where 'j = string, OF mreach.init [of "\<lambda>i. i" "[] :: nat list"], unfolded pool_of_start b]
  have "pstep (fresh_pool {0 :: nat}) (Acquire ''job'' 0)
      ((fresh_pool {0})\<lparr>pl_free := {}, pl_held := [''job'' \<mapsto> 0]\<rparr>)" by (simp add: fresh_pool_def)
  with pool obtain s' where "mstep (\<lparr>mg_status = NewSandboxManager (\<lambda>i. i) [], mg_running = Map.empty, mg_failed = 0\<rparr>) s'"
    "pool_of s' = (fresh_pool {0})\<lparr>pl_free := {}, pl_held := [''job'' \<mapsto> 0]\<rparr>" by blast
  then show ?thesis using pool unfolding pool_of_start b by auto
qed

end
