(* ===== verification/FirstJob.thy ===== *)
theory FirstJob
  imports Sandbox GoText
begin

text \<open>
  The first job of a sandbox on Linux: \<^verbatim>\<open>executeJob\<close> of \<^verbatim>\<open>egvm-invoker/executor/sandbox.go\<close> reads a binary result
  with a scanner of lines. Here the lines come from the bytes the process writes, by the standard library's
  \<open>scan_lines\<close>: three lines of a banner, then the encoded result with a newline after it.
\<close>

section \<open>The fourth line\<close>

text \<open>\<open>out\<close> is the output of the process, \<open>enc\<close> the encoding of results the invoker decodes.\<close>

definition writes :: "('j, 'r) pipe_api \<Rightarrow> Sandbox \<Rightarrow> bytes \<Rightarrow> bool" where
  "writes P b out \<longleftrightarrow> sp_lines P (sb_name b) = scan_lines out"

text \<open>An encoding that is self-delimiting, as MessagePack is: no proper prefix of an encoded value decodes.\<close>

definition self_delimiting :: "('j, 'r) pipe_api \<Rightarrow> ('r \<Rightarrow> bytes) \<Rightarrow> bool" where
  "self_delimiting P enc \<longleftrightarrow> (\<forall>r. sp_UnmarshalMsg P (enc r) = Inr r)
     \<and> (\<forall>r p q. enc r = p @ q \<and> q \<noteq> [] \<longrightarrow> (\<exists>err. sp_UnmarshalMsg P p = Inl err))"

lemma scan_fourth_line:
  assumes "length banner = 3" "\<forall>l \<in> set banner. clean_line l"
  shows "scan_result P 0 (scan_lines (as_lines banner @ b)) =
    (case scan_lines b of [] \<Rightarrow> Inr (sp_zero P) | line # _ \<Rightarrow> sp_UnmarshalMsg P line)"
proof -
  obtain l0 l1 l2 where "banner = [l0, l1, l2]"
    using assms(1) by (auto simp: length_Suc_conv numeral_3_eq_3)
  then show ?thesis using scan_as_lines [OF assms(2)] by (simp split: list.split)
qed

lemma cut_line_is_prefix:
  assumes "\<not> clean_line bz" "length (takeWhile (\<lambda>x. x \<noteq> 10) bz) < 65536"
  shows "\<exists>q. q \<noteq> [] \<and> bz = dropCR (takeWhile (\<lambda>x. x \<noteq> 10) bz) @ q"
proof (cases "10 \<in> set bz")
  case True
  then have "dropWhile (\<lambda>x. x \<noteq> 10) bz \<noteq> []" by (induction bz) auto
  moreover have "\<exists>c. l = dropCR l @ c" for l :: bytes
    by (simp add: dropCR_def) (metis append_butlast_last_id)
  then obtain c where "takeWhile (\<lambda>x. x \<noteq> 10) bz = dropCR (takeWhile (\<lambda>x. x \<noteq> 10) bz) @ c" by blast
  then have "bz = dropCR (takeWhile (\<lambda>x. x \<noteq> 10) bz) @ c @ dropWhile (\<lambda>x. x \<noteq> 10) bz"
    by (metis takeWhile_dropWhile_id append.assoc)
  ultimately show ?thesis by (metis append_is_Nil_conv)
next
  case False
  then have t: "takeWhile (\<lambda>x. x \<noteq> 10) bz = bz" by (auto simp: takeWhile_eq_all_conv)
  with assms False have "bz \<noteq> []" "last bz = 13" by (auto simp: clean_line_def)
  then have "bz = butlast bz @ [13]" using append_butlast_last_id [of bz] by simp
  with \<open>bz \<noteq> []\<close> \<open>last bz = 13\<close> show ?thesis unfolding t by (intro exI [of _ "[13]"]) (simp add: dropCR_def)
qed

lemma takeWhile_newline: "takeWhile (\<lambda>x. x \<noteq> (10 :: byte)) (bz @ [10]) = takeWhile (\<lambda>x. x \<noteq> 10) bz"
  by (induction bz) auto

section \<open>Property\<close>

text \<open>
  C33: the first result is read as a line. When the process writes its three banner lines, the encoded result and
  a newline, the first job gets that result if its encoding is a line the scanner returns as it is. If the
  encoding holds a newline byte (as the number 10 does in MessagePack) or ends in a carriage return, the call
  fails, though the process has answered, and the manager keeps its sandbox marked busy for ever. If 64 KiB or
  more come before a newline, the call reports success with the zero value in place of the result.
\<close>

theorem first_result_is_a_line:
  assumes "sp_MarshalMsg P job = Inr jz" "sp_Write P (sb_name b) jz = None" "\<not> sp_darwin P" "sb_firstRun b"
    and "writes P b (as_lines banner @ enc r @ 10 # rest)" "length banner = 3" "\<forall>l \<in> set banner. clean_line l"
    and "self_delimiting P enc"
  shows "(clean_line (enc r) \<longrightarrow> executeJob P b job = (Inr (Inr r), b\<lparr>sb_firstRun := False\<rparr>))
    \<and> (length (takeWhile (\<lambda>x. x \<noteq> 10) (enc r)) \<ge> 65536 \<longrightarrow>
        executeJob P b job = (Inr (Inr (sp_zero P)), b\<lparr>sb_firstRun := False\<rparr>))
    \<and> (\<not> clean_line (enc r) \<and> length (takeWhile (\<lambda>x. x \<noteq> 10) (enc r)) < 65536 \<longrightarrow>
        (\<exists>err. executeJob P b job = (Inr (Inl err), b)
          \<and> (findIdleSandbox order m = (Some box, m') \<longrightarrow>
              ExecuteJob order (\<lambda>_. fst (executeJob P b job)) m = (Inr (Inl err), m') \<and> m' (Some box) = Some True)))"
proof (intro conjI impI)
  have run: "executeJob P b job =
      (case (case scan_lines (enc r @ 10 # rest) of [] \<Rightarrow> Inr (sp_zero P) | line # _ \<Rightarrow> sp_UnmarshalMsg P line) of
         Inl err \<Rightarrow> (Inr (Inl err), b) | Inr res \<Rightarrow> (Inr (Inr res), b\<lparr>sb_firstRun := False\<rparr>))"
    using assms(1-4) scan_fourth_line [OF assms(6,7), of P "enc r @ 10 # rest"] assms(5)
    by (simp add: executeJob_def writes_def)
  show "executeJob P b job = (Inr (Inr r), b\<lparr>sb_firstRun := False\<rparr>)" if "clean_line (enc r)"
    using assms(8) unfolding run scan_clean_line [OF that] by (simp add: self_delimiting_def)
  show "executeJob P b job = (Inr (Inr (sp_zero P)), b\<lparr>sb_firstRun := False\<rparr>)"
    if "length (takeWhile (\<lambda>x. x \<noteq> 10) (enc r)) \<ge> 65536"
    using that unfolding run scan_line takeWhile_newline by (simp add: Let_def)
  assume cut: "\<not> clean_line (enc r) \<and> length (takeWhile (\<lambda>x. x \<noteq> 10) (enc r)) < 65536"
  then obtain q where "q \<noteq> []" "enc r = dropCR (takeWhile (\<lambda>x. x \<noteq> 10) (enc r)) @ q"
    using cut_line_is_prefix by blast
  with assms(8) obtain err where "sp_UnmarshalMsg P (dropCR (takeWhile (\<lambda>x. x \<noteq> 10) (enc r))) = Inl err"
    unfolding self_delimiting_def by blast
  with cut have "executeJob P b job = (Inr (Inl err), b)"
    unfolding run scan_line takeWhile_newline by (simp add: Let_def)
  then show "\<exists>err. executeJob P b job = (Inr (Inl err), b)
      \<and> (findIdleSandbox order m = (Some box, m') \<longrightarrow>
          ExecuteJob order (\<lambda>_. fst (executeJob P b job)) m = (Inr (Inl err), m') \<and> m' (Some box) = Some True)"
    using findIdle_Some [of order m box m'] by (intro exI [of _ err]) (auto simp: ExecuteJob_def)
qed

text \<open>A process that answers every job with the number 10, as MessagePack encodes it in a byte of its own.\<close>

definition ten_pipe :: "(bytes, byte) pipe_api" where
  "ten_pipe = \<lparr>sp_darwin = False, sp_MarshalMsg = Inr, sp_Write = (\<lambda>n b. None), sp_DecodeMsg = (\<lambda>n. Inl ''EOF''),
     sp_lines = (\<lambda>n. scan_lines (as_lines [[1], [2], [3]] @ [0xCC, 10] @ 10 # [])),
     sp_UnmarshalMsg = (\<lambda>b. case b of [t, x] \<Rightarrow> if t = 0xCC then Inr x else Inl ''bad prefix'' | _ \<Rightarrow> Inl ''too few bytes''),
     sp_zero = 0\<rparr>"

theorem first_result_is_a_line_witness:
  "\<exists>err. executeJob ten_pipe (NewAndStartSandbox ''sandbox0'') [] = (Inr (Inl err), NewAndStartSandbox ''sandbox0'')
    \<and> ExecuteJob [Some 0] (\<lambda>_. fst (executeJob ten_pipe (NewAndStartSandbox ''sandbox0'') [])) [Some 0 \<mapsto> False]
      = (Inr (Inl err), [Some (0 :: nat) \<mapsto> True])"
proof -
  let ?b = "NewAndStartSandbox ''sandbox0''" and ?enc = "\<lambda>x :: byte. [0xCC, x]"
  have "sp_MarshalMsg ten_pipe [] = Inr []" "sp_Write ten_pipe (sb_name ?b) [] = None" "\<not> sp_darwin ten_pipe" "sb_firstRun ?b"
    "writes ten_pipe ?b (as_lines [[1], [2], [3]] @ ?enc 10 @ 10 # [])" "\<forall>l \<in> set [[1], [2], [3]]. clean_line l"
    by (simp_all add: ten_pipe_def NewAndStartSandbox_def writes_def clean_line_def)
  moreover have "self_delimiting ten_pipe ?enc"
    by (auto simp: self_delimiting_def ten_pipe_def Cons_eq_append_conv)
  moreover have "findIdleSandbox [Some 0] [Some (0 :: nat) \<mapsto> False] = (Some 0, [Some 0 \<mapsto> True])"
    by (simp add: findIdleSandbox_def Let_def)
  ultimately show ?thesis
    using first_result_is_a_line [where P = ten_pipe and job = "[]" and b = ?b and banner = "[[1], [2], [3]]" and enc = ?enc and
        r = 10 and rest = "[]" and order = "[Some (0 :: nat)]" and m = "[Some 0 \<mapsto> False]" and box = 0 and m' = "[Some 0 \<mapsto> True]"]
    by (simp add: clean_line_def)
qed

end
