(* ===== verification/Invoker.thy ===== *)
theory Invoker
  imports Sandbox KeyGrantor
begin

text \<open>
  \<^verbatim>\<open>egvm-invoker/cmd/main.go\<close>: the HTTP service that hands compressed jobs to the sandbox manager. The
  compression, the MessagePack code of jobs and results and what a sandbox answers are parameters.
\<close>

section \<open>The handler of /execute\<close>

text \<open>
  \<open>iv_Reader\<close> is \<^verbatim>\<open>gzip.NewReader\<close> of the body with the outcome of reading it to the end; \<open>iv_Gzip\<close> what a
  \<^verbatim>\<open>gzip.Writer\<close> makes of the content.
\<close>

record ('j, 'r) invoker_env =
  iv_Reader :: "bytes \<Rightarrow> string + (string + bytes)"
  iv_Gzip :: "bytes \<Rightarrow> bytes"
  iv_UnmarshalJob :: "bytes \<Rightarrow> string + 'j"
  iv_MarshalResult :: "'r \<Rightarrow> string + bytes"

definition gzipWrite :: "('j, 'r) invoker_env \<Rightarrow> nat \<Rightarrow> bytes \<Rightarrow> http_response" where
  "gzipWrite V status content = Response status (string_of_bytes (iv_Gzip V content))"

text \<open>\<open>order\<close> and \<open>run\<close> as for \<open>ExecuteJob\<close>; a panic drops the connection, the sandbox staying marked.\<close>

definition handle_execute ::
  "('j, 'r) invoker_env \<Rightarrow> 'b option list \<Rightarrow> ('b \<Rightarrow> 'j \<Rightarrow> (string + 'r) res) \<Rightarrow> bytes \<Rightarrow> 'b status_map
     \<Rightarrow> http_response \<times> 'b status_map" where
  "handle_execute V order run body m =
     (case iv_Reader V body of
        Inl err \<Rightarrow> (gzipWrite V StatusInternalServerError (bytes_of_string ''failed to uncompress request body''), m)
      | Inr (Inl err) \<Rightarrow> (gzipWrite V StatusInternalServerError (bytes_of_string ''failed to read request body''), m)
      | Inr (Inr body) \<Rightarrow>
     (case iv_UnmarshalJob V body of
        Inl err \<Rightarrow> (gzipWrite V StatusBadRequest (bytes_of_string ''failed to unmarshal request body''), m)
      | Inr job \<Rightarrow>
     (case ExecuteJob order (\<lambda>box. run box job) m of
        (Inl p, m) \<Rightarrow> (Dropped p, m)
      | (Inr (Inl err), m) \<Rightarrow>
          (gzipWrite V StatusInternalServerError (bytes_of_string (''failed to execute lambda job:'' @ err)), m)
      | (Inr (Inr result), m) \<Rightarrow>
          ((case iv_MarshalResult V result of
              Inl err \<Rightarrow> gzipWrite V StatusInternalServerError (bytes_of_string ''failed to marshal result body'')
            | Inr out \<Rightarrow> gzipWrite V StatusOK out), m))))"

text \<open>Requests one after the other, each with the order its search happens to take.\<close>

primrec handle_all ::
  "('j, 'r) invoker_env \<Rightarrow> ('b \<Rightarrow> 'j \<Rightarrow> (string + 'r) res) \<Rightarrow> ('b option list \<times> bytes) list \<Rightarrow> 'b status_map
     \<Rightarrow> http_response list \<times> 'b status_map" where
  "handle_all V run [] m = ([], m)"
| "handle_all V run (r # rs) m =
     (case handle_execute V (fst r) run (snd r) m of (a, m) \<Rightarrow>
      case handle_all V run rs m of (as, m) \<Rightarrow> (a # as, m))"

section \<open>Lemmas\<close>

definition decoded :: "('j, 'r) invoker_env \<Rightarrow> bytes \<Rightarrow> 'j option" where
  "decoded V body = (case iv_Reader V body of Inr (Inr b) \<Rightarrow> (case iv_UnmarshalJob V b of Inr j \<Rightarrow> Some j | _ \<Rightarrow> None) | _ \<Rightarrow> None)"

abbreviation busy_answer :: "('j, 'r) invoker_env \<Rightarrow> http_response" where
  "busy_answer V \<equiv> gzipWrite V StatusInternalServerError
     (bytes_of_string ''failed to execute lambda job:all sandbox busy, try later'')"

lemma handle_execute_decoded:
  "decoded V body = Some job \<Longrightarrow> handle_execute V order run body m =
     (case ExecuteJob order (\<lambda>box. run box job) m of
        (Inl p, m) \<Rightarrow> (Dropped p, m)
      | (Inr (Inl err), m) \<Rightarrow>
          (gzipWrite V StatusInternalServerError (bytes_of_string (''failed to execute lambda job:'' @ err)), m)
      | (Inr (Inr result), m) \<Rightarrow>
          ((case iv_MarshalResult V result of
              Inl err \<Rightarrow> gzipWrite V StatusInternalServerError (bytes_of_string ''failed to marshal result body'')
            | Inr out \<Rightarrow> gzipWrite V StatusOK out), m))"
  by (auto simp: decoded_def handle_execute_def split: sum.splits)

lemma handle_execute_undecoded: "decoded V body = None \<Longrightarrow> snd (handle_execute V order run body m) = m"
  by (auto simp: decoded_def handle_execute_def split: sum.splits)

text \<open>No sandbox is idle.\<close>

definition all_busy :: "'b status_map \<Rightarrow> bool" where
  "all_busy m \<longleftrightarrow> (\<forall>b. m b \<noteq> Some False)"

lemma findIdle_busy: "all_busy m \<Longrightarrow> findIdleSandbox order m = (None, m(None \<mapsto> True))"
proof -
  assume "all_busy m"
  then have "List.find (\<lambda>box. m box = Some False) order = None" by (auto simp: all_busy_def find_None_iff)
  then show ?thesis by (simp add: findIdleSandbox_def)
qed

lemma handle_busy:
  assumes "all_busy m" "decoded V body = Some job"
  shows "handle_execute V order run body m = (busy_answer V, m(None \<mapsto> True))"
  using findIdle_busy [OF assms(1)] by (simp add: handle_execute_decoded [OF assms(2)] ExecuteJob_def)

lemma handle_all_busy:
  "all_busy m \<Longrightarrow> \<forall>r \<in> set rs. decoded V (snd r) \<noteq> None \<Longrightarrow>
    fst (handle_all V run rs m) = replicate (length rs) (busy_answer V)"
proof (induction rs arbitrary: m)
  case (Cons r rs)
  then obtain job where "decoded V (snd r) = Some job" by auto
  note h = handle_busy [OF Cons.prems(1) this, of "fst r" run]
  have "all_busy (m(None \<mapsto> True))" using Cons.prems(1) by (simp add: all_busy_def)
  from Cons.IH [OF this] Cons.prems(2) have "fst (handle_all V run rs (m(None \<mapsto> True))) = replicate (length rs) (busy_answer V)"
    by (simp del: fun_upd_apply)
  with h show ?case by (simp add: case_prod_beta del: fun_upd_apply)
qed simp

text \<open>The search of an order that visits the whole map.\<close>

lemma findIdle_single:
  assumes "m = [Some b \<mapsto> False]" "set order = dom m"
  shows "findIdleSandbox order m = (Some b, [Some b \<mapsto> True])"
proof -
  have "List.find (\<lambda>box. m box = Some False) order = Some (Some b)"
  proof (cases "List.find (\<lambda>box. m box = Some False) order")
    case None
    with assms show ?thesis by (auto simp: find_None_iff)
  next
    case (Some x)
    then show ?thesis using assms by (auto simp: find_Some_iff split: if_splits)
  qed
  then show ?thesis using assms(1) by (simp add: findIdleSandbox_def Let_def)
qed

section \<open>Properties\<close>


definition mini_invoker :: "(bytes, bytes) invoker_env" where
  "mini_invoker = \<lparr>iv_Reader = (\<lambda>b. Inr (Inr b)), iv_Gzip = id,
     iv_UnmarshalJob = (\<lambda>b. if b = [] then Inl ''short'' else Inr b), iv_MarshalResult = Inr\<rparr>"


end
