(* ===== verification/JobClients.thy ===== *)
theory JobClients
  imports Invoker GoText KeyStore
begin

text \<open>
  The two command-line programs that build a job from files: \<^verbatim>\<open>script/tester/main.go\<close>, which writes it to
  its standard output, and \<^verbatim>\<open>egvm-invoker/tester/main.go\<close>, which sends it to the invoker and prints the
  result. The types of jobs and results with their MessagePack code are generated in another repository:
  the fields the programs assign are a record here, all else of them is the parameter \<open>C\<close>.
\<close>

section \<open>The programs\<close>

record job_fields =
  jf_Script :: string
  jf_Certs :: "string list"
  jf_Config :: string
  jf_Inputs :: "bytes list"
  jf_State :: bytes

text \<open>
  \<open>cl_MarshalMsg\<close> gives the bytes and the error of \<^verbatim>\<open>MarshalMsg(nil)\<close>; \<open>cl_NewReader\<close> the error of
  \<^verbatim>\<open>gzip.NewReader\<close> on a body and \<open>cl_DecodeMsg\<close> the result decoded from its stream; \<open>cl_NewRequest\<close> the
  error \<^verbatim>\<open>http.NewRequestWithContext\<close> has for a method and a URL; \<open>cl_Sprint\<close> is the format \<^verbatim>\<open>%+v\<close>.
\<close>

record 'r client_env =
  cl_MarshalMsg :: "job_fields \<Rightarrow> bytes \<times> string option"
  cl_Gzip :: "bytes \<Rightarrow> bytes"
  cl_NewRequest :: "string \<Rightarrow> string \<Rightarrow> string option"
  cl_NewReader :: "bytes \<Rightarrow> string option"
  cl_DecodeMsg :: "bytes \<Rightarrow> string + 'r"
  cl_Sprint :: "'r \<Rightarrow> string"
  cl_Outputs :: "'r \<Rightarrow> bytes list"
  cl_Error :: "'r \<Rightarrow> string"

text \<open>The command line.\<close>

record job_flags =
  fl_w :: string
  fl_f :: string
  fl_c :: string
  fl_i :: string
  fl_s :: string

definition read_file :: "fs \<Rightarrow> string \<Rightarrow> bytes res" where
  "read_file f name =
     (case f name of
        None \<Rightarrow> Inl (PError (''open '' @ name @ '': no such file or directory''))
      | Some b \<Rightarrow> Inr b)"

primrec read_certs :: "fs \<Rightarrow> string list \<Rightarrow> string list res" where
  "read_certs f [] = Inr []"
| "read_certs f (certFile # certFiles) =
     (if certFile \<noteq> ''''
      then bind_res (read_file f certFile) (\<lambda>certB.
        bind_res (read_certs f certFiles) (\<lambda>certs. Inr (string_of_bytes certB # certs)))
      else read_certs f certFiles)"

text \<open>The text of a hexadecimal error is not modelled further.\<close>

definition decode_hex :: "string \<Rightarrow> bytes res" where
  "decode_hex s = (case hex_DecodeString s of None \<Rightarrow> Inl (PError ''encoding/hex: invalid text'') | Some b \<Rightarrow> Inr b)"

primrec decode_inputs :: "string list \<Rightarrow> bytes list res" where
  "decode_inputs [] = Inr []"
| "decode_inputs (i # is') = bind_res (decode_hex i) (\<lambda>input.
     bind_res (decode_inputs is') (\<lambda>inputs. Inr (input # inputs)))"

text \<open>\<^verbatim>\<open>main\<close> of the script's tester: what it writes.\<close>

definition script_tester :: "'r client_env \<Rightarrow> job_flags \<Rightarrow> fs \<Rightarrow> bytes res" where
  "script_tester C fl f =
     bind_res (read_file f (fl_w fl)) (\<lambda>scriptB.
     bind_res (read_certs f (split_on (CHR '','') (fl_f fl))) (\<lambda>certs.
     bind_res (decode_inputs (split_on (CHR '','') (fl_i fl))) (\<lambda>inputs.
     bind_res (decode_hex (fl_s fl)) (\<lambda>state.
       case cl_MarshalMsg C \<lparr>jf_Script = string_of_bytes scriptB, jf_Certs = certs, jf_Config = fl_c fl,
              jf_Inputs = inputs, jf_State = state\<rparr> of
         (bz, Some err) \<Rightarrow> Inl (PError err)
       | (bz, None) \<Rightarrow> Inr bz))))"

record gz_request =
  gr_method :: string
  gr_url :: string
  gr_body :: bytes
  gr_headers :: "string \<rightharpoonup> string"

definition invokerUrl :: string where
  "invokerUrl = ''http://127.0.0.1:8001/execute''"

text \<open>Writing to a buffer in memory has no error.\<close>

definition sendGzipRequest :: "'r client_env \<Rightarrow> string \<Rightarrow> string \<Rightarrow> bytes \<Rightarrow> gz_request res" where
  "sendGzipRequest C meth url body =
     (case cl_NewRequest C meth url of
        Some err \<Rightarrow> Inl (PError err)
      | None \<Rightarrow> Inr \<lparr>gr_method = meth, gr_url = url, gr_body = cl_Gzip C body,
          gr_headers = [''Content-Type'' \<mapsto> ''application/json'', ''Content-Encoding'' \<mapsto> ''gzip'']\<rparr>)"

text \<open>
  \<^verbatim>\<open>main\<close> of the invoker's tester: the lines it prints. The flags \<^verbatim>\<open>-i\<close> and \<^verbatim>\<open>-s\<close> are parsed and not used, the
  error of \<^verbatim>\<open>MarshalMsg\<close> is dropped, and the status of the response is not looked at.
\<close>

definition invoker_tester ::
  "'r client_env \<Rightarrow> (gz_request \<Rightarrow> string + http_response) \<Rightarrow> job_flags \<Rightarrow> fs \<Rightarrow> string list res" where
  "invoker_tester C Do fl f =
     bind_res (read_file f (fl_w fl)) (\<lambda>scriptB.
     bind_res (read_certs f (split_on (CHR '','') (fl_f fl))) (\<lambda>certs.
       let body = fst (cl_MarshalMsg C \<lparr>jf_Script = string_of_bytes scriptB, jf_Certs = certs, jf_Config = fl_c fl,
              jf_Inputs = [], jf_State = []\<rparr>) in
     bind_res (sendGzipRequest C ''POST'' invokerUrl body) (\<lambda>req.
       case Do req of
         Inl err \<Rightarrow> Inl (PError err)
       | Inr (Dropped p) \<Rightarrow> Inl (PError ''EOF'')
       | Inr (Response st content) \<Rightarrow>
           (case cl_NewReader C (bytes_of_string content) of
              Some err \<Rightarrow> Inl (PError err)
            | None \<Rightarrow>
                (case cl_DecodeMsg C (bytes_of_string content) of
                   Inl err \<Rightarrow> Inl (PError err)
                 | Inr res \<Rightarrow> Inr ((''res: '' @ cl_Sprint C res) # map string_of_bytes (cl_Outputs C res)
                     @ (if cl_Error C res \<noteq> '''' then [cl_Error C res] else [])))))))"

section \<open>What the command line holds\<close>

lemma read_certs_all:
  "\<forall>c \<in> set cs. c \<noteq> '''' \<longrightarrow> f c \<noteq> None \<Longrightarrow>
    read_certs f cs = Inr (map (\<lambda>c. string_of_bytes (the (f c))) (filter (\<lambda>c. c \<noteq> '''') cs))"
  by (induction cs) (auto simp: read_file_def)

text \<open>Names joined by commas.\<close>

primrec commas :: "string list \<Rightarrow> string" where
  "commas [] = ''''"
| "commas (x # xs) = (if xs = [] then x else x @ CHR '','' # commas xs)"

lemma split_commas:
  "xs \<noteq> [] \<Longrightarrow> \<forall>x \<in> set xs. CHR '','' \<notin> set x \<Longrightarrow> split_on (CHR '','') (commas xs) = xs"
  by (induction xs) (auto simp: split_on_none split_on_append)

lemma comma_not_hex: "CHR '','' \<notin> set (hex_EncodeToString b)"
proof (induction b)
  case (Cons x b)
  have "hex_digit n \<noteq> CHR '',''" if "n < 16" for n
  proof
    assume "hex_digit n = CHR '',''"
    with hex_value_digit [OF that] show False by (simp add: hex_value_def)
  qed
  from this [of "unat x div 16"] this [of "unat x mod 16"] unat_byte_less [of x]
  have "hex_digit (unat x div 16) \<noteq> CHR '',''" "hex_digit (unat x mod 16) \<noteq> CHR '',''"
    by (simp_all add: less_mult_imp_div_less)
  with Cons show ?case by (auto dest: sym)
qed simp

lemma decode_inputs_hex: "decode_inputs (map hex_EncodeToString bs) = Inr bs"
  by (induction bs) (simp_all add: decode_hex_def)

text \<open>
  the command line of the script's tester. Inputs written in hexadecimal and joined by commas reach the job as
  they are, the certificates are the contents of the files named; without inputs the job has one empty input.
\<close>

theorem tester_job_fields:
  assumes "f w = Some script" "cs \<noteq> []" "\<forall>c \<in> set cs. CHR '','' \<notin> set c \<and> (c \<noteq> '''' \<longrightarrow> f c \<noteq> None)"
  shows "script_tester C \<lparr>fl_w = w, fl_f = commas cs, fl_c = cfg,
      fl_i = commas (map hex_EncodeToString inputs), fl_s = hex_EncodeToString state\<rparr> f =
    (case cl_MarshalMsg C \<lparr>jf_Script = string_of_bytes script,
        jf_Certs = map (\<lambda>c. string_of_bytes (the (f c))) (filter (\<lambda>c. c \<noteq> '''') cs), jf_Config = cfg,
        jf_Inputs = (if inputs = [] then [[]] else inputs), jf_State = state\<rparr> of
       (bz, Some err) \<Rightarrow> Inl (PError err) | (bz, None) \<Rightarrow> Inr bz)"
proof -
  have i: "decode_inputs (split_on (CHR '','') (commas (map hex_EncodeToString inputs)))
      = Inr (if inputs = [] then [[]] else inputs)"
    using split_commas [of "map hex_EncodeToString inputs"] decode_inputs_hex [of inputs]
    by (cases "inputs = []") (auto simp: comma_not_hex decode_hex_def)
  have c: "read_certs f (split_on (CHR '','') (commas cs))
      = Inr (map (\<lambda>c. string_of_bytes (the (f c))) (filter (\<lambda>c. c \<noteq> '''') cs))"
    using assms(2,3) by (simp add: split_commas read_certs_all)
  show ?thesis by (simp add: script_tester_def read_file_def assms(1) i c decode_hex_def)
qed

section \<open>Client and invoker\<close>

text \<open>
  What the packages document: a reader undoes what a gzip writer has made, and the generated codes of jobs
  and results undo themselves; \<open>job\<close> is the job the invoker holds for the fields of the client's.
\<close>

locale job_codec =
  fixes C :: "'r client_env" and V :: "('j, 'r) invoker_env" and job :: "job_fields \<Rightarrow> 'j"
  assumes Gzip: "iv_Reader V (cl_Gzip C b) = Inr (Inr b)"
    and Job: "cl_MarshalMsg C j = (b, None) \<Longrightarrow> iv_UnmarshalJob V b = Inr (job j)"
    and Result: "iv_MarshalResult V r = Inr b \<Longrightarrow> cl_NewReader C (iv_Gzip V b) = None"
      "iv_MarshalResult V r = Inr b \<Longrightarrow> cl_DecodeMsg C (iv_Gzip V b) = Inr r"
begin

lemma sent_job_decoded:
  "cl_MarshalMsg C j = (b, None) \<Longrightarrow> decoded V (cl_Gzip C b) = Some (job j)"
  by (simp add: decoded_def Gzip Job)

lemma served_job:
  assumes "cl_MarshalMsg C j = (b, None)" "m = [Some box \<mapsto> False]" "set order = dom m"
    and "run box (job j) = Inr (Inr result)" "iv_MarshalResult V result = Inr out"
  shows "handle_execute V order run (cl_Gzip C b) m = (gzipWrite V StatusOK out, m)"
  using findIdle_single [OF assms(2,3)] assms(2,4,5)
  by (simp add: handle_execute_decoded [OF sent_job_decoded [OF assms(1)]] ExecuteJob_def)

end

text \<open>The client against a server that answers with \<open>resp\<close> what it is sent.\<close>

lemma invoker_tester_run:
  assumes "f (fl_w fl) = Some script" "read_certs f (split_on (CHR '','') (fl_f fl)) = Inr certs"
    and "cl_NewRequest C ''POST'' invokerUrl = None"
    and "cl_MarshalMsg C \<lparr>jf_Script = string_of_bytes script, jf_Certs = certs, jf_Config = fl_c fl,
           jf_Inputs = [], jf_State = []\<rparr> = (bz, None)"
    and "\<And>req. gr_body req = cl_Gzip C bz \<Longrightarrow> Do req = Inr (gzipWrite V st content)"
    and "cl_NewReader C (iv_Gzip V content) = None"
  shows "invoker_tester C Do fl f =
    (case cl_DecodeMsg C (iv_Gzip V content) of
       Inl err \<Rightarrow> Inl (PError err)
     | Inr res \<Rightarrow> Inr ((''res: '' @ cl_Sprint C res) # map string_of_bytes (cl_Outputs C res)
         @ (if cl_Error C res \<noteq> '''' then [cl_Error C res] else [])))"
  by (simp add: invoker_tester_def read_file_def assms sendGzipRequest_def gzipWrite_def)

definition mini_client :: "bytes client_env" where
  "mini_client = \<lparr>cl_MarshalMsg = (\<lambda>j. (bytes_of_string (jf_Script j @ concat (jf_Certs j)), None)), cl_Gzip = id,
     cl_NewRequest = (\<lambda>m u. None), cl_NewReader = (\<lambda>b. None),
     cl_DecodeMsg = (\<lambda>b. if b = [] \<or> hd b = 102 then Inl ''msgp: wrong type'' else Inr b),
     cl_Sprint = string_of_bytes, cl_Outputs = (\<lambda>b. [b]), cl_Error = (\<lambda>b. '''')\<rparr>"

definition mini_server :: "(string, bytes) invoker_env" where
  "mini_server = \<lparr>iv_Reader = (\<lambda>b. Inr (Inr b)), iv_Gzip = id,
     iv_UnmarshalJob = (\<lambda>b. Inr (string_of_bytes b)),
     iv_MarshalResult = (\<lambda>r. if r = [] \<or> hd r = 102 then Inl ''not a result'' else Inr r)\<rparr>"

interpretation mini_job: job_codec mini_client mini_server "\<lambda>j. jf_Script j @ concat (jf_Certs j)"
  by unfold_locales (auto simp: mini_client_def mini_server_def split: if_splits)

lemma job_codec_mini: "job_codec mini_client mini_server (\<lambda>j. jf_Script j @ concat (jf_Certs j))"
  by (rule mini_job.job_codec_axioms)

section \<open>Properties\<close>

text \<open>
  C19: client and invoker fit together. Against an invoker with one idle sandbox, the client prints the
  result the sandbox computes for the job made of the script, the certificates and the configuration named on
  the command line; the inputs and the state on the command line do not reach the job. When all sandboxes
  are busy the client does not print the invoker's text: it panics with the error of decoding it.
\<close>

theorem client_prints_the_result:
  fixes C :: "'r client_env" and V :: "('j, 'r) invoker_env"
  assumes "job_codec C V job" "f (fl_w fl) = Some script"
    and "read_certs f (split_on (CHR '','') (fl_f fl)) = Inr certs"
    and "cl_NewRequest C ''POST'' invokerUrl = None"
  defines "j \<equiv> \<lparr>jf_Script = string_of_bytes script, jf_Certs = certs, jf_Config = fl_c fl, jf_Inputs = [], jf_State = []\<rparr>"
  assumes "cl_MarshalMsg C j = (bz, None)"
    and "set order = {Some box}" "run box (job j) = Inr (Inr result)" "iv_MarshalResult V result = Inr out"
  shows "invoker_tester C (\<lambda>req. Inr (fst (handle_execute V order run (gr_body req) [Some box \<mapsto> False]))) fl f
      = Inr ((''res: '' @ cl_Sprint C result) # map string_of_bytes (cl_Outputs C result)
          @ (if cl_Error C result \<noteq> '''' then [cl_Error C result] else []))
    \<and> (let text = iv_Gzip V (bytes_of_string ''failed to execute lambda job:all sandbox busy, try later'') in
        cl_NewReader C text = None \<and> cl_DecodeMsg C text = Inl err \<longrightarrow>
        invoker_tester C (\<lambda>req. Inr (fst (handle_execute V order run (gr_body req) [Some box \<mapsto> True]))) fl f
          = Inl (PError err))"
proof -
  note codec = assms(1)
  note client = invoker_tester_run [OF assms(2,3,4) assms(6) [unfolded j_def]]
  have ok: "handle_execute V order run (cl_Gzip C bz) [Some box \<mapsto> False] = (gzipWrite V StatusOK out, [Some box \<mapsto> False])"
    using job_codec.served_job [OF codec assms(6), of "[Some box \<mapsto> False]" box order run result out] assms(7-9) by simp
  have busy: "fst (handle_execute V order run (cl_Gzip C bz) [Some box \<mapsto> True]) = busy_answer V"
    using handle_busy [OF _ job_codec.sent_job_decoded [OF codec assms(6)], of "[Some box \<mapsto> True]" order run]
    by (simp add: all_busy_def)
  have "invoker_tester C (\<lambda>req. Inr (fst (handle_execute V order run (gr_body req) [Some box \<mapsto> False]))) fl f
      = (case cl_DecodeMsg C (iv_Gzip V out) of
           Inl err \<Rightarrow> Inl (PError err)
         | Inr res \<Rightarrow> Inr ((''res: '' @ cl_Sprint C res) # map string_of_bytes (cl_Outputs C res)
             @ (if cl_Error C res \<noteq> '''' then [cl_Error C res] else [])))"
    by (rule client) (simp_all add: ok job_codec.Result [OF codec assms(9)])
  moreover have "invoker_tester C (\<lambda>req. Inr (fst (handle_execute V order run (gr_body req) [Some box \<mapsto> True]))) fl f
      = Inl (PError err)" if "cl_NewReader C (iv_Gzip V content) = None" "cl_DecodeMsg C (iv_Gzip V content) = Inl err"
      "content = bytes_of_string ''failed to execute lambda job:all sandbox busy, try later''" for content
    using client [where st = StatusInternalServerError and content = content and V = V, OF _ that(1)] that(2,3) busy by simp
  ultimately show ?thesis by (simp add: job_codec.Result [OF codec assms(9)] Let_def)
qed

theorem client_prints_the_result_witness:
  "invoker_tester mini_client (\<lambda>req. Inr (fst (handle_execute mini_server [Some 0]
      (\<lambda>b j. Inr (Inr (bytes_of_string (rev j)))) (gr_body req) [Some (0 :: nat) \<mapsto> False])))
    \<lparr>fl_w = ''s.js'', fl_f = ''a.pem'', fl_c = '''', fl_i = ''00'', fl_s = ''''\<rparr>
    [''s.js'' \<mapsto> [111, 110], ''a.pem'' \<mapsto> [119]] = Inr [''res: wno'', ''wno'']"
proof -
  let ?f = "[''s.js'' \<mapsto> [111, 110 :: byte], ''a.pem'' \<mapsto> [119]]"
    and ?fl = "\<lparr>fl_w = ''s.js'', fl_f = ''a.pem'', fl_c = '''', fl_i = ''00'', fl_s = ''''\<rparr>"
  have s: "string_of_bytes [111, 110] = ''on''" "string_of_bytes [119] = ''w''" by (code_simp)+
  have 1: "?f (fl_w ?fl) = Some [111, 110]" "read_certs ?f (split_on (CHR '','') (fl_f ?fl)) = Inr [''w'']"
    "cl_NewRequest mini_client ''POST'' invokerUrl = None"
    by (simp_all add: read_file_def s mini_client_def)
  have 2: "iv_MarshalResult mini_server (bytes_of_string ''wno'') = Inr (bytes_of_string ''wno'')"
    by (simp add: mini_server_def) code_simp
  have 3: "cl_MarshalMsg mini_client \<lparr>jf_Script = string_of_bytes [111, 110], jf_Certs = [''w''], jf_Config = fl_c ?fl,
      jf_Inputs = [], jf_State = []\<rparr> = (bytes_of_string ''onw'', None)"
    by (simp add: mini_client_def s)
  have "set [Some (0 :: nat)] = {Some 0}" by simp
  note printed = client_prints_the_result [OF job_codec_mini 1 3 this _ 2, of "\<lambda>b j. Inr (Inr (bytes_of_string (rev j)))",
      THEN conjunct1]
  then show ?thesis by (simp add: s mini_client_def)
qed

end
