(* ===== verification/TmRpc.thy ===== *)
theory TmRpc
  imports GoStd
begin

text \<open>
  The RPC client of both indexers, \<^verbatim>\<open>indexer/tm.go\<close> and \<^verbatim>\<open>egvm-indexer/tm.go\<close>. The two files differ
  only in the package and the import name, and each holds three copies of one pattern: fetch a result
  by number from a URL, and try every node until one answers. The world \<open>'w\<close> stands for what the
  process cannot see: the network and the clock.
\<close>

section \<open>Strings\<close>

fun str_contains :: "string \<Rightarrow> string \<Rightarrow> bool" where
  "str_contains sub [] \<longleftrightarrow> sub = []"
| "str_contains sub (c # s) \<longleftrightarrow> take (length sub) (c # s) = sub \<or> str_contains sub s"

text \<open>\<^verbatim>\<open>strings.ReplaceAll\<close> for a non-empty \<open>old\<close>, given as its first character and the others.\<close>

fun str_replace_all :: "char \<Rightarrow> string \<Rightarrow> string \<Rightarrow> string \<Rightarrow> string" where
  "str_replace_all o1 os new [] = []"
| "str_replace_all o1 os new (c # s) =
     (if c = o1 \<and> take (length os) s = os then new @ str_replace_all o1 os new (drop (length os) s)
      else c # str_replace_all o1 os new s)"

section \<open>One request\<close>

text \<open>
  \<^verbatim>\<open>http.Get\<close> yields an error with a nil response (\<open>Inl\<close>), or a response: its status code, its status
  text and the result of reading its body. (After too many redirects there is an error and a response;
  the code then goes on with the response, so that case is a response here.)
\<close>

record 'w net =
  nt_Get :: "'w \<Rightarrow> string \<Rightarrow> 'w \<times> (string + (nat \<times> string) \<times> (string + string))"
  nt_Sleep :: "nat \<Rightarrow> 'w \<Rightarrow> 'w"

text \<open>
  The packages of Tendermint that decode an answer: the RPC envelope and the three results. A nil
  pointer in a result is \<open>None\<close>.
\<close>

record ('h, 'v, 'b) tm_rpc =
  rpc_Envelope :: "string \<Rightarrow> string + string"
  rpc_Commit :: "string \<Rightarrow> string + 'h"
  rpc_Validators :: "string \<Rightarrow> string + 'v list"
  rpc_Block :: "string \<Rightarrow> string + 'b option"

text \<open>
  The body of the three \<^verbatim>\<open>...ByNumber\<close> functions, with the decoder of the result as an argument. The
  error of \<^verbatim>\<open>http.Get\<close> is not looked at: \<^verbatim>\<open>defer resp.Body.Close()\<close> dereferences a nil response.
\<close>

definition get_result ::
  "'w net \<Rightarrow> (string \<Rightarrow> string + string) \<Rightarrow> (string \<Rightarrow> string + 'a) \<Rightarrow> string \<Rightarrow> 'w \<Rightarrow> 'w \<times> (string + 'a) res" where
  "get_result N envelope decode reqUrl w =
     (case nt_Get N w reqUrl of
        (w, Inl err) \<Rightarrow> (w, Inl PNilDeref)
      | (w, Inr ((code, status), body)) \<Rightarrow>
          (w, if code \<noteq> 200 then Inr (Inl (''response status not wanted:'' @ status))
              else case body of
                Inl err \<Rightarrow> Inr (Inl err)
              | Inr body \<Rightarrow> (case envelope body of
                  Inl err \<Rightarrow> Inr (Inl err)
                | Inr result \<Rightarrow> (case decode result of
                    Inl err \<Rightarrow> Inr (Inl err)
                  | Inr c \<Rightarrow> Inr (Inr c)))))"

definition getSignedHeaderByNumber ::
  "'w net \<Rightarrow> ('h, 'v, 'b) tm_rpc \<Rightarrow> string \<Rightarrow> uint64 \<Rightarrow> 'w \<Rightarrow> 'w \<times> (string + 'h) res" where
  "getSignedHeaderByNumber N R url height =
     get_result N (rpc_Envelope R) (rpc_Commit R) (url @ ''/commit?height='' @ decimal (unat height))"

definition getValidatorsByNumber ::
  "'w net \<Rightarrow> ('h, 'v, 'b) tm_rpc \<Rightarrow> string \<Rightarrow> uint64 \<Rightarrow> 'w \<Rightarrow> 'w \<times> (string + 'v list) res" where
  "getValidatorsByNumber N R url height =
     get_result N (rpc_Envelope R) (rpc_Validators R) (url @ ''/validators?height='' @ decimal (unat height))"

definition getBlockByNumber ::
  "'w net \<Rightarrow> ('h, 'v, 'b) tm_rpc \<Rightarrow> string \<Rightarrow> uint64 \<Rightarrow> 'w \<Rightarrow> 'w \<times> (string + 'b option) res" where
  "getBlockByNumber N R url height =
     get_result N (rpc_Envelope R) (rpc_Block R) (url @ ''/block?height='' @ decimal (unat height))"

section \<open>Until a node answers\<close>

definition tm_url :: "string \<Rightarrow> string" where
  "tm_url addr = str_replace_all (CHR ''8'') ''545'' ''26657'' addr"

text \<open>
  \<^verbatim>\<open>for _, addr := range addrs\<close>: an address without \<^verbatim>\<open>8545\<close> is skipped, an answer ends the function
  (\<open>Some\<close>), an error goes on with the next address.
\<close>

primrec fetch_pass ::
  "(string \<Rightarrow> 'w \<Rightarrow> 'w \<times> (string + 'a) res) \<Rightarrow> string list \<Rightarrow> 'w \<Rightarrow> 'w \<times> 'a option res" where
  "fetch_pass get [] w = (w, Inr None)"
| "fetch_pass get (addr # addrs) w =
     (if \<not> str_contains ''8545'' addr then fetch_pass get addrs w
      else case get (tm_url addr) w of
        (w, Inl p) \<Rightarrow> (w, Inl p)
      | (w, Inr (Inr b)) \<Rightarrow> (w, Inr (Some b))
      | (w, Inr (Inl err)) \<Rightarrow> fetch_pass get addrs w)"

text \<open>The endless loop around it, with ten seconds between two passes.\<close>

partial_function (option) fetch_loop ::
  "'w net \<Rightarrow> (string \<Rightarrow> 'w \<Rightarrow> 'w \<times> (string + 'a) res) \<Rightarrow> string list \<Rightarrow> 'w \<Rightarrow> ('w \<times> 'a res) option" where
  "fetch_loop N get addrs w =
     (case fetch_pass get addrs w of
        (w, Inl p) \<Rightarrow> Some (w, Inl p)
      | (w, Inr (Some b)) \<Rightarrow> Some (w, Inr b)
      | (w, Inr None) \<Rightarrow> fetch_loop N get addrs (nt_Sleep N 10000 w))"

definition getSignedHeader ::
  "'w net \<Rightarrow> ('h, 'v, 'b) tm_rpc \<Rightarrow> string list \<Rightarrow> uint64 \<Rightarrow> 'w \<Rightarrow> ('w \<times> 'h res) option" where
  "getSignedHeader N R addrs height w =
     fetch_loop N (\<lambda>addr. getSignedHeaderByNumber N R addr height) addrs w"

definition getValidators ::
  "'w net \<Rightarrow> ('h, 'v, 'b) tm_rpc \<Rightarrow> string list \<Rightarrow> uint64 \<Rightarrow> 'w \<Rightarrow> ('w \<times> 'v list res) option" where
  "getValidators N R addrs height w =
     fetch_loop N (\<lambda>addr. getValidatorsByNumber N R addr height) addrs w"

definition getBlock ::
  "'w net \<Rightarrow> ('h, 'v, 'b) tm_rpc \<Rightarrow> string list \<Rightarrow> uint64 \<Rightarrow> 'w \<Rightarrow> ('w \<times> 'b option res) option" where
  "getBlock N R addrs height w =
     fetch_loop N (\<lambda>addr. getBlockByNumber N R addr height) addrs w"

section \<open>Lemmas\<close>

lemma take_prefix_append: "take (length p) (p @ t) = p"
  by simp

lemma str_contains_iff: "str_contains sub s \<longleftrightarrow> (\<exists>a b. s = a @ sub @ b)"
proof (induction s)
  case Nil
  then show ?case by auto
next
  case (Cons c s)
  have "take (length sub) (c # s) = sub \<longleftrightarrow> (\<exists>b. c # s = sub @ b)"
    by (metis append_eq_conv_conj append_take_drop_id)
  moreover have "(\<exists>a b. c # s = a @ sub @ b) \<longleftrightarrow> (\<exists>b. c # s = sub @ b) \<or> (\<exists>a b. s = a @ sub @ b)"
    by (auto simp: Cons_eq_append_conv)
  ultimately show ?case using Cons.IH by simp
qed

lemma fetch_pass_Some:
  assumes "fetch_pass get addrs w = (w', Inr (Some b))"
  shows "\<exists>addr \<in> set addrs. str_contains ''8545'' addr \<and> (\<exists>v v'. get (tm_url addr) v = (v', Inr (Inr b)))"
  using assms by (induction addrs arbitrary: w) (auto split: if_splits prod.splits sum.splits)

lemma fetch_pass_skip:
  assumes "\<forall>addr \<in> set addrs. \<not> str_contains ''8545'' addr"
  shows "fetch_pass get addrs w = (w, Inr None)"
  using assms by (induction addrs) simp_all

text \<open>A node that always answers with \<open>b\<close>, behind nodes that fail without a panic.\<close>

lemma fetch_pass_first:
  assumes "\<forall>a \<in> set before. \<not> str_contains ''8545'' a \<or> (\<forall>w. \<exists>w' e. get (tm_url a) w = (w', Inr (Inl e)))"
    and "str_contains ''8545'' addr" "\<And>w. \<exists>w'. get (tm_url addr) w = (w', Inr (Inr b))"
  shows "\<exists>w'. fetch_pass get (before @ addr # after) w = (w', Inr (Some b))"
  using assms(1)
proof (induction before arbitrary: w)
  case Nil
  from assms(3) [of w] assms(2) show ?case by auto
next
  case (Cons a before)
  show ?case
  proof (cases "str_contains ''8545'' a")
    case True
    then obtain w' e where "get (tm_url a) w = (w', Inr (Inl e))" using Cons.prems by fastforce
    with True Cons show ?thesis by simp
  qed (use Cons in simp)
qed

text \<open>What ends the loop: an answer of a node that decodes, or a panic of a pass.\<close>

definition fetched ::
  "(string \<Rightarrow> 'w \<Rightarrow> 'w \<times> (string + 'a) res) \<Rightarrow> string list \<Rightarrow> 'w \<times> 'a res \<Rightarrow> bool" where
  "fetched get addrs z \<longleftrightarrow>
     (\<exists>b. snd z = Inr b \<and> (\<exists>addr \<in> set addrs. str_contains ''8545'' addr
        \<and> (\<exists>v v'. get (tm_url addr) v = (v', Inr (Inr b)))))
     \<or> (\<exists>v p. snd z = Inl p \<and> fetch_pass get addrs v = (fst z, Inl p))"

lemma fetch_loop_result:
  assumes "fetch_loop N get addrs w = Some z"
  shows "fetched get addrs z"
proof (rule fetch_loop.raw_induct [of "\<lambda>N get addrs w z. fetched get addrs z", OF _ assms])
  fix f :: "'a net \<Rightarrow> (string \<Rightarrow> 'a \<Rightarrow> 'a \<times> (string + 'b) res) \<Rightarrow> string list \<Rightarrow> 'a \<Rightarrow> ('a \<times> 'b res) option"
  fix N :: "'a net" and get :: "string \<Rightarrow> 'a \<Rightarrow> 'a \<times> (string + 'b) res" and addrs w z
  assume IH: "\<And>N get addrs w z. f N get addrs w = Some z \<Longrightarrow> fetched get addrs z"
    and eq: "(case fetch_pass get addrs w of
        (w, Inl p) \<Rightarrow> Some (w, Inl p)
      | (w, Inr None) \<Rightarrow> f N get addrs (nt_Sleep N 10000 w)
      | (w, Inr (Some b)) \<Rightarrow> Some (w, Inr b)) = Some z"
  obtain v r where p: "fetch_pass get addrs w = (v, r)" by (cases "fetch_pass get addrs w")
  show "fetched get addrs z"
  proof (cases r)
    case (Inl e)
    with p eq have "z = (v, Inl e)" by simp
    with p Inl show ?thesis by (auto simp: fetched_def)
  next
    case (Inr o')
    show ?thesis
    proof (cases o')
      case None
      with p Inr eq have "f N get addrs (nt_Sleep N 10000 v) = Some z" by simp
      then show ?thesis by (rule IH)
    next
      case (Some b)
      with p Inr eq have "z = (v, Inr b)" by simp
      with fetch_pass_Some [of get addrs w v b] p Inr Some show ?thesis by (auto simp: fetched_def)
    qed
  qed
qed

lemma fetch_loop_no_node:
  assumes "\<forall>addr \<in> set addrs. \<not> str_contains ''8545'' addr"
  shows "fetch_loop N get addrs w = None"
proof (cases "fetch_loop N get addrs w")
  case (Some z)
  from fetch_loop_result [OF Some] assms fetch_pass_skip [OF assms, of get] show ?thesis
    by (auto simp: fetched_def)
qed simp

lemma fetch_loop_first:
  assumes "\<forall>a \<in> set before. \<not> str_contains ''8545'' a \<or> (\<forall>w. \<exists>w' e. get (tm_url a) w = (w', Inr (Inl e)))"
    and "str_contains ''8545'' addr" "\<And>w. \<exists>w'. get (tm_url addr) w = (w', Inr (Inr b))"
  shows "\<exists>w'. fetch_loop N get (before @ addr # after) w = Some (w', Inr b)"
  using fetch_pass_first [where w = w and after = after, OF assms] by (auto simp: fetch_loop.simps [of N get _ w])

lemma fetch_pass_total:
  assumes "\<forall>a \<in> set addrs. str_contains ''8545'' a \<longrightarrow> (\<forall>w. \<exists>w' r. get (tm_url a) w = (w', Inr r))"
    and "addr \<in> set addrs" "str_contains ''8545'' addr" "\<And>w. \<exists>w' b. get (tm_url addr) w = (w', Inr (Inr b))"
  shows "\<exists>w' b. fetch_pass get addrs w = (w', Inr (Some b))"
  using assms(1,2)
proof (induction addrs arbitrary: w)
  case (Cons a addrs)
  show ?case
  proof (cases "str_contains ''8545'' a")
    case True
    then obtain w' r where r: "get (tm_url a) w = (w', Inr r)" using Cons.prems by fastforce
    show ?thesis
    proof (cases r)
      case (Inl e)
      then have "a \<noteq> addr" using r assms(4) [of w] by auto
      with True r Inl Cons show ?thesis by simp
    qed (use True r in simp)
  next
    case False
    then have "a \<noteq> addr" using assms(3) by auto
    with False Cons show ?thesis by simp
  qed
qed simp

lemma fetch_loop_total:
  assumes "\<forall>a \<in> set addrs. str_contains ''8545'' a \<longrightarrow> (\<forall>w. \<exists>w' r. get (tm_url a) w = (w', Inr r))"
    and "addr \<in> set addrs" "str_contains ''8545'' addr" "\<And>w. \<exists>w' b. get (tm_url addr) w = (w', Inr (Inr b))"
  shows "\<exists>w' b. fetch_loop N get addrs w = Some (w', Inr b)"
  using fetch_pass_total [OF assms, of w] by (auto simp: fetch_loop.simps [of N get addrs w])

lemma fetch_loop_head:
  assumes "str_contains ''8545'' addr" "\<And>w. \<exists>w'. get (tm_url addr) w = (w', Inr (Inr b))"
  shows "\<exists>w'. fetch_loop N get (addr # addrs) w = Some (w', Inr b)"
  using assms(2) [of w] assms(1) by (auto simp: fetch_loop.simps [of N get _ w])

lemma fetch_loop_now:
  assumes "str_contains ''8545'' addr" "get (tm_url addr) w = (w', Inr (Inr b))"
  shows "fetch_loop N get (addr # addrs) w = Some (w', Inr b)"
  using assms by (simp add: fetch_loop.simps [of N get _ w])

end
