(* ===== verification/LightClient.thy ===== *)
theory LightClient
  imports TmRpc
begin

text \<open>
  The light client both indexers run: one turn of the endless loop of \<^verbatim>\<open>DataFetcher.start\<close>
  (\<^verbatim>\<open>indexer/datafetcher.go\<close>) and of \<^verbatim>\<open>Indexer.start\<close> (\<^verbatim>\<open>egvm-indexer/indexer.go\<close>) up to the point where a
  block is accepted, which is the same code in both, and the lemmas on how trust and the list of nodes
  move from turn to turn.
\<close>

section \<open>Tendermint\<close>

text \<open>
  The verification functions of Tendermint. \<open>tl_Height\<close> is \<open>None\<close> where reading \<^verbatim>\<open>header.Height\<close>
  dereferences nil (a nil signed header, or one without a header). Times are nanoseconds; \<open>None\<close> as a
  validator set or a block is nil.
\<close>

record ('h, 'v, 'vs, 'b) tm_light =
  tl_Height :: "'h \<Rightarrow> int64 option"
  tl_ValidatorSet :: "'v list \<Rightarrow> string + 'vs"
  tl_ValidateBasic :: "string \<Rightarrow> 'h \<Rightarrow> 'vs option \<Rightarrow> string option"
  tl_VerifyAdjacent :: "'h \<Rightarrow> 'h \<Rightarrow> 'vs option \<Rightarrow> int \<Rightarrow> int \<Rightarrow> int \<Rightarrow> string option"
  tl_LightHash :: "'h \<Rightarrow> bytes"
  tl_BlockHash :: "'b option \<Rightarrow> bytes"
  tl_BlockHeight :: "'b \<Rightarrow> int64"

text \<open>The nodes and the clock.\<close>

record ('w, 'h, 'v, 'vs, 'b) light_env =
  le_net :: "'w net"
  le_rpc :: "('h, 'v, 'b) tm_rpc"
  le_tm :: "('h, 'v, 'vs, 'b) tm_light"
  le_Now :: "'w \<Rightarrow> int"

section \<open>One turn\<close>

text \<open>\<^verbatim>\<open>smartbchAddrs[len-1]\<close> panics on an empty list.\<close>

definition rotateList :: "string list \<Rightarrow> string list res" where
  "rotateList addrs =
     (if length addrs = 0 then Inl PIndexOutOfRange
      else Inr ([addrs ! (length addrs - 1)] @ take (length addrs - 1) addrs))"

definition trusting_period :: int where
  "trusting_period = 2 * 168 * 3600 * 10 ^ 9"

definition max_clock_drift :: int where
  "max_clock_drift = 10 * 10 ^ 9"

text \<open>
  One turn up to the acceptance of a block: \<open>Inl addrs\<close> is \<^verbatim>\<open>continue\<close> with the rotated list,
  \<open>Inr (h, blk)\<close> an accepted header and block. The outer option is \<open>None\<close> when a fetch never ends.
  The error of building the validator set is overwritten; the set is then nil.
\<close>

definition verify_next ::
  "('w, 'h, 'v, 'vs, 'b) light_env \<Rightarrow> string \<Rightarrow> string list \<Rightarrow> 'h \<Rightarrow> 'w
     \<Rightarrow> ('w \<times> (string list + 'h \<times> 'b option) res) option" where
  "verify_next L chainId addrs trusted w =
     (let T = le_tm L; rotate_on = (\<lambda>w. Some (w, bind_res (rotateList addrs) (\<lambda>l. Inr (Inl l)))) in
      case tl_Height T trusted of
        None \<Rightarrow> Some (w, Inl PNilDeref)
      | Some trustedHeight \<Rightarrow>
     (let height = trustedHeight + 1 in
      case getSignedHeader (le_net L) (le_rpc L) addrs height w of
        None \<Rightarrow> None
      | Some (w, Inl p) \<Rightarrow> Some (w, Inl p)
      | Some (w, Inr untrustedHeader) \<Rightarrow>
     (case tl_Height T untrustedHeader of
        None \<Rightarrow> Some (w, Inl PNilDeref)
      | Some h \<Rightarrow>
          if h \<noteq> height
          then map_option (map_prod (nt_Sleep (le_net L) 200) id) (rotate_on w)
          else
     (case getValidators (le_net L) (le_rpc L) addrs height w of
        None \<Rightarrow> None
      | Some (w, Inl p) \<Rightarrow> Some (w, Inl p)
      | Some (w, Inr validators) \<Rightarrow>
     (let valSet = (case tl_ValidatorSet T validators of Inl err \<Rightarrow> None | Inr vs \<Rightarrow> Some vs) in
      if tl_ValidateBasic T chainId untrustedHeader valSet \<noteq> None then rotate_on w
      else if tl_VerifyAdjacent T trusted untrustedHeader valSet trusting_period (le_Now L w) max_clock_drift \<noteq> None
      then rotate_on w
      else
     (case getBlock (le_net L) (le_rpc L) addrs height w of
        None \<Rightarrow> None
      | Some (w, Inl p) \<Rightarrow> Some (w, Inl p)
      | Some (w, Inr blk) \<Rightarrow>
          if tl_BlockHash T blk \<noteq> tl_LightHash T untrustedHeader then rotate_on w
          else Some (w, Inr (Inr (untrustedHeader, blk)))))))))"

section \<open>What acceptance means\<close>

text \<open>\<open>h'\<close> follows \<open>h\<close>: the check of Tendermint for adjacent headers succeeded at some time.\<close>

definition follows :: "('h, 'v, 'vs, 'b) tm_light \<Rightarrow> string \<Rightarrow> 'h \<Rightarrow> 'h \<Rightarrow> bool" where
  "follows T chainId h h' \<longleftrightarrow>
     (\<exists>n. tl_Height T h = Some n \<and> tl_Height T h' = Some (n + 1))
     \<and> (\<exists>vs now. tl_ValidateBasic T chainId h' vs = None
          \<and> tl_VerifyAdjacent T h h' vs trusting_period now max_clock_drift = None)"

text \<open>A chain of trust from \<open>h\<close>, with for each header the block of the same hash.\<close>

primrec chain :: "('h, 'v, 'vs, 'b) tm_light \<Rightarrow> string \<Rightarrow> 'h \<Rightarrow> ('h \<times> 'b) list \<Rightarrow> bool" where
  "chain T chainId h [] \<longleftrightarrow> True"
| "chain T chainId h (x # xs) \<longleftrightarrow>
     follows T chainId h (fst x) \<and> tl_BlockHash T (Some (snd x)) = tl_LightHash T (fst x)
     \<and> chain T chainId (fst x) xs"

definition tip :: "'h \<Rightarrow> ('h \<times> 'b) list \<Rightarrow> 'h" where
  "tip h xs = (if xs = [] then h else fst (last xs))"

lemma tip_simps [simp]: "tip h [] = h" "tip h (xs @ [x]) = fst x"
  by (simp_all add: tip_def)

lemma chain_append [simp]:
  "chain T c h (xs @ [x]) \<longleftrightarrow> chain T c h xs \<and> follows T c (tip h xs) (fst x)
     \<and> tl_BlockHash T (Some (snd x)) = tl_LightHash T (fst x)"
  by (induction xs arbitrary: h) (auto simp: tip_def)

lemma chain_heights:
  assumes "chain T c h xs" "tl_Height T h = Some n"
  shows "tl_Height T (tip h xs) = Some (n + of_nat (length xs))
    \<and> (\<forall>i < length xs. tl_Height T (fst (xs ! i)) = Some (n + of_nat i + 1))"
  using assms
proof (induction xs rule: rev_induct)
  case (snoc x xs)
  then have "tl_Height T (fst x) = Some (n + of_nat (length xs) + 1)"
    by (auto simp: follows_def)
  with snoc show ?case by (auto simp: nth_append less_Suc_eq add.commute add.left_commute)
qed simp

section \<open>Rotation\<close>

lemma rotateList_eq: "addrs \<noteq> [] \<Longrightarrow> rotateList addrs = Inr (rotate (length addrs - 1) addrs)"
proof -
  assume "addrs \<noteq> []"
  then have "rotate (length addrs - 1) addrs = drop (length addrs - 1) addrs @ take (length addrs - 1) addrs"
    by (simp add: rotate_drop_take)
  also have "drop (length addrs - 1) addrs = [addrs ! (length addrs - 1)]"
    using \<open>addrs \<noteq> []\<close> by (metis last_conv_nth append_butlast_last_id length_butlast append_eq_conv_conj)
  finally show ?thesis using \<open>addrs \<noteq> []\<close> by (simp add: rotateList_def)
qed

lemma rotateList_Inr:
  "rotateList addrs = Inr l \<Longrightarrow> addrs \<noteq> [] \<and> l = rotate (length addrs - 1) addrs"
  by (cases "addrs = []") (auto simp: rotateList_eq, auto simp: rotateList_def)

text \<open>The list after \<open>k\<close> rotations; after \<open>length addrs\<close> of them it is the first one again.\<close>

definition rotated :: "nat \<Rightarrow> string list \<Rightarrow> string list" where
  "rotated k addrs = rotate (k * (length addrs - 1)) addrs"

lemma rotated_simps [simp]:
  "rotated 0 addrs = addrs" "length (rotated k addrs) = length addrs" "set (rotated k addrs) = set addrs"
  "rotated k addrs = [] \<longleftrightarrow> addrs = []"
  by (simp_all add: rotated_def)

lemma rotated_Suc: "rotate (length addrs - 1) (rotated k addrs) = rotated (Suc k) addrs"
  by (simp add: rotated_def rotate_rotate)

lemma rotated_front:
  assumes "i < length addrs"
  shows "rotated (length addrs - i) addrs ! 0 = addrs ! i"
proof -
  let ?n = "length addrs"
  obtain e where n: "?n = i + Suc e" using assms by (auto simp: less_iff_Suc_add)
  have "rotated (?n - i) addrs ! 0 = addrs ! (Suc e * (i + e) mod ?n)"
  proof -
    have "?n - i = Suc e" "?n - 1 = i + e" "0 < ?n" using n by linarith+
    then show ?thesis unfolding rotated_def by (simp only: nth_rotate add_0_right)
  qed
  also have "Suc e * (i + e) = i + e * ?n"
    unfolding n by (simp add: algebra_simps)
  also have "(i + e * ?n) mod ?n = i" using assms by simp
  finally show ?thesis .
qed

section \<open>One turn, from outside\<close>

lemma verify_next_accepts:
  assumes "verify_next L c addrs h w = Some (w', Inr (Inr (h', blk)))"
  shows "follows (le_tm L) c h h' \<and> tl_BlockHash (le_tm L) blk = tl_LightHash (le_tm L) h'"
  using assms
  by (auto simp: verify_next_def Let_def follows_def bind_res_def
      split: option.splits sum.splits if_splits prod.splits)

lemma verify_next_rotates:
  assumes "verify_next L c addrs h w = Some (w', Inr (Inl l))"
  shows "addrs \<noteq> [] \<and> l = rotate (length addrs - 1) addrs"
proof -
  have "rotateList addrs = Inr l"
    using assms by (auto simp: verify_next_def Let_def bind_res_def
      split: option.splits sum.splits if_splits prod.splits)
  then show ?thesis by (rule rotateList_Inr)
qed

section \<open>The loop\<close>

text \<open>
  A turn that goes on to use the accepted block: \<open>accept h b ctx\<close> is what the caller does with it. A
  nil block would be dereferenced there.
\<close>

definition light_turn ::
  "('w, 'h, 'v, 'vs, 'b) light_env \<Rightarrow> string \<Rightarrow> ('h \<Rightarrow> 'b \<Rightarrow> 'c \<Rightarrow> 'c res)
     \<Rightarrow> string list \<times> 'h \<times> 'c \<Rightarrow> 'w \<Rightarrow> ('w \<times> (string list \<times> 'h \<times> 'c) res) option" where
  "light_turn L chainId accept s w =
     (case s of (addrs, h, ctx) \<Rightarrow>
      case verify_next L chainId addrs h w of
        None \<Rightarrow> None
      | Some (w, Inl p) \<Rightarrow> Some (w, Inl p)
      | Some (w, Inr (Inl addrs)) \<Rightarrow> Some (w, Inr (addrs, h, ctx))
      | Some (w, Inr (Inr (h', None))) \<Rightarrow> Some (w, Inl PNilDeref)
      | Some (w, Inr (Inr (h', Some b))) \<Rightarrow>
          Some (w, bind_res (accept h' b ctx) (\<lambda>ctx. Inr (addrs, h', ctx))))"

text \<open>\<open>n\<close> turns of the endless loop.\<close>

primrec light_run ::
  "('w, 'h, 'v, 'vs, 'b) light_env \<Rightarrow> string \<Rightarrow> ('h \<Rightarrow> 'b \<Rightarrow> 'c \<Rightarrow> 'c res)
     \<Rightarrow> nat \<Rightarrow> string list \<times> 'h \<times> 'c \<Rightarrow> 'w \<Rightarrow> ('w \<times> (string list \<times> 'h \<times> 'c) res) option" where
  "light_run L chainId accept 0 s w = Some (w, Inr s)"
| "light_run L chainId accept (Suc n) s w =
     (case light_run L chainId accept n s w of
        None \<Rightarrow> None
      | Some (w, Inl p) \<Rightarrow> Some (w, Inl p)
      | Some (w, Inr s) \<Rightarrow> light_turn L chainId accept s w)"

text \<open>The accepted blocks handled one after the other.\<close>

fun accept_all :: "('h \<Rightarrow> 'b \<Rightarrow> 'c \<Rightarrow> 'c res) \<Rightarrow> ('h \<times> 'b) list \<Rightarrow> 'c \<Rightarrow> 'c res" where
  "accept_all accept [] ctx = Inr ctx"
| "accept_all accept ((h, b) # xs) ctx = bind_res (accept h b ctx) (accept_all accept xs)"

lemma accept_all_append [simp]:
  "accept_all f (xs @ ys) ctx = bind_res (accept_all f xs ctx) (accept_all f ys)"
  by (induction f xs ctx rule: accept_all.induct) (auto simp: bind_res_def split: sum.split)

text \<open>A turn either rotates the list and changes nothing else, or extends the chain.\<close>

lemma light_turn_cases:
  assumes "light_turn L c accept (addrs, h, ctx) w = Some (w', Inr (addrs', h', ctx'))"
  obtains (rotates) "addrs \<noteq> []" "addrs' = rotate (length addrs - 1) addrs" "h' = h" "ctx' = ctx"
  | (accepts) b where "addrs' = addrs" "follows (le_tm L) c h h'"
      "tl_BlockHash (le_tm L) (Some b) = tl_LightHash (le_tm L) h'" "accept h' b ctx = Inr ctx'"
proof (cases "verify_next L c addrs h w")
  case None
  with assms show thesis by (simp add: light_turn_def)
next
  case (Some z)
  obtain v r where z: "z = (v, r)" by (cases z)
  consider p where "r = Inl p" | l where "r = Inr (Inl l)" | h'' where "r = Inr (Inr (h'', None))"
    | h'' b where "r = Inr (Inr (h'', Some b))"
    by (metis old.sum.exhaust option.exhaust surj_pair)
  then show thesis
  proof cases
    case 2
    with Some z verify_next_rotates [of L c addrs h w v l] assms rotates show thesis
      by (simp add: light_turn_def)
  next
    case 4
    with Some z verify_next_accepts [of L c addrs h w v h'' "Some b"] assms accepts [of b] show thesis
      by (auto simp: light_turn_def)
  qed (use Some z assms in \<open>simp_all add: light_turn_def\<close>)
qed

lemma light_run_chain:
  assumes "light_run L c accept n (addrs, h, ctx) w = Some (w', Inr (addrs', h', ctx'))"
  shows "\<exists>xs. chain (le_tm L) c h xs \<and> h' = tip h xs \<and> accept_all accept xs ctx = Inr ctx'
    \<and> length xs \<le> n \<and> addrs' = rotated (n - length xs) addrs"
  using assms
proof (induction n arbitrary: w' addrs' h' ctx')
  case 0
  then show ?case by (auto intro!: exI [of _ "[]"])
next
  case (Suc n)
  then obtain v a1 h1 c1 where r: "light_run L c accept n (addrs, h, ctx) w = Some (v, Inr (a1, h1, c1))"
    and t: "light_turn L c accept (a1, h1, c1) v = Some (w', Inr (addrs', h', ctx'))"
    by (auto split: option.splits sum.splits prod.splits)
  from Suc.IH [OF r] obtain xs where xs: "chain (le_tm L) c h xs" "h1 = tip h xs"
    "accept_all accept xs ctx = Inr c1" "length xs \<le> n" "a1 = rotated (n - length xs) addrs" by blast
  from t show ?case
  proof (cases rule: light_turn_cases)
    case rotates
    then have "addrs' = rotated (Suc n - length xs) addrs"
      using xs rotated_Suc [of addrs "n - length xs"] by (simp add: Suc_diff_le)
    with xs rotates show ?thesis by (intro exI [of _ xs]) simp
  next
    case (accepts b)
    with xs show ?thesis by (intro exI [of _ "xs @ [(h', b)]"]) simp
  qed
qed

section \<open>An honest node\<close>

text \<open>
  The nodes answer: no request fails in a way that panics, no header comes without its content, and a
  checked light block has a hash that is not the one of a nil block. What they answer may be anything.
\<close>

definition responsive ::
  "('w, 'h, 'v, 'vs, 'b) light_env \<Rightarrow> string \<Rightarrow> string list \<Rightarrow> bool" where
  "responsive L chainId addrs \<longleftrightarrow>
     (\<forall>a \<in> set addrs. str_contains ''8545'' a \<longrightarrow> (\<forall>height w.
        (\<exists>w' r. getSignedHeaderByNumber (le_net L) (le_rpc L) (tm_url a) height w = (w', Inr r)
            \<and> (\<forall>h. r = Inr h \<longrightarrow> tl_Height (le_tm L) h \<noteq> None))
        \<and> (\<exists>w' r. getValidatorsByNumber (le_net L) (le_rpc L) (tm_url a) height w = (w', Inr r))
        \<and> (\<exists>w' r. getBlockByNumber (le_net L) (le_rpc L) (tm_url a) height w = (w', Inr r))))
     \<and> (\<forall>h vs. tl_ValidateBasic (le_tm L) chainId h vs = None
          \<longrightarrow> tl_LightHash (le_tm L) h \<noteq> tl_BlockHash (le_tm L) None)"

text \<open>
  A node is honest about the successor of \<open>trusted\<close> when it always serves the same header, validators
  and block for that height, and they pass the checks.
\<close>

definition honest ::
  "('w, 'h, 'v, 'vs, 'b) light_env \<Rightarrow> string \<Rightarrow> string \<Rightarrow> 'h \<Rightarrow> bool" where
  "honest L chainId a trusted \<longleftrightarrow>
     str_contains ''8545'' a \<and>
     (\<exists>n h vals vs b.
        tl_Height (le_tm L) trusted = Some n \<and> tl_Height (le_tm L) h = Some (n + 1)
        \<and> (\<forall>w. (\<exists>w'. getSignedHeaderByNumber (le_net L) (le_rpc L) (tm_url a) (n + 1) w = (w', Inr (Inr h)))
             \<and> (\<exists>w'. getValidatorsByNumber (le_net L) (le_rpc L) (tm_url a) (n + 1) w = (w', Inr (Inr vals)))
             \<and> (\<exists>w'. getBlockByNumber (le_net L) (le_rpc L) (tm_url a) (n + 1) w = (w', Inr (Inr (Some b))))
             \<and> tl_VerifyAdjacent (le_tm L) trusted h (Some vs) trusting_period (le_Now L w) max_clock_drift = None)
        \<and> tl_ValidatorSet (le_tm L) vals = Inr vs
        \<and> tl_ValidateBasic (le_tm L) chainId h (Some vs) = None
        \<and> tl_BlockHash (le_tm L) (Some b) = tl_LightHash (le_tm L) h)"

text \<open>With the honest node first in the list, a turn accepts.\<close>

lemma verify_next_honest:
  assumes "honest L c a trusted"
  shows "\<exists>w' h b. verify_next L c (a # addrs) trusted w = Some (w', Inr (Inr (h, Some b)))"
proof -
  let ?T = "le_tm L" and ?N = "le_net L" and ?R = "le_rpc L"
  from assms obtain n h vals vs b where a: "str_contains ''8545'' a"
    and n: "tl_Height ?T trusted = Some n" and h: "tl_Height ?T h = Some (n + 1)"
    and get: "\<And>w. \<exists>w'. getSignedHeaderByNumber ?N ?R (tm_url a) (n + 1) w = (w', Inr (Inr h))"
      "\<And>w. \<exists>w'. getValidatorsByNumber ?N ?R (tm_url a) (n + 1) w = (w', Inr (Inr vals))"
      "\<And>w. \<exists>w'. getBlockByNumber ?N ?R (tm_url a) (n + 1) w = (w', Inr (Inr (Some b)))"
    and adj: "\<And>w. tl_VerifyAdjacent ?T trusted h (Some vs) trusting_period (le_Now L w) max_clock_drift = None"
    and ok: "tl_ValidatorSet ?T vals = Inr vs" "tl_ValidateBasic ?T c h (Some vs) = None"
      "tl_BlockHash ?T (Some b) = tl_LightHash ?T h"
    unfolding honest_def by metis
  have f1: "\<exists>w'. getSignedHeader ?N ?R (a # addrs) (n + 1) w = Some (w', Inr h)" for w
    unfolding getSignedHeader_def by (rule fetch_loop_head, rule a, rule get(1))
  have f2: "\<exists>w'. getValidators ?N ?R (a # addrs) (n + 1) w = Some (w', Inr vals)" for w
    unfolding getValidators_def by (rule fetch_loop_head, rule a, rule get(2))
  have f3: "\<exists>w'. getBlock ?N ?R (a # addrs) (n + 1) w = Some (w', Inr (Some b))" for w
    unfolding getBlock_def by (rule fetch_loop_head, rule a, rule get(3))
  obtain w1 where "getSignedHeader ?N ?R (a # addrs) (n + 1) w = Some (w1, Inr h)" using f1 by blast
  moreover obtain w2 where "getValidators ?N ?R (a # addrs) (n + 1) w1 = Some (w2, Inr vals)" using f2 by blast
  moreover obtain w3 where "getBlock ?N ?R (a # addrs) (n + 1) w2 = Some (w3, Inr (Some b))" using f3 by blast
  ultimately show ?thesis
    by (simp add: verify_next_def Let_def n h ok adj)
qed

text \<open>With an honest node anywhere in the list, a turn neither hangs nor panics.\<close>

lemma verify_next_total:
  assumes "honest L c a trusted" "a \<in> set addrs" "responsive L c addrs"
  obtains w' l where "verify_next L c addrs trusted w = Some (w', Inr (Inl l))"
  | w' h b where "verify_next L c addrs trusted w = Some (w', Inr (Inr (h, Some b)))"
proof -
  let ?T = "le_tm L" and ?N = "le_net L" and ?R = "le_rpc L"
  from assms(1) obtain n where a: "str_contains ''8545'' a" and n: "tl_Height ?T trusted = Some n"
    and get: "\<And>w. \<exists>w' b. getSignedHeaderByNumber ?N ?R (tm_url a) (n + 1) w = (w', Inr (Inr b))"
      "\<And>w. \<exists>w' b. getValidatorsByNumber ?N ?R (tm_url a) (n + 1) w = (w', Inr (Inr b))"
      "\<And>w. \<exists>w' b. getBlockByNumber ?N ?R (tm_url a) (n + 1) w = (w', Inr (Inr b))"
    unfolding honest_def by metis
  have total: "\<forall>a \<in> set addrs. str_contains ''8545'' a \<longrightarrow>
      (\<forall>w. \<exists>w' r. getSignedHeaderByNumber ?N ?R (tm_url a) (n + 1) w = (w', Inr r))"
    "\<forall>a \<in> set addrs. str_contains ''8545'' a \<longrightarrow>
      (\<forall>w. \<exists>w' r. getValidatorsByNumber ?N ?R (tm_url a) (n + 1) w = (w', Inr r))"
    "\<forall>a \<in> set addrs. str_contains ''8545'' a \<longrightarrow>
      (\<forall>w. \<exists>w' r. getBlockByNumber ?N ?R (tm_url a) (n + 1) w = (w', Inr r))"
    using assms(3) unfolding responsive_def by blast+
  have f1: "\<exists>w' h. getSignedHeader ?N ?R addrs (n + 1) w = Some (w', Inr h)" for w
    unfolding getSignedHeader_def by (rule fetch_loop_total, rule total(1), rule assms(2), rule a, rule get(1))
  have f2: "\<exists>w' h. getValidators ?N ?R addrs (n + 1) w = Some (w', Inr h)" for w
    unfolding getValidators_def by (rule fetch_loop_total, rule total(2), rule assms(2), rule a, rule get(2))
  have f3: "\<exists>w' h. getBlock ?N ?R addrs (n + 1) w = Some (w', Inr h)" for w
    unfolding getBlock_def by (rule fetch_loop_total, rule total(3), rule assms(2), rule a, rule get(3))
  have nonempty: "\<exists>l. rotateList addrs = Inr l"
    using assms(2) rotateList_eq [of addrs] by (cases "addrs = []") auto
  have hash: "tl_BlockHash ?T blk = tl_LightHash ?T h \<Longrightarrow> tl_ValidateBasic ?T c h vs = None \<Longrightarrow> blk \<noteq> None"
    for blk h vs using assms(3) unfolding responsive_def by metis
  obtain w1 h where h: "getSignedHeader ?N ?R addrs (n + 1) w = Some (w1, Inr h)" using f1 by blast
  obtain v where v: "tl_Height ?T h = Some v"
  proof (cases "tl_Height ?T h")
    case None
    from fetch_loop_result [OF h [unfolded getSignedHeader_def]]
    obtain a' u u' where "a' \<in> set addrs" "str_contains ''8545'' a'"
      "getSignedHeaderByNumber ?N ?R (tm_url a') (n + 1) u = (u', Inr (Inr h))"
      by (auto simp: fetched_def)
    with assms(3) None show ?thesis unfolding responsive_def by (metis Pair_inject sum.inject(2))
  qed
  obtain w2 vals where vals: "getValidators ?N ?R addrs (n + 1) w1 = Some (w2, Inr vals)" using f2 by blast
  obtain w3 blk where blk: "getBlock ?N ?R addrs (n + 1) w2 = Some (w3, Inr blk)" using f3 by blast
  let ?vs = "case tl_ValidatorSet ?T vals of Inl err \<Rightarrow> None | Inr vs \<Rightarrow> Some vs"
  have "(\<exists>w' l. verify_next L c addrs trusted w = Some (w', Inr (Inl l)))
      \<or> (\<exists>w'. verify_next L c addrs trusted w = Some (w', Inr (Inr (h, blk))) \<and> blk \<noteq> None)"
    using nonempty hash [of blk h ?vs]
    by (auto simp: verify_next_def Let_def n h v vals blk)
  then show thesis using that by auto
qed

text \<open>Within as many turns as there are nodes, an honest one makes the trusted header advance.\<close>

lemma light_run_advances:
  assumes "honest L c (addrs ! i) h" "i < length addrs" "responsive L c addrs"
    and accept: "\<And>h b ctx. \<exists>ctx'. accept h b ctx = Inr ctx'"
  shows "\<exists>k w' h' ctx'. k < length addrs \<and>
    light_run L c accept (Suc k) (addrs, h, ctx) w = Some (w', Inr (rotated k addrs, h', ctx'))
    \<and> follows (le_tm L) c h h'"
proof -
  have stay: "(\<exists>w'. light_run L c accept m (addrs, h, ctx) w = Some (w', Inr (rotated m addrs, h, ctx)))
      \<or> (\<exists>k < m. \<exists>w' h' ctx'. light_run L c accept (Suc k) (addrs, h, ctx) w
            = Some (w', Inr (rotated k addrs, h', ctx')) \<and> follows (le_tm L) c h h')" for m
  proof (induction m)
    case (Suc m)
    show ?case
    proof (cases "\<exists>w'. light_run L c accept m (addrs, h, ctx) w = Some (w', Inr (rotated m addrs, h, ctx))")
      case True
      then obtain v where r: "light_run L c accept m (addrs, h, ctx) w = Some (v, Inr (rotated m addrs, h, ctx))"
        by blast
      have "addrs ! i \<in> set (rotated m addrs)" "responsive L c (rotated m addrs)"
        using assms by (simp_all add: responsive_def)
      from verify_next_total [OF assms(1) this, of v] show ?thesis
      proof cases
        case (1 w' l)
        with verify_next_rotates [OF 1] rotated_Suc [of addrs m] r show ?thesis
          by (simp add: light_turn_def)
      next
        case (2 w' h' b)
        from verify_next_accepts [OF 2] have "follows (le_tm L) c h h'" by simp
        with 2 accept [of h' b ctx] r show ?thesis
          by (intro disjI2 exI [of _ m]) (auto simp: light_turn_def)
      qed
    next
      case False
      with Suc.IH show ?thesis by (meson less_SucI)
    qed
  qed simp
  show ?thesis
  proof (cases "i = 0")
    case True
    then obtain l where l: "addrs = addrs ! i # l" using assms(2) by (cases addrs) auto
    from verify_next_honest [OF assms(1), of l w] l
    obtain w' h' b where v: "verify_next L c addrs h w = Some (w', Inr (Inr (h', Some b)))" by metis
    from verify_next_accepts [OF v] have "follows (le_tm L) c h h'" by simp
    with v accept [of h' b ctx] assms(2) show ?thesis
      by (intro exI [of _ 0]) (auto simp: light_turn_def)
  next
    case False
    let ?m = "length addrs - i"
    from stay [of ?m] show ?thesis
    proof
      assume "\<exists>w'. light_run L c accept ?m (addrs, h, ctx) w = Some (w', Inr (rotated ?m addrs, h, ctx))"
      then obtain v where r: "light_run L c accept ?m (addrs, h, ctx) w = Some (v, Inr (rotated ?m addrs, h, ctx))"
        by blast
      obtain l where l: "rotated ?m addrs = addrs ! i # l"
        using rotated_front [OF assms(2)] assms(2) by (cases "rotated ?m addrs") auto
      from verify_next_honest [OF assms(1), of l v]
      obtain w' h' b where v: "verify_next L c (rotated ?m addrs) h v = Some (w', Inr (Inr (h', Some b)))"
        unfolding l by blast
      from verify_next_accepts [OF v] have "follows (le_tm L) c h h'" by simp
      with v r accept [of h' b ctx] assms(2) False show ?thesis
        by (intro exI [of _ ?m]) (auto simp: light_turn_def)
    next
      assume "\<exists>k < ?m. \<exists>w' h' ctx'. light_run L c accept (Suc k) (addrs, h, ctx) w
            = Some (w', Inr (rotated k addrs, h', ctx')) \<and> follows (le_tm L) c h h'"
      then obtain k where "k < ?m" "\<exists>w' h' ctx'. light_run L c accept (Suc k) (addrs, h, ctx) w
            = Some (w', Inr (rotated k addrs, h', ctx')) \<and> follows (le_tm L) c h h'" by blast
      then show ?thesis by (intro exI [of _ k]) auto
    qed
  qed
qed

end
