(* ===== verification/ServiceRpc.thy ===== *)
theory ServiceRpc
  imports LightClient
begin

text \<open>
  The service's own copies of two parts of the library: its RPC client \<^verbatim>\<open>egvm-indexer/tm.go\<close> and
  \<^verbatim>\<open>rotateList\<close> of \<^verbatim>\<open>egvm-indexer/indexer.go\<close>. Here each function is written out as the file has it, where
  \<open>TmRpc\<close> gives the functions of \<^verbatim>\<open>indexer/tm.go\<close> their common shape \<open>get_result\<close>; that they are equal shows
  that the copies have not drifted apart, and that nothing is lost in that shape.
\<close>

section \<open>tm.go\<close>

definition svc_getSignedHeaderByNumber ::
  "'w net \<Rightarrow> ('h, 'v, 'b) tm_rpc \<Rightarrow> string \<Rightarrow> uint64 \<Rightarrow> 'w \<Rightarrow> 'w \<times> (string + 'h) res" where
  "svc_getSignedHeaderByNumber N R url height w =
     (let reqUrl = url @ ''/commit?height='' @ decimal (unat height) in
      case nt_Get N w reqUrl of
        (w, Inl err) \<Rightarrow> (w, Inl PNilDeref)
      | (w, Inr ((code, status), content)) \<Rightarrow>
          if code \<noteq> 200 then (w, Inr (Inl (''response status not wanted:'' @ status)))
          else (case content of
            Inl err \<Rightarrow> (w, Inr (Inl err))
          | Inr body \<Rightarrow>
         (case rpc_Envelope R body of
            Inl err \<Rightarrow> (w, Inr (Inl err))
          | Inr r \<Rightarrow>
         (case rpc_Commit R r of
            Inl err \<Rightarrow> (w, Inr (Inl err))
          | Inr c \<Rightarrow> (w, Inr (Inr c))))))"

definition svc_getSignedHeader ::
  "'w net \<Rightarrow> ('h, 'v, 'b) tm_rpc \<Rightarrow> string list \<Rightarrow> uint64 \<Rightarrow> 'w \<Rightarrow> ('w \<times> 'h res) option" where
  "svc_getSignedHeader N R addrs height w =
     fetch_loop N (\<lambda>addr. svc_getSignedHeaderByNumber N R addr height) addrs w"

definition svc_getValidatorsByNumber ::
  "'w net \<Rightarrow> ('h, 'v, 'b) tm_rpc \<Rightarrow> string \<Rightarrow> uint64 \<Rightarrow> 'w \<Rightarrow> 'w \<times> (string + 'v list) res" where
  "svc_getValidatorsByNumber N R url height w =
     (let reqUrl = url @ ''/validators?height='' @ decimal (unat height) in
      case nt_Get N w reqUrl of
        (w, Inl err) \<Rightarrow> (w, Inl PNilDeref)
      | (w, Inr ((code, status), content)) \<Rightarrow>
          if code \<noteq> 200 then (w, Inr (Inl (''response status not wanted:'' @ status)))
          else (case content of
            Inl err \<Rightarrow> (w, Inr (Inl err))
          | Inr body \<Rightarrow>
         (case rpc_Envelope R body of
            Inl err \<Rightarrow> (w, Inr (Inl err))
          | Inr r \<Rightarrow>
         (case rpc_Validators R r of
            Inl err \<Rightarrow> (w, Inr (Inl err))
          | Inr b \<Rightarrow> (w, Inr (Inr b))))))"

definition svc_getValidators ::
  "'w net \<Rightarrow> ('h, 'v, 'b) tm_rpc \<Rightarrow> string list \<Rightarrow> uint64 \<Rightarrow> 'w \<Rightarrow> ('w \<times> 'v list res) option" where
  "svc_getValidators N R addrs height w =
     fetch_loop N (\<lambda>addr. svc_getValidatorsByNumber N R addr height) addrs w"

definition svc_getBlockByNumber ::
  "'w net \<Rightarrow> ('h, 'v, 'b) tm_rpc \<Rightarrow> string \<Rightarrow> uint64 \<Rightarrow> 'w \<Rightarrow> 'w \<times> (string + 'b option) res" where
  "svc_getBlockByNumber N R url height w =
     (let reqUrl = url @ ''/block?height='' @ decimal (unat height) in
      case nt_Get N w reqUrl of
        (w, Inl err) \<Rightarrow> (w, Inl PNilDeref)
      | (w, Inr ((code, status), content)) \<Rightarrow>
          if code \<noteq> 200 then (w, Inr (Inl (''response status not wanted:'' @ status)))
          else (case content of
            Inl err \<Rightarrow> (w, Inr (Inl err))
          | Inr body \<Rightarrow>
         (case rpc_Envelope R body of
            Inl err \<Rightarrow> (w, Inr (Inl err))
          | Inr r \<Rightarrow>
         (case rpc_Block R r of
            Inl err \<Rightarrow> (w, Inr (Inl err))
          | Inr b \<Rightarrow> (w, Inr (Inr b))))))"

definition svc_getBlock ::
  "'w net \<Rightarrow> ('h, 'v, 'b) tm_rpc \<Rightarrow> string list \<Rightarrow> uint64 \<Rightarrow> 'w \<Rightarrow> ('w \<times> 'b option res) option" where
  "svc_getBlock N R addrs height w =
     fetch_loop N (\<lambda>addr. svc_getBlockByNumber N R addr height) addrs w"

section \<open>indexer.go\<close>

definition svc_rotateList :: "string list \<Rightarrow> string list res" where
  "svc_rotateList smartbchAddrs =
     (case smartbchAddrs of
        [] \<Rightarrow> Inl PIndexOutOfRange
      | _ \<Rightarrow> let newList = [last smartbchAddrs] in Inr (newList @ take (length smartbchAddrs - 1) smartbchAddrs))"

section \<open>The copies are equal\<close>

lemma svc_ByNumber_eq:
  "svc_getSignedHeaderByNumber = getSignedHeaderByNumber"
  "svc_getValidatorsByNumber = getValidatorsByNumber"
  "svc_getBlockByNumber = getBlockByNumber"
  by (intro ext; simp add: svc_getSignedHeaderByNumber_def getSignedHeaderByNumber_def svc_getValidatorsByNumber_def
      getValidatorsByNumber_def svc_getBlockByNumber_def getBlockByNumber_def get_result_def Let_def
      split: prod.split sum.split)+

lemma svc_fetch_eq:
  "svc_getSignedHeader = getSignedHeader" "svc_getValidators = getValidators" "svc_getBlock = getBlock"
  by (intro ext; simp add: svc_getSignedHeader_def getSignedHeader_def svc_getValidators_def getValidators_def
      svc_getBlock_def getBlock_def svc_ByNumber_eq)+

lemma svc_rotateList_eq: "svc_rotateList = rotateList"
  by (intro ext) (simp add: svc_rotateList_def rotateList_def last_conv_nth split: list.split)

lemmas service_copies = svc_ByNumber_eq svc_fetch_eq svc_rotateList_eq

section \<open>Trust that has run out\<close>

text \<open>
  A header whose trusting period is over is not a base for the next one: Tendermint's check starts with the
  age of the trusted header. \<open>time\<close> gives the time of a header.
\<close>

definition checks_age :: "('h, 'v, 'vs, 'b) tm_light \<Rightarrow> ('h \<Rightarrow> int) \<Rightarrow> bool" where
  "checks_age T time \<longleftrightarrow>
     (\<forall>h h' vs period now drift. time h + period \<le> now \<longrightarrow> tl_VerifyAdjacent T h h' vs period now drift \<noteq> None)"

lemma verify_next_age:
  assumes "verify_next L c addrs h w = Some (w', Inr (Inr (h', blk)))"
  shows "\<exists>vs v. tl_VerifyAdjacent (le_tm L) h h' vs trusting_period (le_Now L v) max_clock_drift = None"
  using assms
  by (auto simp: verify_next_def Let_def bind_res_def split: option.splits sum.splits if_splits prod.splits)

lemma expired_turn:
  assumes "checks_age (le_tm L) time" "\<forall>v. time h + trusting_period \<le> le_Now L v"
    and "light_turn L c accept (addrs, h, ctx) w = Some (w', Inr (addrs', h', ctx'))"
  shows "h' = h \<and> ctx' = ctx \<and> addrs' = rotate (length addrs - 1) addrs"
proof -
  have "verify_next L c addrs h w \<noteq> Some (v, Inr (Inr x))" for v x
    using verify_next_age [of L c addrs h w v "fst x" "snd x"] assms(1,2) unfolding checks_age_def
    by (cases x) force
  with assms(3) show ?thesis
    by (auto simp: light_turn_def split: option.splits sum.splits prod.splits dest: verify_next_rotates)
qed

text \<open>So trust that has run out when the loop starts stays where it is, whatever the nodes answer.\<close>

lemma expired_run:
  assumes "checks_age (le_tm L) time" "\<forall>v. time h + trusting_period \<le> le_Now L v"
    and "light_run L c accept n (addrs, h, ctx) w = Some (w', Inr (addrs', h', ctx'))"
  shows "h' = h \<and> ctx' = ctx \<and> addrs' = rotated n addrs"
  using assms(3)
proof (induction n arbitrary: w' addrs' h' ctx')
  case (Suc n)
  then obtain v a1 h1 c1 where r: "light_run L c accept n (addrs, h, ctx) w = Some (v, Inr (a1, h1, c1))"
    and t: "light_turn L c accept (a1, h1, c1) v = Some (w', Inr (addrs', h', ctx'))"
    by (auto split: option.splits sum.splits prod.splits)
  from Suc.IH [OF r] t expired_turn [OF assms(1,2), of c accept a1 ctx v w' addrs' h' ctx'] rotated_Suc [of addrs n]
  show ?case by simp
qed simp

end
