(* ===== verification/IndexerContext.thy ===== *)
theory IndexerContext
  imports LightClient KeyStore GoText
begin

text \<open>
  The indexer library: \<^verbatim>\<open>indexer/context.go\<close> (the script's context with its logs and recovery files),
  \<^verbatim>\<open>indexer/datafetcher.go\<close> (the loop) and \<^verbatim>\<open>indexer/run.go\<close> (the start).
\<close>

section \<open>Files and hashers\<close>

text \<open>
  An open file. Writing through a nil file, or through one opened for reading only, fails and changes
  nothing; so does truncating. (\<^verbatim>\<open>os.Open\<close> opens for reading, and so does \<^verbatim>\<open>os.OpenFile\<close> without an access
  flag.)
\<close>

record os_file =
  fl_name :: string
  fl_writable :: bool
  fl_pos :: nat

definition os_Open :: "fs \<Rightarrow> string \<Rightarrow> string + os_file" where
  "os_Open f name =
     (if f name = None then Inl (''open '' @ name @ '': no such file or directory'')
      else Inr \<lparr>fl_name = name, fl_writable = False, fl_pos = 0\<rparr>)"

definition file_Write :: "bytes \<Rightarrow> os_file option \<times> fs \<Rightarrow> os_file option \<times> fs" where
  "file_Write bz s =
     (case s of
        (None, f) \<Rightarrow> (None, f)
      | (Some h, f) \<Rightarrow>
          if \<not> fl_writable h then (Some h, f)
          else (let d = (case f (fl_name h) of Some d \<Rightarrow> d | None \<Rightarrow> []); p = fl_pos h in
            (Some (h\<lparr>fl_pos := p + length bz\<rparr>),
             f(fl_name h \<mapsto> take p d @ replicate (p - length d) 0 @ bz @ drop (p + length bz) d))))"

definition file_Truncate :: "os_file \<Rightarrow> int64 \<Rightarrow> fs \<Rightarrow> string + fs" where
  "file_Truncate h sz f =
     (if \<not> fl_writable h \<or> sint sz < 0 then Inl (''truncate '' @ fl_name h @ '': invalid argument'')
      else let d = (case f (fl_name h) of Some d \<Rightarrow> d | None \<Rightarrow> []); n = nat (sint sz) in
        Inr (f(fl_name h \<mapsto> take n d @ replicate (n - length d) 0)))"

definition file_Size :: "os_file option \<Rightarrow> fs \<Rightarrow> string + int64" where
  "file_Size h f =
     (case h of
        None \<Rightarrow> Inl ''invalid argument''
      | Some h \<Rightarrow> Inr (of_nat (length (case f (fl_name h) of Some d \<Rightarrow> d | None \<Rightarrow> []))))"

text \<open>A hasher holds what was written to it; a method call on a nil one panics.\<close>

type_synonym hasher = "bytes option"

definition hasher_Write :: "hasher \<Rightarrow> bytes \<Rightarrow> hasher res" where
  "hasher_Write h bz = (case h of None \<Rightarrow> Inl PNilDeref | Some b \<Rightarrow> Inr (Some (b @ bz)))"

definition hasher_Sum :: "(bytes \<Rightarrow> bytes) \<Rightarrow> hasher \<Rightarrow> bytes res" where
  "hasher_Sum sha256 h = (case h of None \<Rightarrow> Inl PNilDeref | Some b \<Rightarrow> Inr (sha256 b))"

text \<open>\<^verbatim>\<open>copy(dst[:], src)\<close>\<close>

definition copy_to :: "bytes \<Rightarrow> bytes \<Rightarrow> bytes" where
  "copy_to dst src = take (length dst) src @ drop (length src) dst"

section \<open>Data\<close>

record SimpleTx =
  tx_Sender :: string
  tx_Data :: bytes

record SimpleEvent =
  ev_Topics :: "string list"
  ev_Data :: "string list"

record BlockForContract =
  bc_Height :: int64
  bc_Timestamp :: int64
  bc_TxList :: "SimpleTx list"
  bc_EventList :: "SimpleEvent list"

text \<open>What the code reads of a Tendermint block: height, time in milliseconds, transactions.\<close>

record tm_block =
  blk_Height :: int64
  blk_UnixMilli :: int64
  blk_Txs :: "bytes list"

text \<open>\<^verbatim>\<open>go-ethereum\<close>: decoding and reading a transaction. A contract creation has no receiver.\<close>

record 'tx eth_api =
  eth_DecodeRLP :: "bytes \<Rightarrow> string + 'tx"
  eth_To :: "'tx \<Rightarrow> bytes option"
  eth_Sender :: "'tx \<Rightarrow> string + bytes"
  eth_Data :: "'tx \<Rightarrow> bytes"
  eth_Value :: "'tx \<Rightarrow> string"
  eth_AddrString :: "bytes \<Rightarrow> string"

record ('vm, 'h) Context =
  cx_VM :: 'vm
  cx_InputLog :: "os_file option"
  cx_OutputLog :: "os_file option"
  cx_InputLogHasher :: hasher
  cx_OutputLogHasher :: hasher
  cx_InputLogHash :: bytes
  cx_OutputLogHash :: bytes
  cx_InputLogSize :: int64
  cx_OutputLogSize :: int64
  cx_UserToNonce :: "bytes \<rightharpoonup> uint64"
  cx_TrustedHeader :: "'h option"

text \<open>The fields of a context that its JSON form holds.\<close>

record 'h saved =
  sv_ihash :: bytes
  sv_ohash :: bytes
  sv_isize :: int64
  sv_osize :: int64
  sv_nonces :: "bytes \<rightharpoonup> uint64"
  sv_header :: "'h option"

datatype js_arg = ArgBytes bytes | ArgString string

text \<open>
  The environment: the script engine (\<open>ix_call\<close> calls \<^verbatim>\<open>handleBlock\<close>, \<open>ix_Export\<close> exports its result as
  a string, which may panic), the JSON codec, the hash and signature functions.
\<close>

record ('vm, 'r, 'h, 'tx, 'q) idx_env =
  ix_eth :: "'tx eth_api"
  ix_handleBlock_ok :: "'vm \<Rightarrow> bool"
  ix_call :: "'vm \<Rightarrow> js_arg \<Rightarrow> 'vm \<times> 'r"
  ix_Export :: "'vm \<Rightarrow> 'r \<Rightarrow> string res"
  ix_json_block :: "BlockForContract \<Rightarrow> string + bytes"
  ix_json_Marshal :: "'h saved \<Rightarrow> string + bytes"
  ix_json_Unmarshal :: "bytes \<Rightarrow> 'h saved \<Rightarrow> string + 'h saved"
  ix_sha256 :: "bytes \<Rightarrow> bytes"
  ix_Sign :: "bytes \<Rightarrow> 'q \<Rightarrow> string + bytes"
  ix_VerifySignature :: "bytes \<Rightarrow> bytes \<Rightarrow> bytes \<Rightarrow> bool"

definition InputLogFileName :: string where "InputLogFileName = ''in.txt''"
definition OutputLogFileName :: string where "OutputLogFileName = ''out.txt''"

section \<open>Making a context\<close>

definition newContext :: "('vm, 'r, 'h, 'tx, 'q) idx_env \<Rightarrow> 'vm \<Rightarrow> ('vm, 'h) Context res" where
  "newContext V vm =
     (if \<not> ix_handleBlock_ok V vm then Inl (PExit ''cannot find the 'handleBlock' function'')
      else Inr \<lparr>cx_VM = vm, cx_InputLog = None, cx_OutputLog = None, cx_InputLogHasher = None,
         cx_OutputLogHasher = None, cx_InputLogHash = replicate 32 0, cx_OutputLogHash = replicate 32 0,
         cx_InputLogSize = 0, cx_OutputLogSize = 0, cx_UserToNonce = Map.empty, cx_TrustedHeader = None\<rparr>)"

definition NewContext :: "('vm, 'r, 'h, 'tx, 'q) idx_env \<Rightarrow> 'vm \<Rightarrow> fs \<Rightarrow> ('vm, 'h) Context res" where
  "NewContext V vm f =
     bind_res (newContext V vm) (\<lambda>c.
       case os_Open f InputLogFileName of
         Inl err \<Rightarrow> Inl (PExit (''cannot open '' @ InputLogFileName @ '': '' @ err))
       | Inr i \<Rightarrow>
          (let c = c\<lparr>cx_InputLog := Some i\<rparr> in
           case os_Open f OutputLogFileName of
             Inl err \<Rightarrow> Inl (PExit (''cannot open '' @ OutputLogFileName @ '': '' @ err))
           | Inr out \<Rightarrow> Inr (c\<lparr>cx_OutputLog := Some out\<rparr>)))"

section \<open>Recovery\<close>

definition truncateAndRunHasher ::
  "(bytes \<Rightarrow> bytes) \<Rightarrow> string \<Rightarrow> int64 \<Rightarrow> fs \<Rightarrow> ((bytes \<times> hasher) \<times> fs) res" where
  "truncateAndRunHasher sha256 fname sz f =
     (case os_Open f fname of
        Inl err \<Rightarrow> Inl (PError err)
      | Inr h \<Rightarrow>
          (case file_Truncate h sz f of
             Inl err \<Rightarrow> Inl (PError err)
           | Inr f \<Rightarrow>
               (let d = (case f fname of Some d \<Rightarrow> d | None \<Rightarrow> []) in
                Inr ((sha256 d, Some d), f))))"

text \<open>The loop over the lines of the input log: the engine, and what its hasher was given.\<close>

primrec replay_lines ::
  "('vm, 'r, 'h, 'tx, 'q) idx_env \<Rightarrow> bytes list \<Rightarrow> 'vm \<Rightarrow> bytes \<Rightarrow> 'vm \<times> bytes" where
  "replay_lines V [] vm hashed = (vm, hashed)"
| "replay_lines V (l # ls) vm hashed =
     (let line = TrimSpace (string_of_bytes l) in
      replay_lines V ls (fst (ix_call V vm (ArgString line))) (hashed @ bytes_of_string line))"

definition replayInput ::
  "('vm, 'r, 'h, 'tx, 'q) idx_env \<Rightarrow> fs \<Rightarrow> ('vm, 'h) Context \<Rightarrow> ('vm, 'h) Context res" where
  "replayInput V f c =
     (case os_Open f InputLogFileName of
        Inl err \<Rightarrow> Inl (PError err)
      | Inr h \<Rightarrow>
          (case replay_lines V (scan_lines (the (f InputLogFileName))) (cx_VM c) [] of (vm, hashed) \<Rightarrow>
           if ix_sha256 V hashed \<noteq> cx_InputLogHash c
           then Inl (PError (''Invalid Hash for '' @ InputLogFileName))
           else Inr (c\<lparr>cx_VM := vm\<rparr>)))"

definition load_saved :: "'h saved \<Rightarrow> ('vm, 'h) Context \<Rightarrow> ('vm, 'h) Context" where
  "load_saved s c = c\<lparr>cx_InputLogHash := sv_ihash s, cx_OutputLogHash := sv_ohash s,
     cx_InputLogSize := sv_isize s, cx_OutputLogSize := sv_osize s, cx_UserToNonce := sv_nonces s,
     cx_TrustedHeader := sv_header s\<rparr>"

definition saved_of :: "('vm, 'h) Context \<Rightarrow> 'h saved" where
  "saved_of c = \<lparr>sv_ihash = cx_InputLogHash c, sv_ohash = cx_OutputLogHash c,
     sv_isize = cx_InputLogSize c, sv_osize = cx_OutputLogSize c, sv_nonces = cx_UserToNonce c,
     sv_header = cx_TrustedHeader c\<rparr>"

text \<open>\<open>kg\<close> is the package variable \<^verbatim>\<open>KGClient\<close>, a pointer.\<close>

definition NewContextFromRecoverFile ::
  "('vm, 'r, 'h, 'tx, 'q) idx_env \<Rightarrow> ('k, 'q) SimpleClient option \<Rightarrow> string \<Rightarrow> 'vm \<Rightarrow> fs
     \<Rightarrow> (('vm, 'h) Context \<times> fs) res" where
  "NewContextFromRecoverFile V kg recoveryFileName vm f =
     bind_res (newContext V vm) (\<lambda>c.
       case f recoveryFileName of
         None \<Rightarrow> Inl (PExit (''cannot open '' @ recoveryFileName @ '': open '' @ recoveryFileName
                   @ '': no such file or directory''))
       | Some fileData \<Rightarrow>
           if length fileData \<le> 65 then Inl (PExit ''incorrect length for recovery file'')
           else
          (let sig = take 65 fileData; jsonData = drop 65 fileData; hash = ix_sha256 V jsonData in
           bind_res (deref kg) (\<lambda>client.
             if \<not> ix_VerifySignature V (sc_PubKeyBz client) hash (take 64 sig)
             then Inl (PExit ''verify recovery sig failed!'')
             else (case ix_json_Unmarshal V jsonData (saved_of c) of
                Inl err \<Rightarrow> Inl (PError err)
              | Inr s \<Rightarrow>
                  (let c = load_saved s c in
                   bind_res (truncateAndRunHasher (ix_sha256 V) InputLogFileName (cx_InputLogSize c) f)
                     (\<lambda>((inHash, ih), f).
                      let c = c\<lparr>cx_InputLogHasher := ih\<rparr> in
                      if inHash \<noteq> cx_InputLogHash c
                      then Inl (PError (''Invalid Hash for '' @ InputLogFileName))
                      else
                   bind_res (truncateAndRunHasher (ix_sha256 V) OutputLogFileName (cx_OutputLogSize c) f)
                     (\<lambda>((outHash, oh), f).
                      let c = c\<lparr>cx_OutputLogHasher := oh\<rparr> in
                      if outHash \<noteq> cx_OutputLogHash c
                      then Inl (PError (''Invalid Hash for '' @ OutputLogFileName))
                      else bind_res (replayInput V f c) (\<lambda>c. Inr (c, f)))))))))"

section \<open>Dumping\<close>

definition DumpRecoveryFile ::
  "('vm, 'r, 'h, 'tx, 'q) idx_env \<Rightarrow> ('k, 'q) SimpleClient option \<Rightarrow> string \<Rightarrow> 'h option
     \<Rightarrow> ('vm, 'h) Context \<times> fs \<Rightarrow> (('vm, 'h) Context \<times> fs) res" where
  "DumpRecoveryFile V kg recoveryFileName header cf =
     (case cf of (c, f) \<Rightarrow>
      let c = c\<lparr>cx_TrustedHeader := header\<rparr> in
      bind_res (hasher_Sum (ix_sha256 V) (cx_InputLogHasher c)) (\<lambda>isum.
      bind_res (hasher_Sum (ix_sha256 V) (cx_OutputLogHasher c)) (\<lambda>osum.
        let c = c\<lparr>cx_InputLogHash := copy_to (cx_InputLogHash c) isum,
                  cx_OutputLogHash := copy_to (cx_OutputLogHash c) osum\<rparr> in
        case file_Size (cx_InputLog c) f of
          Inl err \<Rightarrow> Inl (PError err)
        | Inr isize \<Rightarrow>
       (case file_Size (cx_OutputLog c) f of
          Inl err \<Rightarrow> Inl (PError err)
        | Inr osize \<Rightarrow>
           (let c = c\<lparr>cx_InputLogSize := isize, cx_OutputLogSize := osize\<rparr> in
            case ix_json_Marshal V (saved_of c) of
              Inl err \<Rightarrow> Inl (PError err)
            | Inr bz \<Rightarrow>
                bind_res (deref kg) (\<lambda>client. bind_res (deref (sc_PrivKey client)) (\<lambda>priv.
                  case ix_Sign V (ix_sha256 V bz) priv of
                    Inl err \<Rightarrow> Inl (PError err)
                  | Inr sig \<Rightarrow> Inr (c, f(recoveryFileName \<mapsto> sig @ bz)))))))))"

section \<open>Handling a block\<close>

primrec contract_txs :: "'tx eth_api \<Rightarrow> bytes \<Rightarrow> bytes list \<Rightarrow> SimpleTx list res" where
  "contract_txs E contract [] = Inr []"
| "contract_txs E contract (txRawData # txs) =
     (case eth_DecodeRLP E txRawData of
        Inl err \<Rightarrow> contract_txs E contract txs
      | Inr tx \<Rightarrow>
          (case eth_To E tx of
             None \<Rightarrow> Inl PNilDeref
           | Some to \<Rightarrow>
               if to = contract
               then (case eth_Sender E tx of
                  Inl err \<Rightarrow> contract_txs E contract txs
                | Inr sender \<Rightarrow> bind_res (contract_txs E contract txs) (\<lambda>l.
                    Inr (\<lparr>tx_Sender = eth_AddrString E sender, tx_Data = eth_Data E tx\<rparr> # l)))
               else contract_txs E contract txs))"

definition getBlockForContract :: "'tx eth_api \<Rightarrow> bytes \<Rightarrow> tm_block \<Rightarrow> BlockForContract res" where
  "getBlockForContract E contract blk =
     bind_res (contract_txs E contract (blk_Txs blk)) (\<lambda>txs.
       Inr \<lparr>bc_Height = blk_Height blk, bc_Timestamp = blk_UnixMilli blk, bc_TxList = txs, bc_EventList = []\<rparr>)"

definition HandleBlock ::
  "('vm, 'r, 'h, 'tx, 'q) idx_env \<Rightarrow> bytes \<Rightarrow> tm_block \<Rightarrow> ('vm, 'h) Context \<times> fs
     \<Rightarrow> (('vm, 'h) Context \<times> fs) res" where
  "HandleBlock V contract blk cf =
     (case cf of (c, f) \<Rightarrow>
      bind_res (getBlockForContract (ix_eth V) contract blk) (\<lambda>b.
      case ix_json_block V b of
        Inl err \<Rightarrow> Inl (PError err)
      | Inr line \<Rightarrow>
          bind_res (hasher_Write (cx_InputLogHasher c) line) (\<lambda>ih.
          bind_res (hasher_Write ih [10]) (\<lambda>ih.
          case file_Write [10] (file_Write line (cx_InputLog c, f)) of (il, f) \<Rightarrow>
          case ix_call V (cx_VM c) (ArgBytes line) of (vm, r) \<Rightarrow>
          bind_res (ix_Export V vm r) (\<lambda>outStr.
          bind_res (hasher_Write (cx_OutputLogHasher c) (bytes_of_string outStr)) (\<lambda>oh.
          bind_res (hasher_Write oh [10]) (\<lambda>oh.
          case file_Write [10] (file_Write (bytes_of_string outStr) (cx_OutputLog c, f)) of (ol, f) \<Rightarrow>
          Inr (c\<lparr>cx_VM := vm, cx_InputLog := il, cx_OutputLog := ol,
                 cx_InputLogHasher := ih, cx_OutputLogHasher := oh\<rparr>, f))))))))"

section \<open>The loop of the fetcher\<close>

definition RecoveryFileEveryNBlocks :: int where
  "RecoveryFileEveryNBlocks = 1000"

definition TendermintChainID :: string where
  "TendermintChainID = ''0x2710''"

text \<open>What \<^verbatim>\<open>start\<close> does with an accepted header and block.\<close>

definition df_accept ::
  "('vm, 'r, 'h, 'tx, 'q) idx_env \<Rightarrow> ('k, 'q) SimpleClient option \<Rightarrow> bytes \<Rightarrow> 'h option \<Rightarrow> tm_block
     \<Rightarrow> ('vm, 'h) Context \<times> fs \<Rightarrow> (('vm, 'h) Context \<times> fs) res" where
  "df_accept V kg contract h blk cf =
     bind_res (HandleBlock V contract blk cf) (\<lambda>cf.
       if sint (blk_Height blk) mod RecoveryFileEveryNBlocks = 0
       then DumpRecoveryFile V kg (pad_09d (sint (blk_Height blk)) @ ''.dump'') h cf
       else Inr cf)"

record ('vm, 'h) DataFetcher =
  df_tmServerAddrList :: "string list"
  df_latestTrustedHeader :: "'h option"
  df_contractAddress :: bytes
  df_ctx :: "('vm, 'h) Context"

text \<open>\<open>n\<close> turns of \<^verbatim>\<open>DataFetcher.start\<close>.\<close>

definition df_start ::
  "('w, 'h option, 'v, 'vs, tm_block) light_env \<Rightarrow> ('vm, 'r, 'h, 'tx, 'q) idx_env
     \<Rightarrow> ('k, 'q) SimpleClient option \<Rightarrow> nat \<Rightarrow> ('vm, 'h) DataFetcher \<Rightarrow> fs \<Rightarrow> 'w
     \<Rightarrow> ('w \<times> (('vm, 'h) DataFetcher \<times> fs) res) option" where
  "df_start L V kg n df f w =
     map_option (\<lambda>(w, r). (w, bind_res r (\<lambda>(addrs, h, ctx, f).
       Inr (df\<lparr>df_tmServerAddrList := addrs, df_latestTrustedHeader := h, df_ctx := ctx\<rparr>, f))))
     (light_run L TendermintChainID (df_accept V kg (df_contractAddress df)) n
       (df_tmServerAddrList df, df_latestTrustedHeader df, df_ctx df, f) w)"

end
