(* ===== verification/IndexerRun.thy ===== *)
theory IndexerRun
  imports IndexerContext
begin

text \<open>
  The start of the indexer library, \<^verbatim>\<open>indexer/run.go\<close>, and the properties of the library as a whole.
\<close>

section \<open>Start\<close>

record run_args =
  ra_script :: string
  ra_contract :: string
  ra_header :: string
  ra_keygrantor :: string
  ra_recover :: string
  ra_tmservers :: string

text \<open>
  \<open>rp_RunString\<close> makes an engine with the registered functions and runs the script in it; the address
  functions are \<^verbatim>\<open>go-ethereum\<close>'s; \<open>rp_privFrom\<close> and \<open>rp_pubBytes\<close> are the key functions of \<open>InitKeys\<close>.
\<close>

record ('vm, 'h, 'q) run_env =
  rp_RunString :: "bytes \<Rightarrow> string + 'vm"
  rp_IsHexAddress :: "string \<Rightarrow> bool"
  rp_HexToAddress :: "string \<Rightarrow> bytes"
  rp_UnmarshalHeader :: "bytes \<Rightarrow> string + 'h"
  rp_privFrom :: "bytes \<Rightarrow> 'q"
  rp_pubBytes :: "'q \<Rightarrow> bytes"

definition not_found :: "string \<Rightarrow> string" where
  "not_found name = ''open '' @ name @ '': no such file or directory''"

definition idx_start ::
  "('vm, 'r, 'h, 'tx, 'q) idx_env \<Rightarrow> ('k, 'p, 's) key_env \<Rightarrow> ('vm, 'h, 'q) run_env
     \<Rightarrow> ('k, 'q) SimpleClient option \<Rightarrow> run_args \<Rightarrow> fs \<Rightarrow> (('vm, 'h) DataFetcher \<times> fs) res option" where
  "idx_start V KV R kg args f =
     (case f (ra_script args) of
        None \<Rightarrow> Some (Inl (PExit (''unable to read script file: '' @ not_found (ra_script args))))
      | Some script \<Rightarrow>
     (case rp_RunString R script of
        Inl err \<Rightarrow> Some (Inl (PExit (''unable to execute script file: '' @ err)))
      | Inr vm \<Rightarrow>
     (if \<not> rp_IsHexAddress R (ra_contract args)
      then Some (Inl (PExit (''invalid address: '' @ ra_contract args)))
      else
     (let addr = rp_HexToAddress R (ra_contract args) in
      case f (ra_header args) of
        None \<Rightarrow> Some (Inl (PExit (''unable to read header file: '' @ not_found (ra_header args))))
      | Some header \<Rightarrow>
     (case rp_UnmarshalHeader R header of
        Inl err \<Rightarrow> Some (Inl (PExit (''unable to unmarshal header: '' @ err)))
      | Inr trustedHeader \<Rightarrow>
     (let configHash = ix_sha256 V (ix_sha256 V script @ (ix_sha256 V header @ addr));
          keys = (case f KeyFile of
            None \<Rightarrow> map_option (\<lambda>r. bind_res r (\<lambda>client.
                bind_res (SealKeyToFile (ks_seal KV) (ks_bip KV) KeyFile (sc_ExtPrivKey client) f) (\<lambda>f.
                  Inr (client, f))))
              (InitKeys KV (rp_privFrom R) (rp_pubBytes R) kg (ra_keygrantor args) configHash False f)
          | Some _ \<Rightarrow> map_option (\<lambda>r. bind_res r (\<lambda>client. Inr (client, f)))
              (InitKeys KV (rp_privFrom R) (rp_pubBytes R) kg KeyFile configHash True f)) in
      map_option (\<lambda>r. bind_res r (\<lambda>(client, f).
        if length (ra_recover args) = 0
        then bind_res (NewContext V vm f) (\<lambda>c.
          Inr (\<lparr>df_tmServerAddrList = split_on (CHR '','') (ra_tmservers args),
                df_latestTrustedHeader = Some trustedHeader, df_contractAddress = addr, df_ctx = c\<rparr>, f))
        else bind_res (NewContextFromRecoverFile V (Some client) (ra_recover args) vm f) (\<lambda>(c, f).
          Inr (\<lparr>df_tmServerAddrList = split_on (CHR '','') (ra_tmservers args),
                df_latestTrustedHeader = cx_TrustedHeader c, df_contractAddress = addr, df_ctx = c\<rparr>, f))))
      keys))))))"

section \<open>Lemmas\<close>

lemma InitKeys_nil: "InitKeys V privFrom pubBytes None src d load f \<noteq> Some (Inr z)"
  by (auto simp: InitKeys_def Let_def deref_def split: sum.splits if_splits)

lemma open_read_only: "os_Open f name = Inr h \<Longrightarrow> \<not> fl_writable h"
  by (auto simp: os_Open_def split: if_splits)

lemma truncate_fails: "truncateAndRunHasher H name n f \<noteq> Inr z"
  by (auto simp: truncateAndRunHasher_def file_Truncate_def dest: open_read_only split: sum.splits)

lemma recover_fails: "NewContextFromRecoverFile V kg name vm f \<noteq> Inr z"
  by (auto simp: NewContextFromRecoverFile_def Let_def truncate_fails split: option.splits if_splits sum.splits)

lemma NewContext_hashers:
  "NewContext V vm f = Inr c \<Longrightarrow> cx_InputLogHasher c = None \<and> cx_OutputLogHasher c = None"
  by (auto simp: NewContext_def newContext_def Let_def split: if_splits sum.splits)

lemma HandleBlock_needs_hasher:
  "cx_InputLogHasher c = None \<Longrightarrow> HandleBlock V contract blk (c, f) \<noteq> Inr z"
  by (auto simp: HandleBlock_def hasher_Write_def split: sum.splits)

lemma replay_lines_hashed:
  "snd (replay_lines V ls vm hashed) = hashed @ concat (map (\<lambda>l. bytes_of_string (TrimSpace (string_of_bytes l))) ls)"
  by (induction ls arbitrary: vm hashed) (auto simp: Let_def)

section \<open>Properties\<close>

text \<open>
  C3: the fetcher trusts only a chain. However many turns it makes and whatever the nodes answer, the
  header it trusts is reached from the one it started with by steps each of which passed
  \<^verbatim>\<open>ValidateBasic\<close> for the chain and \<^verbatim>\<open>VerifyAdjacent\<close> against its predecessor and raised the height by
  one; the script's context has been given exactly the blocks with the hashes of these headers, one
  for each, in the order of the heights; and the list of nodes has been rotated once for every other
  turn.
\<close>

theorem fetcher_trusts_a_chain:
  assumes "df_start L V kg n df f w = Some (w', Inr (df', f'))"
  shows "\<exists>xs. chain (le_tm L) TendermintChainID (df_latestTrustedHeader df) xs
    \<and> df_latestTrustedHeader df' = tip (df_latestTrustedHeader df) xs
    \<and> accept_all (df_accept V kg (df_contractAddress df)) xs (df_ctx df, f) = Inr (df_ctx df', f')
    \<and> length xs \<le> n \<and> df_tmServerAddrList df' = rotated (n - length xs) (df_tmServerAddrList df)
    \<and> df_contractAddress df' = df_contractAddress df
    \<and> (\<forall>m i. tl_Height (le_tm L) (df_latestTrustedHeader df) = Some m \<and> i < length xs \<longrightarrow>
          tl_Height (le_tm L) (fst (xs ! i)) = Some (m + of_nat i + 1))"
proof -
  let ?acc = "df_accept V kg (df_contractAddress df)"
  from assms obtain addrs h c where df': "df' = df\<lparr>df_tmServerAddrList := addrs, df_latestTrustedHeader := h, df_ctx := c\<rparr>"
    and run: "light_run L TendermintChainID ?acc n
      (df_tmServerAddrList df, df_latestTrustedHeader df, df_ctx df, f) w = Some (w', Inr (addrs, h, c, f'))"
    by (auto simp: df_start_def)
  from light_run_chain [OF run] obtain xs where xs:
    "chain (le_tm L) TendermintChainID (df_latestTrustedHeader df) xs" "h = tip (df_latestTrustedHeader df) xs"
    "accept_all ?acc xs (df_ctx df, f) = Inr (c, f')" "length xs \<le> n"
    "addrs = rotated (n - length xs) (df_tmServerAddrList df)" by blast
  with df' chain_heights [OF xs(1)] show ?thesis by (intro exI [of _ xs]) simp
qed

text \<open>A small environment for the witnesses: one node, one block, a script that echoes.\<close>

definition mini_light :: "(unit, int64 option, unit, unit, tm_block) light_env" where
  "mini_light = \<lparr>
     le_net = \<lparr>nt_Get = (\<lambda>w url. (w, Inr ((200, ''200 OK''), Inr url))), nt_Sleep = (\<lambda>n w. w)\<rparr>,
     le_rpc = \<lparr>rpc_Envelope = Inr, rpc_Commit = (\<lambda>s. Inr (Some 1)), rpc_Validators = (\<lambda>s. Inr [()]),
       rpc_Block = (\<lambda>s. Inr (Some \<lparr>blk_Height = 1, blk_UnixMilli = 5, blk_Txs = []\<rparr>))\<rparr>,
     le_tm = \<lparr>tl_Height = id, tl_ValidatorSet = (\<lambda>v. Inr ()), tl_ValidateBasic = (\<lambda>c h v. None),
       tl_VerifyAdjacent = (\<lambda>h h' v p n d. None), tl_LightHash = (\<lambda>h. [1]),
       tl_BlockHash = (\<lambda>b. if b = None then [] else [1]), tl_BlockHeight = blk_Height\<rparr>,
     le_Now = (\<lambda>w. 0)\<rparr>"

definition mini_idx :: "(unit, string, int64, unit, unit) idx_env" where
  "mini_idx = \<lparr>ix_eth = \<lparr>eth_DecodeRLP = (\<lambda>b. Inl ''bad''), eth_To = (\<lambda>t. None), eth_Sender = (\<lambda>t. Inl ''bad''),
       eth_Data = (\<lambda>t. []), eth_Value = (\<lambda>t. ''0''), eth_AddrString = (\<lambda>a. '''')\<rparr>,
     ix_handleBlock_ok = (\<lambda>vm. True), ix_call = (\<lambda>vm a. (vm, ''ok'')), ix_Export = (\<lambda>vm r. Inr r),
     ix_json_block = (\<lambda>b. Inr (bytes_of_string ''{}'')), ix_json_Marshal = (\<lambda>s. Inr []),
     ix_json_Unmarshal = (\<lambda>b s. Inr s), ix_sha256 = (\<lambda>b. replicate 32 0),
     ix_Sign = (\<lambda>h q. Inr (replicate 65 0)), ix_VerifySignature = (\<lambda>p h s. True)\<rparr>"

definition mini_ctx :: "bytes \<Rightarrow> bytes \<Rightarrow> (unit, int64) Context" where
  "mini_ctx i out = \<lparr>cx_VM = (), cx_InputLog = None, cx_OutputLog = None, cx_InputLogHasher = Some i,
     cx_OutputLogHasher = Some out, cx_InputLogHash = replicate 32 0, cx_OutputLogHash = replicate 32 0,
     cx_InputLogSize = 0, cx_OutputLogSize = 0, cx_UserToNonce = Map.empty, cx_TrustedHeader = None\<rparr>"

lemma mini_honest: "honest mini_light c ''http://a:8545'' (Some 0)"
  unfolding honest_def
  by (intro conjI exI [of _ 0] exI [of _ "Some 1"] exI [of _ "[()]"] exI [of _ "()"]
      exI [of _ "\<lparr>blk_Height = 1, blk_UnixMilli = 5, blk_Txs = []\<rparr>"])
    (simp_all add: mini_light_def getSignedHeaderByNumber_def getValidatorsByNumber_def getBlockByNumber_def
      get_result_def)

lemma mini_responsive: "responsive mini_light c addrs"
  by (simp add: responsive_def mini_light_def getSignedHeaderByNumber_def getValidatorsByNumber_def
      getBlockByNumber_def get_result_def)

lemma mini_accept:
  "df_accept mini_idx None a h \<lparr>blk_Height = 1, blk_UnixMilli = 5, blk_Txs = []\<rparr> (mini_ctx [] [], Map.empty)
    = Inr (mini_ctx (bytes_of_string ''{}'' @ [10]) (bytes_of_string ''ok'' @ [10]), Map.empty)"
  by (simp add: df_accept_def HandleBlock_def getBlockForContract_def mini_idx_def mini_ctx_def hasher_Write_def
      file_Write_def RecoveryFileEveryNBlocks_def)

lemma mini_verify:
  "verify_next mini_light c [''http://a:8545''] (Some 0) w
    = Some (w, Inr (Inr (Some 1, Some \<lparr>blk_Height = 1, blk_UnixMilli = 5, blk_Txs = []\<rparr>)))"
proof -
  let ?a = "''http://a:8545''" and ?L = mini_light
  let ?b = "\<lparr>blk_Height = 1, blk_UnixMilli = 5, blk_Txs = []\<rparr>"
  have "getSignedHeader (le_net ?L) (le_rpc ?L) [?a] n w = Some (w, Inr (Some 1))"
    "getValidators (le_net ?L) (le_rpc ?L) [?a] n w = Some (w, Inr [()])"
    "getBlock (le_net ?L) (le_rpc ?L) [?a] n w = Some (w, Inr (Some ?b))" for n w
    unfolding getSignedHeader_def getValidators_def getBlock_def
    by (rule fetch_loop_now; simp add: getSignedHeaderByNumber_def getValidatorsByNumber_def
        getBlockByNumber_def get_result_def mini_light_def)+
  then show ?thesis by (simp add: verify_next_def) (simp add: mini_light_def)
qed

theorem fetcher_trusts_a_chain_witness:
  "\<exists>xs. length xs = 1 \<and> chain (le_tm mini_light) TendermintChainID (Some 0) xs
    \<and> accept_all (df_accept mini_idx (None :: (unit, unit) SimpleClient option) []) xs (mini_ctx [] [], Map.empty)
        = Inr (mini_ctx (bytes_of_string ''{}'' @ [10]) (bytes_of_string ''ok'' @ [10]), Map.empty)"
proof -
  let ?df = "\<lambda>h c. \<lparr>df_tmServerAddrList = [''http://a:8545''], df_latestTrustedHeader = Some h,
      df_contractAddress = [], df_ctx = c\<rparr> :: (unit, int64) DataFetcher"
  let ?c = "mini_ctx (bytes_of_string ''{}'' @ [10]) (bytes_of_string ''ok'' @ [10])"
  let ?kg = "None :: (unit, unit) SimpleClient option"
  have "df_start mini_light mini_idx ?kg 1 (?df 0 (mini_ctx [] [])) Map.empty ()
      = Some ((), Inr (?df 1 ?c, Map.empty))"
    by (simp add: df_start_def light_turn_def mini_verify mini_accept)
  from fetcher_trusts_a_chain [OF this] obtain xs where xs: "chain (le_tm mini_light) TendermintChainID (Some 0) xs"
    "Some 1 = tip (Some 0) xs" "length xs \<le> 1"
    "accept_all (df_accept mini_idx ?kg []) xs (mini_ctx [] [], Map.empty) = Inr (?c, Map.empty)" by auto
  then have "xs \<noteq> []" by (auto simp: tip_def)
  with xs(3) have "length xs = 1" by (cases xs) auto
  with xs show ?thesis by blast
qed



text \<open>
  C38: as written the indexer never handles a block. The start never returns a fetcher, because the
  package variable \<^verbatim>\<open>KGClient\<close> is nil and \<^verbatim>\<open>InitKeys\<close> assigns through it; making a context from a recovery
  file always ends in an error, because the log files are truncated through files opened for
  reading; and a fresh context has no hashers, so its first block panics.
\<close>

theorem indexer_never_handles_a_block:
  "idx_start V KV R None args f \<noteq> Some (Inr z)
    \<and> NewContextFromRecoverFile V kg name vm f \<noteq> Inr z'
    \<and> (NewContext V vm f = Inr c \<longrightarrow> HandleBlock V contract blk (c, f') \<noteq> Inr z'')"
proof (intro conjI impI)
  show "idx_start V KV R None args f \<noteq> Some (Inr z)"
    using InitKeys_nil [of KV "rp_privFrom R" "rp_pubBytes R"]
    by (auto simp: idx_start_def Let_def split: option.splits sum.splits if_splits)
  show "NewContextFromRecoverFile V kg name vm f \<noteq> Inr z'" by (rule recover_fails)
  assume "NewContext V vm f = Inr c"
  from NewContext_hashers [OF this] show "HandleBlock V contract blk (c, f') \<noteq> Inr z''"
    by (intro HandleBlock_needs_hasher) simp
qed

theorem indexer_never_handles_a_block_witness:
  "\<exists>c. NewContext mini_idx () [''in.txt'' \<mapsto> [], ''out.txt'' \<mapsto> []] = Inr c
    \<and> (\<forall>z. HandleBlock mini_idx [] \<lparr>blk_Height = 1, blk_UnixMilli = 5, blk_Txs = []\<rparr> (c, Map.empty) \<noteq> Inr z)"
proof -
  let ?f = "[''in.txt'' \<mapsto> [], ''out.txt'' \<mapsto> []] :: fs"
  obtain c where c: "NewContext mini_idx () ?f = Inr c"
    by (simp add: NewContext_def newContext_def os_Open_def InputLogFileName_def OutputLogFileName_def
        mini_idx_def Let_def)
  with indexer_never_handles_a_block [where V = mini_idx and vm = "()" and f = ?f and c = c and contract = "[]"
      and blk = "\<lparr>blk_Height = 1, blk_UnixMilli = 5, blk_Txs = []\<rparr>" and f' = Map.empty]
  show ?thesis by blast
qed

text \<open>
  the replay does not accept the log that \<^verbatim>\<open>HandleBlock\<close> writes. Take any log of JSON lines and the
  hash of what was written: the lines with their ends. The replay hashes the lines without their
  ends, so it succeeds only if the log is empty or its two hashes collide.
\<close>

theorem replay_rejects_own_log:
  assumes "\<forall>l \<in> set lines. clean_line (bytes_of_string l) \<and> hd l = CHR ''{'' \<and> last l = CHR ''}''"
    and "f InputLogFileName = Some (concat (map (\<lambda>l. bytes_of_string l @ [10]) lines))"
    and "cx_InputLogHash c = ix_sha256 V (concat (map (\<lambda>l. bytes_of_string l @ [10]) lines))"
    and "[] \<notin> set lines" and "replayInput V f c = Inr c'"
  shows "lines = [] \<or> (\<exists>a b. a \<noteq> b \<and> ix_sha256 V a = ix_sha256 V b)"
proof -
  let ?log = "concat (map (\<lambda>l. bytes_of_string l @ [10]) lines)"
  have trim: "TrimSpace l = l" if "l \<in> set lines" for l
  proof -
    have "l = CHR ''{'' # tl l" using assms(1,4) that by (cases l) auto
    then show ?thesis by (rule TrimSpace_braces) (use assms(1) that in auto)
  qed
  have "scan_lines ?log = map bytes_of_string lines"
    using scan_lines_join [of "map bytes_of_string lines"] assms(1) by (simp add: comp_def)
  then have "snd (replay_lines V (scan_lines ?log) (cx_VM c) []) = concat (map bytes_of_string lines)"
    using trim by (simp add: replay_lines_hashed comp_def cong: map_cong)
  moreover have "ix_sha256 V (snd (replay_lines V (scan_lines ?log) (cx_VM c) [])) = cx_InputLogHash c"
    using assms(2,5) by (auto simp: replayInput_def os_Open_def split: if_splits prod.splits)
  ultimately have eq: "ix_sha256 V (concat (map bytes_of_string lines)) = ix_sha256 V ?log"
    using assms(3) by simp
  have "length ?log = length (concat (map bytes_of_string lines)) + length lines"
    by (induction lines) auto
  then have "lines \<noteq> [] \<Longrightarrow> concat (map bytes_of_string lines) \<noteq> ?log" by fastforce
  with eq show ?thesis by blast
qed

theorem replay_rejects_own_log_witness:
  "\<forall>c'. replayInput (mini_idx\<lparr>ix_sha256 := id\<rparr>) [InputLogFileName \<mapsto> bytes_of_string ''{}'' @ [10]]
      ((mini_ctx [] [])\<lparr>cx_InputLogHash := bytes_of_string ''{}'' @ [10]\<rparr>) \<noteq> Inr c'"
proof (intro allI notI)
  fix c'
  assume r: "replayInput (mini_idx\<lparr>ix_sha256 := id\<rparr>) [InputLogFileName \<mapsto> bytes_of_string ''{}'' @ [10]]
      ((mini_ctx [] [])\<lparr>cx_InputLogHash := bytes_of_string ''{}'' @ [10]\<rparr>) = Inr c'"
  have "clean_line (bytes_of_string ''{}'')" by (simp add: clean_line_def bytes_of_string_def)
  with replay_rejects_own_log [OF _ _ _ _ r, of "[''{}'']"] show False by simp
qed

end
