(* ===== verification/IndexerService.thy ===== *)
theory IndexerService
  imports IndexerContext
begin

text \<open>
  The indexer service: \<^verbatim>\<open>egvm-indexer/db.go\<close> (what it keeps in the badger database),
  \<^verbatim>\<open>egvm-indexer/indexer.go\<close> (the loop and the jobs), \<^verbatim>\<open>egvm-indexer/job.go\<close> (one job) and the handler of
  \<^verbatim>\<open>egvm-indexer/main.go\<close>.
\<close>

section \<open>The database\<close>

datatype db_err = ErrKeyNotFound | DbError string

text \<open>One \<^verbatim>\<open>Set\<close> in an \<^verbatim>\<open>Update\<close> transaction and one \<^verbatim>\<open>Get\<close> in a \<^verbatim>\<open>View\<close> transaction of badger.\<close>

record 'd badger_api =
  bd_Set :: "'d \<Rightarrow> string \<Rightarrow> bytes \<Rightarrow> string + 'd"
  bd_Get :: "'d \<Rightarrow> string \<Rightarrow> db_err + bytes"

locale badger =
  fixes D :: "'d badger_api"
  assumes Get_Set: "bd_Set D d k v = Inr d' \<Longrightarrow> bd_Get D d' k' = (if k' = k then Inr v else bd_Get D d k')"

record TxData =
  td_From :: string
  td_Value :: string
  td_Input :: bytes

text \<open>
  The JSON codecs; a nil slice is \<open>None\<close>. The errors of \<^verbatim>\<open>json.Marshal\<close> are dropped in the source, so
  \<open>sj_...\<close> yields the bytes it leaves.
\<close>

record 'h svc_json =
  sj_txs :: "bytes list option \<Rightarrow> bytes"
  sj_txs_Unmarshal :: "bytes \<Rightarrow> string + bytes list option"
  sj_datas :: "TxData list option \<Rightarrow> bytes"
  sj_datas_Unmarshal :: "bytes \<Rightarrow> string + TxData list option"
  sj_header :: "'h option \<Rightarrow> bytes"
  sj_header_Unmarshal :: "bytes \<Rightarrow> string + 'h"

definition latestTrustedHeaderKey :: string where
  "latestTrustedHeaderKey = ''egvm-header''"

definition buildTxsKey :: "int64 \<Rightarrow> string" where
  "buildTxsKey height = ''egvm-txs-'' @ itoa (sint height)"

definition buildTxDatasKey :: "string \<Rightarrow> int64 \<Rightarrow> string" where
  "buildTxDatasKey address height = ''egvm-data-'' @ address @ ''-'' @ itoa (sint height)"

definition db_store :: "'d badger_api \<Rightarrow> string \<Rightarrow> bytes \<Rightarrow> 'd \<Rightarrow> 'd res" where
  "db_store D k bz d = (case bd_Set D d k bz of Inl err \<Rightarrow> Inl (PError err) | Inr d \<Rightarrow> Inr d)"

definition storeTxDatasByAddressAndHeight ::
  "'d badger_api \<Rightarrow> 'h svc_json \<Rightarrow> string \<Rightarrow> int64 \<Rightarrow> TxData list option \<Rightarrow> 'd \<Rightarrow> 'd res" where
  "storeTxDatasByAddressAndHeight D J address height datas d =
     db_store D (buildTxDatasKey address height) (sj_datas J datas) d"

definition storeTxsByHeight ::
  "'d badger_api \<Rightarrow> 'h svc_json \<Rightarrow> int64 \<Rightarrow> bytes list option \<Rightarrow> 'd \<Rightarrow> 'd res" where
  "storeTxsByHeight D J height txs d = db_store D (buildTxsKey height) (sj_txs J txs) d"

definition storeLatestTrustedHeader ::
  "'d badger_api \<Rightarrow> 'h svc_json \<Rightarrow> 'h option \<Rightarrow> 'd \<Rightarrow> 'd res" where
  "storeLatestTrustedHeader D J h d = db_store D latestTrustedHeaderKey (sj_header J h) d"

text \<open>
  The shared shape of the readers: the error of the transaction is \<^verbatim>\<open>ErrKeyNotFound\<close>, or it is given to
  \<^verbatim>\<open>panic\<close>, also when it is nil.
\<close>

definition db_view :: "'d badger_api \<Rightarrow> string \<Rightarrow> (bytes \<Rightarrow> string + 'a) \<Rightarrow> 'd \<Rightarrow> db_err + 'a" where
  "db_view D k decode d =
     (case bd_Get D d k of
        Inl err \<Rightarrow> Inl err
      | Inr val \<Rightarrow> (case decode val of Inl err \<Rightarrow> Inl (DbError err) | Inr x \<Rightarrow> Inr x))"

definition getTxDatasByAddressAndHeight ::
  "'d badger_api \<Rightarrow> 'h svc_json \<Rightarrow> string \<Rightarrow> int64 \<Rightarrow> 'd \<Rightarrow> TxData list option res" where
  "getTxDatasByAddressAndHeight D J address height d =
     (case db_view D (buildTxDatasKey address height) (sj_datas_Unmarshal J) d of
        Inl ErrKeyNotFound \<Rightarrow> Inr None
      | Inl (DbError err) \<Rightarrow> Inl (PError err)
      | Inr datas \<Rightarrow> Inl PNilValue)"

definition GetTxsByHeight ::
  "'d badger_api \<Rightarrow> 'h svc_json \<Rightarrow> int64 \<Rightarrow> 'd \<Rightarrow> bytes list option res" where
  "GetTxsByHeight D J height d =
     (case db_view D (buildTxsKey height) (sj_txs_Unmarshal J) d of
        Inl ErrKeyNotFound \<Rightarrow> Inr None
      | Inl (DbError err) \<Rightarrow> Inl (PError err)
      | Inr txs \<Rightarrow> Inl PNilValue)"

definition recoveryLatestTrustedHeader ::
  "'d badger_api \<Rightarrow> 'h svc_json \<Rightarrow> 'd \<Rightarrow> db_err + 'h" where
  "recoveryLatestTrustedHeader D J d = db_view D latestTrustedHeaderKey (sj_header_Unmarshal J) d"

text \<open>\<open>initial\<close> is the genesis header of \<^verbatim>\<open>genesis.go\<close>, as text.\<close>

definition initLatestTrustedHeader ::
  "'d badger_api \<Rightarrow> 'h svc_json \<Rightarrow> bytes \<Rightarrow> 'd \<Rightarrow> 'h option res" where
  "initLatestTrustedHeader D J initial d =
     (case recoveryLatestTrustedHeader D J d of
        Inl ErrKeyNotFound \<Rightarrow>
          (case sj_header_Unmarshal J initial of Inl err \<Rightarrow> Inl (PError err) | Inr h \<Rightarrow> Inr (Some h))
      | Inl (DbError err) \<Rightarrow> Inl (PError err)
      | Inr h \<Rightarrow> Inl PNilValue)"

section \<open>The loop\<close>

text \<open>A block as the service reads it: its transactions, perhaps nil.\<close>

record svc_block = sb_Txs :: "bytes list option"

definition svc_accept ::
  "('h option, 'v, 'vs, svc_block) tm_light \<Rightarrow> 'd badger_api \<Rightarrow> 'h svc_json \<Rightarrow> 'h option \<Rightarrow> svc_block
     \<Rightarrow> 'd \<Rightarrow> 'd res" where
  "svc_accept T D J h blk d =
     (case tl_Height T h of
        None \<Rightarrow> Inl PNilDeref
      | Some height \<Rightarrow>
          bind_res (storeTxsByHeight D J height (sb_Txs blk) d) (\<lambda>d. storeLatestTrustedHeader D J h d))"

record Job =
  jb_address :: string
  jb_beginHeight :: int64

record ('h, 'd) Indexer =
  in_chainId :: string
  in_smartBCHAddrList :: "string list"
  in_latestTrustedHeader :: "'h option"
  in_db :: 'd
  in_jobList :: "(string \<times> Job) list option"

text \<open>
  \<^verbatim>\<open>main\<close> up to the start of the loop: \<open>addrs\<close> is the flag \<^verbatim>\<open>-b\<close> and \<open>db\<close> the outcome of opening the database.
  The map of the jobs is not made.
\<close>

definition svc_main ::
  "'d badger_api \<Rightarrow> 'h svc_json \<Rightarrow> bytes \<Rightarrow> string \<Rightarrow> string + 'd \<Rightarrow> ('h, 'd) Indexer res" where
  "svc_main D J initial addrs db =
     (let smartBCHAddrList = split_on (CHR '','') addrs in
      if length smartBCHAddrList \<le> 1 then Inl (PExit ''smartbch addresses should at least has two'')
      else case db of
        Inl err \<Rightarrow> Inl (PExit err)
      | Inr d \<Rightarrow>
          bind_res (initLatestTrustedHeader D J initial d) (\<lambda>h.
            Inr \<lparr>in_chainId = ''0x2710'', in_smartBCHAddrList = smartBCHAddrList, in_latestTrustedHeader = h,
                 in_db = d, in_jobList = None\<rparr>))"

text \<open>\<open>n\<close> turns of \<^verbatim>\<open>Indexer.start\<close>.\<close>

definition svc_start ::
  "('w, 'h option, 'v, 'vs, svc_block) light_env \<Rightarrow> 'd badger_api \<Rightarrow> 'h svc_json \<Rightarrow> nat
     \<Rightarrow> ('h, 'd) Indexer \<Rightarrow> 'w \<Rightarrow> ('w \<times> ('h, 'd) Indexer res) option" where
  "svc_start L D J n i w =
     map_option (\<lambda>(w, r). (w, bind_res r (\<lambda>(addrs, h, d).
       Inr (i\<lparr>in_smartBCHAddrList := addrs, in_latestTrustedHeader := h, in_db := d\<rparr>))))
     (light_run L (in_chainId i) (svc_accept (le_tm L) D J) n
       (in_smartBCHAddrList i, in_latestTrustedHeader i, in_db i) w)"

section \<open>A job\<close>

text \<open>The transactions to the address of the job; \<open>None\<close> is the nil slice. A nil receiver panics.\<close>

primrec job_txs :: "'tx eth_api \<Rightarrow> string \<Rightarrow> bytes list \<Rightarrow> TxData list option \<Rightarrow> TxData list option res" where
  "job_txs E address [] datas = Inr datas"
| "job_txs E address (txRawData # txs) datas =
     (case eth_DecodeRLP E txRawData of
        Inl err \<Rightarrow> job_txs E address txs datas
      | Inr tx \<Rightarrow>
          (case eth_To E tx of
             None \<Rightarrow> Inl PNilDeref
           | Some to \<Rightarrow>
               if eth_AddrString E to = address
               then (case eth_Sender E tx of
                  Inl err \<Rightarrow> job_txs E address txs datas
                | Inr from \<Rightarrow> job_txs E address txs (Some ((case datas of None \<Rightarrow> [] | Some l \<Rightarrow> l)
                    @ [\<lparr>td_From = eth_AddrString E from, td_Value = eth_Value E tx, td_Input = eth_Data E tx\<rparr>])))
               else job_txs E address txs datas))"

datatype 'd job_outcome = JWait | JNext 'd

text \<open>One turn of \<^verbatim>\<open>Job.Start\<close> at height \<open>h\<close> on the database \<open>d\<close>.\<close>

definition job_turn ::
  "'d badger_api \<Rightarrow> 'h svc_json \<Rightarrow> 'tx eth_api \<Rightarrow> string \<Rightarrow> int64 \<Rightarrow> 'd \<Rightarrow> 'd job_outcome res" where
  "job_turn D J E address h d =
     bind_res (GetTxsByHeight D J h d) (\<lambda>txs. case txs of
        None \<Rightarrow> Inr JWait
      | Some txs \<Rightarrow> bind_res (job_txs E address txs None) (\<lambda>datas.
          if datas \<noteq> None
          then bind_res (storeTxDatasByAddressAndHeight D J address h datas d) (\<lambda>d. Inr (JNext d))
          else Inr (JNext d)))"

text \<open>
  \<^verbatim>\<open>Job.Start\<close>, which has no way to return: it ends with a panic or not at all. Other goroutines write to
  the database meanwhile: \<open>dbs n\<close> is the database at the job's turn \<open>n\<close>.
\<close>

partial_function (option) job_Start ::
  "'d badger_api \<Rightarrow> 'h svc_json \<Rightarrow> 'tx eth_api \<Rightarrow> (nat \<Rightarrow> 'd) \<Rightarrow> string \<Rightarrow> nat \<Rightarrow> int64 \<Rightarrow> go_panic option" where
  "job_Start D J E dbs address n h =
     (case job_turn D J E address h (dbs n) of
        Inl p \<Rightarrow> Some p
      | Inr JWait \<Rightarrow> job_Start D J E dbs address (n + 1) h
      | Inr (JNext d) \<Rightarrow> job_Start D J E dbs address (n + 1) (h + 1))"

definition jobExistErr :: string where "jobExistErr = ''job already exist''"
definition tooManyJobsErr :: string where "tooManyJobsErr = ''job nums touch upper limit''"
definition maxJobNums :: nat where "maxJobNums = 1000"

text \<open>
  \<^verbatim>\<open>AddJob\<close>: the job is made without its address, entered, and run in the same goroutine. The map of the
  jobs is nil (\<open>None\<close>) or its entries: a nil map reads as empty, and writing to it panics. The result is the
  error \<open>Some e\<close> and the jobs after the call.
\<close>

definition AddJob ::
  "'d badger_api \<Rightarrow> 'h svc_json \<Rightarrow> 'tx eth_api \<Rightarrow> (nat \<Rightarrow> 'd) \<Rightarrow> string \<Rightarrow> int64 \<Rightarrow> (string \<times> Job) list option
     \<Rightarrow> string option res option \<times> (string \<times> Job) list option" where
  "AddJob D J E dbs address height jobs =
     (let entries = (case jobs of None \<Rightarrow> [] | Some l \<Rightarrow> l) in
      if map_of entries address \<noteq> None then (Some (Inr (Some jobExistErr)), jobs)
      else if length entries > maxJobNums then (Some (Inr (Some tooManyJobsErr)), jobs)
      else let j = \<lparr>jb_address = '''', jb_beginHeight = height\<rparr> in
        (case jobs of
           None \<Rightarrow> (Some (Inl PNilMap), None)
         | Some l \<Rightarrow> (map_option Inl (job_Start D J E dbs (jb_address j) 0 (jb_beginHeight j)), Some ((address, j) # l))))"

section \<open>The handler\<close>

record contract_request =
  cr_addresses :: "string list"
  cr_heights :: "string list"

text \<open>The handler of \<^verbatim>\<open>/contract\<close>; \<open>None\<close>: it never answers.\<close>

definition handle_contract ::
  "'d badger_api \<Rightarrow> 'h svc_json \<Rightarrow> 'tx eth_api \<Rightarrow> (nat \<Rightarrow> 'd) \<Rightarrow> contract_request \<Rightarrow> (string \<times> Job) list option
     \<Rightarrow> http_response option \<times> (string \<times> Job) list option" where
  "handle_contract D J E dbs r jobs =
     (if length (cr_addresses r) = 0 then (Some (Response StatusBadRequest ''address param missed''), jobs)
      else let address = cr_addresses r ! 0; bz = hex_DecodeString address in
        if bz = None \<or> length (the bz) \<noteq> 20
        then (Some (Response StatusBadRequest
          ''invalid address param, it format should be hex string without 0x''), jobs)
        else if length (cr_heights r) = 0
        then (Some (Response StatusBadRequest ''height param missed''), jobs)
        else (case Atoi (cr_heights r ! 0) of
           None \<Rightarrow> (Some (Response StatusBadRequest ''invalid height param format''), jobs)
         | Some h \<Rightarrow>
             (case AddJob D J E dbs address (of_int h) jobs of
                (None, jobs) \<Rightarrow> (None, jobs)
              | (Some (Inl p), jobs) \<Rightarrow> (Some (Dropped p), jobs)
              | (Some (Inr (Some err)), jobs) \<Rightarrow> (Some (Response StatusBadRequest err), jobs)
              | (Some (Inr None), jobs) \<Rightarrow> (Some (Response StatusOK ''''), jobs))))"

section \<open>Lemmas\<close>

lemma txs_key_inject [simp]: "buildTxsKey a = buildTxsKey b \<longleftrightarrow> a = b"
  by (simp add: buildTxsKey_def itoa_sint_inject)

lemma keys_differ [simp]:
  "buildTxsKey a \<noteq> latestTrustedHeaderKey" "buildTxDatasKey s h \<noteq> latestTrustedHeaderKey"
  "buildTxsKey a \<noteq> buildTxDatasKey s h"
  by (simp_all add: buildTxsKey_def buildTxDatasKey_def latestTrustedHeaderKey_def)

lemma GetTxsByHeight_never: "GetTxsByHeight D J h d \<noteq> Inr (Some txs)"
  by (auto simp: GetTxsByHeight_def split: sum.splits db_err.splits)

lemma GetTxsByHeight_None:
  "GetTxsByHeight D J h d = Inr None \<longleftrightarrow> bd_Get D d (buildTxsKey h) = Inl ErrKeyNotFound"
  by (auto simp: GetTxsByHeight_def db_view_def split: sum.splits db_err.splits)

lemma job_turn_cases:
  "job_turn D J E a h d = (case GetTxsByHeight D J h d of Inl p \<Rightarrow> Inl p | Inr _ \<Rightarrow> Inr JWait)"
  using GetTxsByHeight_never [of D J h d] by (auto simp: job_turn_def split: sum.split option.split)

lemma job_Start_waits:
  "(\<And>k. k < m \<Longrightarrow> bd_Get D (dbs (n + k)) (buildTxsKey h) = Inl ErrKeyNotFound) \<Longrightarrow>
    job_Start D J E dbs a n h = job_Start D J E dbs a (n + m) h"
proof (induction m)
  case (Suc m)
  then have "job_Start D J E dbs a n h = job_Start D J E dbs a (n + m) h" by simp
  also have "\<dots> = job_Start D J E dbs a (n + m + 1) h"
    using Suc.prems [of m] by (subst job_Start.simps) (simp add: job_turn_cases GetTxsByHeight_None [THEN iffD2])
  finally show ?case by simp
qed simp

lemma job_Start_panics:
  assumes "GetTxsByHeight D J h (dbs n) = Inl p"
  shows "job_Start D J E dbs a n h = Some p"
  using assms by (subst job_Start.simps) (simp add: job_turn_cases)

context badger
begin

lemma store_get:
  assumes "db_store D k v d = Inr d'"
  shows "bd_Get D d' k' = (if k' = k then Inr v else bd_Get D d k')"
  using assms Get_Set by (auto simp: db_store_def split: sum.splits)

lemma accepted_stored:
  assumes "accept_all (svc_accept T D J) xs d = Inr d'" "length xs \<le> 2 ^ 64"
    and "\<And>i. i < length xs \<Longrightarrow> tl_Height T (fst (xs ! i)) = Some (m + of_nat i)"
  shows "(\<forall>i < length xs. bd_Get D d' (buildTxsKey (m + of_nat i)) = Inr (sj_txs J (sb_Txs (snd (xs ! i)))))
    \<and> (xs \<noteq> [] \<longrightarrow> bd_Get D d' latestTrustedHeaderKey = Inr (sj_header J (fst (last xs))))"
  using assms
proof (induction xs arbitrary: d' rule: rev_induct)
  case (snoc x xs)
  let ?h = "m + of_nat (length xs)"
  obtain d1 where d1: "accept_all (svc_accept T D J) xs d = Inr d1"
    and x: "svc_accept T D J (fst x) (snd x) d1 = Inr d'"
    using snoc.prems(1) by (cases x) auto
  have IH: "\<forall>i < length xs. bd_Get D d1 (buildTxsKey (m + of_nat i)) = Inr (sj_txs J (sb_Txs (snd (xs ! i))))"
  proof -
    have "tl_Height T (fst (xs ! i)) = Some (m + of_nat i)" if "i < length xs" for i
      using snoc.prems(3) [of i] that by (simp add: nth_append)
    from snoc.IH [OF d1 _ this] snoc.prems(2) show ?thesis by simp
  qed
  have "tl_Height T (fst x) = Some ?h" using snoc.prems(3) [of "length xs"] by simp
  with x obtain d2 where d2: "db_store D (buildTxsKey ?h) (sj_txs J (sb_Txs (snd x))) d1 = Inr d2"
    and d': "db_store D latestTrustedHeaderKey (sj_header J (fst x)) d2 = Inr d'"
    by (auto simp: svc_accept_def storeTxsByHeight_def storeLatestTrustedHeader_def)
  have ne: "(of_nat i :: int64) \<noteq> of_nat (length xs)" if "i < length xs" for i
  proof -
    have "unat (of_nat i :: int64) = i" "unat (of_nat (length xs) :: int64) = length xs"
      using that snoc.prems(2) by (simp_all add: unat_of_nat)
    with that show ?thesis by (auto dest: arg_cong [of _ _ unat])
  qed
  have g: "bd_Get D d' (buildTxsKey a) = (if a = ?h then Inr (sj_txs J (sb_Txs (snd x))) else bd_Get D d1 (buildTxsKey a))" for a
    using store_get [OF d'] store_get [OF d2] by simp
  have "bd_Get D d' latestTrustedHeaderKey = Inr (sj_header J (fst x))"
    using store_get [OF d'] by simp
  moreover have "bd_Get D d' (buildTxsKey (m + of_nat i)) = Inr (sj_txs J (sb_Txs (snd ((xs @ [x]) ! i))))"
    if "i < length (xs @ [x])" for i
    using that IH ne [of i] g by (cases "i = length xs") (simp_all add: nth_append)
  ultimately show ?case by simp
qed simp

lemma accepted_header:
  assumes "accept_all (svc_accept T D J) xs d = Inr d'" "xs \<noteq> []"
  shows "bd_Get D d' latestTrustedHeaderKey = Inr (sj_header J (fst (last xs)))"
  using assms
proof (induction xs arbitrary: d' rule: rev_induct)
  case (snoc x xs)
  then obtain d1 where "svc_accept T D J (fst x) (snd x) d1 = Inr d'" by (cases x) auto
  then obtain d2 where "db_store D latestTrustedHeaderKey (sj_header J (fst x)) d2 = Inr d'"
    by (auto simp: svc_accept_def storeLatestTrustedHeader_def split: option.splits)
  from store_get [OF this] show ?case by simp
qed simp

lemma start_finds_header:
  assumes "bd_Get D d latestTrustedHeaderKey = Inr v"
  shows "\<exists>p. svc_main D J initial addrs (Inr d) = Inl p"
  using assms by (auto simp: svc_main_def initLatestTrustedHeader_def recoveryLatestTrustedHeader_def db_view_def
      Let_def split: sum.splits)

lemma stored_never_read:
  assumes "storeTxsByHeight D J h txs d = Inr d'"
  shows "\<exists>p. GetTxsByHeight D J h d' = Inl p"
  using assms store_get [of "buildTxsKey h" "sj_txs J txs" d d' "buildTxsKey h"]
  by (auto simp: storeTxsByHeight_def GetTxsByHeight_def db_view_def split: sum.splits)

lemma header_never_recovered:
  assumes "storeLatestTrustedHeader D J h d = Inr d'"
  shows "\<exists>p. initLatestTrustedHeader D J initial d' = Inl p"
  using assms store_get [of latestTrustedHeaderKey "sj_header J h" d d' latestTrustedHeaderKey]
  by (auto simp: storeLatestTrustedHeader_def initLatestTrustedHeader_def recoveryLatestTrustedHeader_def
      db_view_def split: sum.splits)

end

section \<open>A database in memory\<close>

definition mem_badger :: "(string \<rightharpoonup> bytes) badger_api" where
  "mem_badger = \<lparr>bd_Set = (\<lambda>d k v. Inr (d(k \<mapsto> v))),
     bd_Get = (\<lambda>d k. case d k of None \<Rightarrow> Inl ErrKeyNotFound | Some v \<Rightarrow> Inr v)\<rparr>"

interpretation mem: badger mem_badger
  by unfold_locales (auto simp: mem_badger_def)

section \<open>Properties\<close>

text \<open>
  C26: the service stores every block it verifies. After any number of turns of its loop the database
  holds, under the key of each height above the first trusted one, the transactions of the verified
  block of that height, in a chain of trust of the length of the chain advanced, and under the header
  key the header it trusts now.
\<close>

theorem service_stores_the_chain:
  assumes "badger D" "svc_start L D J n i w = Some (w', Inr i')"
    and "tl_Height (le_tm L) (in_latestTrustedHeader i) = Some m" "n \<le> 2 ^ 64"
  shows "\<exists>xs. chain (le_tm L) (in_chainId i) (in_latestTrustedHeader i) xs
    \<and> in_latestTrustedHeader i' = tip (in_latestTrustedHeader i) xs \<and> in_jobList i' = in_jobList i
    \<and> (\<forall>k < length xs. bd_Get D (in_db i') (buildTxsKey (m + 1 + of_nat k))
          = Inr (sj_txs J (sb_Txs (snd (xs ! k)))))
    \<and> (xs \<noteq> [] \<longrightarrow> bd_Get D (in_db i') latestTrustedHeaderKey = Inr (sj_header J (in_latestTrustedHeader i')))"
proof -
  from assms(2) obtain addrs h d where i': "i' = i\<lparr>in_smartBCHAddrList := addrs, in_latestTrustedHeader := h, in_db := d\<rparr>"
    and run: "light_run L (in_chainId i) (svc_accept (le_tm L) D J) n
      (in_smartBCHAddrList i, in_latestTrustedHeader i, in_db i) w = Some (w', Inr (addrs, h, d))"
    by (auto simp: svc_start_def)
  from light_run_chain [OF run] obtain xs where xs: "chain (le_tm L) (in_chainId i) (in_latestTrustedHeader i) xs"
    "h = tip (in_latestTrustedHeader i) xs" "accept_all (svc_accept (le_tm L) D J) xs (in_db i) = Inr d"
    "length xs \<le> n" by blast
  have "tl_Height (le_tm L) (fst (xs ! k)) = Some (m + 1 + of_nat k)" if "k < length xs" for k
    using chain_heights [OF xs(1) assms(3)] that by (simp add: ac_simps)
  from badger.accepted_stored [OF assms(1) xs(3) _ this] xs assms(4) i' show ?thesis
    by (intro exI [of _ xs]) (simp add: tip_def)
qed


text \<open>A service in memory that has verified one block.\<close>

definition mini_svc_light :: "(unit, int64 option, unit, unit, svc_block) light_env" where
  "mini_svc_light = \<lparr>
     le_net = \<lparr>nt_Get = (\<lambda>w url. (w, Inr ((200, ''200 OK''), Inr url))), nt_Sleep = (\<lambda>n w. w)\<rparr>,
     le_rpc = \<lparr>rpc_Envelope = Inr, rpc_Commit = (\<lambda>s. Inr (Some 8)), rpc_Validators = (\<lambda>s. Inr [()]),
       rpc_Block = (\<lambda>s. Inr (Some \<lparr>sb_Txs = Some [[1, 2]]\<rparr>))\<rparr>,
     le_tm = \<lparr>tl_Height = id, tl_ValidatorSet = (\<lambda>v. Inr ()), tl_ValidateBasic = (\<lambda>c h v. None),
       tl_VerifyAdjacent = (\<lambda>h h' v p n d. None), tl_LightHash = (\<lambda>h. [1]),
       tl_BlockHash = (\<lambda>b. if b = None then [] else [1]), tl_BlockHeight = (\<lambda>b. 0)\<rparr>,
     le_Now = (\<lambda>w. 0)\<rparr>"

definition mini_svc_json :: "int64 svc_json" where
  "mini_svc_json = \<lparr>sj_txs = (\<lambda>t. case t of None \<Rightarrow> [] | Some l \<Rightarrow> concat l), sj_txs_Unmarshal = (\<lambda>b. Inr (Some [b])),
     sj_datas = (\<lambda>d. []), sj_datas_Unmarshal = (\<lambda>b. Inr None), sj_header = (\<lambda>h. [9]),
     sj_header_Unmarshal = (\<lambda>b. Inr 0)\<rparr>"

definition mini_svc :: "int64 \<Rightarrow> (string \<rightharpoonup> bytes) \<Rightarrow> (int64, string \<rightharpoonup> bytes) Indexer" where
  "mini_svc h d = \<lparr>in_chainId = ''0x2710'', in_smartBCHAddrList = [''http://a:8545''],
     in_latestTrustedHeader = Some h, in_db = d, in_jobList = None\<rparr>"

lemma mini_svc_turn:
  "svc_start mini_svc_light mem_badger mini_svc_json 1 (mini_svc 7 Map.empty) ()
    = Some ((), Inr (mini_svc 8 [''egvm-txs-8'' \<mapsto> [1, 2], ''egvm-header'' \<mapsto> [9]]))"
proof -
  let ?a = "''http://a:8545''" and ?L = mini_svc_light
  have "getSignedHeader (le_net ?L) (le_rpc ?L) [?a] n w = Some (w, Inr (Some 8))"
    "getValidators (le_net ?L) (le_rpc ?L) [?a] n w = Some (w, Inr [()])"
    "getBlock (le_net ?L) (le_rpc ?L) [?a] n w = Some (w, Inr (Some \<lparr>sb_Txs = Some [[1, 2]]\<rparr>))" for n w
    unfolding getSignedHeader_def getValidators_def getBlock_def
    by (rule fetch_loop_now; simp add: getSignedHeaderByNumber_def getValidatorsByNumber_def
        getBlockByNumber_def get_result_def mini_svc_light_def)+
  then have v: "verify_next ?L ''0x2710'' [?a] (Some 7) ()
      = Some ((), Inr (Inr (Some 8, Some \<lparr>sb_Txs = Some [[1, 2]]\<rparr>)))"
    by (simp add: verify_next_def) (simp add: mini_svc_light_def)
  have k: "buildTxsKey 8 = ''egvm-txs-8''"
    by (simp add: buildTxsKey_def itoa_def decimal.simps hex_digit_def)
  have "svc_accept (le_tm ?L) mem_badger mini_svc_json (Some 8) \<lparr>sb_Txs = Some [[1, 2]]\<rparr> Map.empty
      = Inr [''egvm-txs-8'' \<mapsto> [1, 2], ''egvm-header'' \<mapsto> [9]]"
    by (simp add: svc_accept_def storeTxsByHeight_def storeLatestTrustedHeader_def db_store_def k
        latestTrustedHeaderKey_def mem_badger_def mini_svc_json_def mini_svc_light_def)
  with v show ?thesis by (simp add: svc_start_def mini_svc_def light_turn_def)
qed

theorem service_stores_the_chain_witness:
  "\<exists>xs. chain (le_tm mini_svc_light) ''0x2710'' (Some 7) xs \<and> tip (Some 7) xs = Some 8"
  using service_stores_the_chain [OF mem.badger_axioms mini_svc_turn, of 7]
  by (auto simp: mini_svc_def) (auto simp: mini_svc_light_def)


text \<open>
  C37: the service as it starts. A start that succeeds has two addresses or more, the chain \<^verbatim>\<open>0x2710\<close> and a
  trusted header, and no map of jobs: every well-formed request for a job is then dropped by a panic, and the
  jobs stay as they are. Once its loop has advanced the trusted header, every later start on its database
  panics, whatever the genesis header and the addresses.
\<close>

theorem service_starts_once:
  assumes "badger D" "svc_main D J initial addrs (Inr d) = Inr i"
  shows "2 \<le> length (in_smartBCHAddrList i) \<and> in_chainId i = ''0x2710'' \<and> in_latestTrustedHeader i \<noteq> None
    \<and> snd (handle_contract D J E dbs r (in_jobList i)) = in_jobList i
    \<and> (cr_addresses r = a # as \<and> hex_DecodeString a = Some bz \<and> length bz = 20 \<and> cr_heights r = h # hs \<and> Atoi h = Some n
        \<longrightarrow> fst (handle_contract D J E dbs r (in_jobList i)) = Some (Dropped PNilMap))
    \<and> (svc_start L D J turns i w = Some (w', Inr i') \<and> in_latestTrustedHeader i' \<noteq> in_latestTrustedHeader i
        \<longrightarrow> (\<exists>p. svc_main D J initial' addrs' (Inr (in_db i')) = Inl p))"
proof -
  have i: "2 \<le> length (in_smartBCHAddrList i)" "in_chainId i = ''0x2710''" "in_latestTrustedHeader i \<noteq> None"
    "in_jobList i = None"
    using assms(2) by (auto simp: svc_main_def initLatestTrustedHeader_def Let_def split: if_splits sum.splits db_err.splits)
  have "snd (handle_contract D J E dbs r None) = None"
    by (auto simp: handle_contract_def AddJob_def Let_def split: option.split)
  moreover have "fst (handle_contract D J E dbs r None) = Some (Dropped PNilMap)"
    if "cr_addresses r = a # as \<and> hex_DecodeString a = Some bz \<and> length bz = 20 \<and> cr_heights r = h # hs \<and> Atoi h = Some n"
    using that by (simp add: handle_contract_def AddJob_def)
  moreover have "\<exists>p. svc_main D J initial' addrs' (Inr (in_db i')) = Inl p"
    if "svc_start L D J turns i w = Some (w', Inr i')" "in_latestTrustedHeader i' \<noteq> in_latestTrustedHeader i"
  proof -
    from that(1) obtain addrs h d where i': "i' = i\<lparr>in_smartBCHAddrList := addrs, in_latestTrustedHeader := h, in_db := d\<rparr>"
      and run: "light_run L (in_chainId i) (svc_accept (le_tm L) D J) turns
        (in_smartBCHAddrList i, in_latestTrustedHeader i, in_db i) w = Some (w', Inr (addrs, h, d))"
      by (auto simp: svc_start_def)
    from light_run_chain [OF run] obtain xs where xs: "h = tip (in_latestTrustedHeader i) xs"
      "accept_all (svc_accept (le_tm L) D J) xs (in_db i) = Inr d" by blast
    with that(2) i' have "xs \<noteq> []" by (auto simp: tip_def)
    from badger.start_finds_header [OF assms(1) badger.accepted_header [OF assms(1) xs(2) this]] i'
    show ?thesis by simp
  qed
  ultimately show ?thesis using i by simp
qed

definition mini_eth :: "unit eth_api" where
  "mini_eth = \<lparr>eth_DecodeRLP = (\<lambda>b. Inr ()), eth_To = (\<lambda>t. None), eth_Sender = (\<lambda>t. Inr []), eth_Data = (\<lambda>t. []),
     eth_Value = (\<lambda>t. ''0''), eth_AddrString = string_of_bytes\<rparr>"

theorem service_starts_once_witness:
  "\<exists>i. svc_main mem_badger mini_svc_json [] ''http://a:8545,http://b:8545'' (Inr Map.empty) = Inr i
    \<and> in_smartBCHAddrList i = [''http://a:8545'', ''http://b:8545'']
    \<and> fst (handle_contract mem_badger mini_svc_json mini_eth (\<lambda>_. Map.empty)
        \<lparr>cr_addresses = [hex_EncodeToString (replicate 20 0)], cr_heights = [''7'']\<rparr> (in_jobList i)) = Some (Dropped PNilMap)"
proof -
  obtain i where i: "svc_main mem_badger mini_svc_json [] ''http://a:8545,http://b:8545'' (Inr Map.empty) = Inr i"
    "in_smartBCHAddrList i = [''http://a:8545'', ''http://b:8545'']"
    by (simp add: svc_main_def initLatestTrustedHeader_def recoveryLatestTrustedHeader_def db_view_def
        mem_badger_def mini_svc_json_def)
  have "Atoi ''7'' = Some 7" by code_simp
  with service_starts_once [OF mem.badger_axioms i(1), where E = mini_eth and dbs = "\<lambda>_. Map.empty" and
      r = "\<lparr>cr_addresses = [hex_EncodeToString (replicate 20 0)], cr_heights = [''7'']\<rparr>" and
      a = "hex_EncodeToString (replicate 20 0)" and as = "[]" and bz = "replicate 20 0" and h = "''7''" and hs = "[]" and n = 7 and
      L = mini_svc_light and turns = 0 and w = "()" and w' = "()" and i' = i and initial' = "[]" and addrs' = "''''"] i
  show ?thesis by auto
qed

end
