(* ===== verification/Genesis.thy ===== *)
theory Genesis
  imports IndexerService ServiceRpc
begin

text \<open>
  The trusted header the service starts from, \<^verbatim>\<open>egvm-indexer/genesis.go\<close>, and what its age means for a service
  that starts today.
\<close>

section \<open>genesis.go\<close>

primrec unlines :: "string list \<Rightarrow> string" where
  "unlines [] = ''''"
| "unlines (l # ls) = (if ls = [] then l else l @ CHR 0x0A # unlines ls)"

text \<open>The fields up to the time, and the others.\<close>

definition genesis_top :: "string list" where
  "genesis_top =
     [''{'',
      ''      \"header\": {'',
      ''        \"version\": {'',
      ''          \"block\": \"11\"'',
      ''        },'',
      ''        \"chain_id\": \"0x2710\",'',
      ''        \"height\": \"14028518\",'',
      ''        \"time\": \"2024-02-28T09:02:23.475693096Z\",'']"

definition genesis_rest :: "string list" where
  "genesis_rest =
     [''        \"last_block_id\": {'',
      ''          \"hash\": \"54D3F907F0AE0F2C2376A723EE11883429059B25B57D743C50D0D1A5C63B2D69\",'',
      ''          \"parts\": {'',
      ''            \"total\": 1,'',
      ''            \"hash\": \"60C6BB70A5DA4104AA02B84CEF8FF6F6B08528699691F440D87C6226F5D8F34C\"'',
      ''          }'',
      ''        },'',
      ''        \"last_commit_hash\": \"4F04A7F3C3326811114412B1E3C0D0DD588D88C512AEFF974B2D215984C3D434\",'',
      ''        \"data_hash\": \"E3B0C44298FC1C149AFBF4C8996FB92427AE41E4649B934CA495991B7852B855\",'',
      ''        \"validators_hash\": \"287F01AC202D20C8A88EE89CFA51D303DA11BEFA7FB69C147EDA69D98B112114\",'',
      ''        \"next_validators_hash\": \"287F01AC202D20C8A88EE89CFA51D303DA11BEFA7FB69C147EDA69D98B112114\",'',
      ''        \"consensus_hash\": \"DB82A3E5EC7A0994F3B78B258907CFF68320368782642AA9255985A28C938678\",'',
      ''        \"app_hash\": \"F90EBA285576CB736954E6416D8CBC15EEA2C3BDA4F74AB39F38DBF0D807B6B1\",'',
      ''        \"last_results_hash\": \"E3B0C44298FC1C149AFBF4C8996FB92427AE41E4649B934CA495991B7852B855\",'',
      ''        \"evidence_hash\": \"E3B0C44298FC1C149AFBF4C8996FB92427AE41E4649B934CA495991B7852B855\",'',
      ''        \"proposer_address\": \"A928A5794D9852389FF572B1941A672274C6C44A\"'',
      ''      },'',
      ''      \"commit\": {'',
      ''        \"height\": \"14028518\",'',
      ''        \"round\": 0,'',
      ''        \"block_id\": {'',
      ''          \"hash\": \"F02172AAEAA3A42979B7BAC229A89F4994DF7A42D4B221CB18E8E5C874BFFFE1\",'',
      ''          \"parts\": {'',
      ''            \"total\": 1,'',
      ''            \"hash\": \"1E16BE24C6E5414D87334A46BE97B3ED1DE4A1AE448324B05416177555AF06EC\"'',
      ''          }'',
      ''        },'',
      ''        \"signatures\": ['',
      ''          {'',
      ''            \"block_id_flag\": 2,'',
      ''            \"validator_address\": \"2FEB93041FC652B1326A2F07BAEC5CAA8D2353A9\",'',
      ''            \"timestamp\": \"2024-02-28T09:02:29.127538552Z\",'',
      ''            \"signature\": \"EgAB9GaOBWa2FIGTLDhFF8i1jWumRxCVxp66+BXeA9voZWys+B2Qhi3Vu70KxmJIQXqzD6Z2RDEk/k+s+s0SCA==\"'',
      ''          },'',
      ''          {'',
      ''            \"block_id_flag\": 2,'',
      ''            \"validator_address\": \"32E716DAA7C8C2A8AF5759BDB2DF28DF74BBF627\",'',
      ''            \"timestamp\": \"2024-02-28T09:02:29.135788679Z\",'',
      ''            \"signature\": \"RyBvk00eKnDOTiRvsArBSYbjJpPOjHMX7DBGD6ND1jU2RgFqnbIPOEZYD2NKb8x+McbQHFDIzOrxMfpvlHkIAA==\"'',
      ''          },'',
      ''          {'',
      ''            \"block_id_flag\": 2,'',
      ''            \"validator_address\": \"930C23CE7536B0EDE6AFE7754134D4011217D6AA\",'',
      ''            \"timestamp\": \"2024-02-28T09:02:29.153485525Z\",'',
      ''            \"signature\": \"Mvcd0JT/LPvF9MRhovLaUmQfoj2r6Op7yLmwc6igYldjTV/LLka109kuQyiLk0vq2FQ9k/EiiF2ZL3XLrOz+Cw==\"'',
      ''          },'',
      ''          {'',
      ''            \"block_id_flag\": 2,'',
      ''            \"validator_address\": \"A928A5794D9852389FF572B1941A672274C6C44A\",'',
      ''            \"timestamp\": \"2024-02-28T09:02:29.029890566Z\",'',
      ''            \"signature\": \"OYwr7lmXeTsjUApV+HdvZDwcY3tn6awk/1k7az84ZICIHIxTwSsriDkYWQf/GXhkagRufZXgRnboQZbO9gZwDQ==\"'',
      ''          },'',
      ''          {'',
      ''            \"block_id_flag\": 2,'',
      ''            \"validator_address\": \"F22A003226B2221B00906C7435C2EB582223C5C2\",'',
      ''            \"timestamp\": \"2024-02-28T09:02:29.125203847Z\",'',
      ''            \"signature\": \"C43doTwTm74CaOdKdtXmoM0KRjbMkg3Z+HBG5ZbiVZb3esFOgRR0Mz/rB1QKKe/Cc170iNzJA+snF3jM1bwwAw==\"'',
      ''          },'',
      ''          {'',
      ''            \"block_id_flag\": 2,'',
      ''            \"validator_address\": \"FAC3A668D5BED3DDBD854B647E3113946BE3306A\",'',
      ''            \"timestamp\": \"2024-02-28T09:02:29.173507445Z\",'',
      ''            \"signature\": \"7bpyV5IuS541HGfRuEFKziBNCZi+/VpTqULLycJcTzu9CMmaNbRSzpiKXYSz+ZQwZNPG0mBpqPDYs4LbklcGDg==\"'',
      ''          },'',
      ''          {'',
      ''            \"block_id_flag\": 2,'',
      ''            \"validator_address\": \"FD46D618D0CD459F791F44D9C6E54302658AD142\",'',
      ''            \"timestamp\": \"2024-02-28T09:02:29.175545726Z\",'',
      ''            \"signature\": \"WzrC1ldng/Y2+pwX8mC+Iad1+G0l0F9VfNxGVZmLPUgdDs6PntRNUBdhZG+CNYSs634q5hjgBzwabtm4exYaCw==\"'',
      ''          }'',
      ''        ]'',
      ''      }'',
      ''    }'']"

definition InitialHeaderStr :: string where
  "InitialHeaderStr = unlines (genesis_top @ genesis_rest)"

section \<open>What the text says\<close>

text \<open>The text value of the first member of a name, and times in the notation of RFC 3339, in universal time.\<close>

fun text_after :: "string \<Rightarrow> string \<Rightarrow> string option" where
  "text_after sub [] = (if sub = [] then Some [] else None)"
| "text_after sub (c # s) =
     (if take (length sub) (c # s) = sub then Some (drop (length sub) (c # s)) else text_after sub s)"

definition member_text :: "string \<Rightarrow> string \<Rightarrow> string option" where
  "member_text key s = map_option (takeWhile (\<lambda>c. c \<noteq> CHR 0x22))
     (text_after (CHR 0x22 # key @ [CHR 0x22, CHR '':'', CHR '' '', CHR 0x22]) s)"

text \<open>The days from the first of January 1970 to a date; years begin in March.\<close>

definition days_since_1970 :: "nat \<Rightarrow> nat \<Rightarrow> nat \<Rightarrow> int" where
  "days_since_1970 y m d =
     (let y' = (if m \<le> 2 then y - 1 else y); m' = (m + 9) mod 12 in
      int (365 * y' + y' div 4 - y' div 100 + y' div 400 + (153 * m' + 2) div 5 + (d - 1)) - 719468)"

definition rfc3339_ns :: "string \<Rightarrow> int option" where
  "rfc3339_ns s =
     (let part = (\<lambda>i n. digits_value 0 (take n (drop i s))); fraction = takeWhile (\<lambda>c. c \<noteq> CHR ''Z'') (drop 20 s) in
      case (part 0 4, part 5 2, part 8 2, part 11 2, part 14 2, part 17 2, digits_value 0 fraction) of
        (Some y, Some m, Some d, Some hour, Some minute, Some sec, Some f) \<Rightarrow>
          Some ((((days_since_1970 y m d * 24 + int hour) * 60 + int minute) * 60 + int sec) * 10 ^ 9
            + int (f * 10 ^ (9 - length fraction)))
      | _ \<Rightarrow> None)"

lemma days_since_1970_epoch: "days_since_1970 1970 1 1 = 0" "days_since_1970 2000 3 1 = 11017"
  by (simp_all add: days_since_1970_def)

text \<open>A member found in the first lines is that member of the whole text.\<close>

lemma unlines_append: "xs \<noteq> [] \<Longrightarrow> ys \<noteq> [] \<Longrightarrow> unlines (xs @ ys) = unlines xs @ CHR 0x0A # unlines ys"
  by (induction xs) auto

lemma text_after_length: "text_after sub s = Some t \<Longrightarrow> length sub \<le> length s"
proof (induction s)
  case (Cons c s)
  show ?case
  proof (cases "take (length sub) (c # s) = sub")
    case True
    then have "length (take (length sub) (c # s)) = length sub" by (rule arg_cong)
    then show ?thesis by (simp only: length_take)
  qed (use Cons in simp)
qed (auto split: if_splits)

lemma text_after_append: "text_after sub s = Some t \<Longrightarrow> text_after sub (s @ r) = Some (t @ r)"
proof (induction s)
  case Nil
  then show ?case by (cases r) (auto split: if_splits)
next
  case (Cons c s)
  from text_after_length [OF Cons.prems] have "length sub \<le> Suc (length s)" by simp
  then have "take (length sub) (c # s @ r) = take (length sub) (c # s)"
    "drop (length sub) (c # s @ r) = drop (length sub) (c # s) @ r"
    by (simp_all flip: append_Cons)
  with Cons show ?case by (auto split: if_splits)
qed

lemma member_text_append:
  assumes "text_after (CHR 0x22 # key @ [CHR 0x22, CHR '':'', CHR '' '', CHR 0x22]) s = Some t" "CHR 0x22 \<in> set t"
  shows "member_text key (s @ r) = Some (takeWhile (\<lambda>c. c \<noteq> CHR 0x22) t)"
  using text_after_append [OF assms(1), of r] assms(2) by (simp add: member_text_def takeWhile_append1)

lemma genesis_head: "InitialHeaderStr = unlines genesis_top @ CHR 0x0A # unlines genesis_rest"
  unfolding InitialHeaderStr_def by (rule unlines_append) (unfold genesis_top_def genesis_rest_def, (rule list.distinct(2))+)

lemma genesis_members:
  "member_text ''chain_id'' InitialHeaderStr = Some ''0x2710''"
  "member_text ''height'' InitialHeaderStr = Some ''14028518''"
  "member_text ''time'' InitialHeaderStr = Some ''2024-02-28T09:02:23.475693096Z''"
proof -
  let ?after = "\<lambda>key. text_after (CHR 0x22 # key @ [CHR 0x22, CHR '':'', CHR '' '', CHR 0x22]) (unlines genesis_top)"
  have top: "?after ''chain_id'' \<noteq> None \<and> CHR 0x22 \<in> set (the (?after ''chain_id''))
      \<and> takeWhile (\<lambda>c. c \<noteq> CHR 0x22) (the (?after ''chain_id'')) = ''0x2710''"
    "?after ''height'' \<noteq> None \<and> CHR 0x22 \<in> set (the (?after ''height''))
      \<and> takeWhile (\<lambda>c. c \<noteq> CHR 0x22) (the (?after ''height'')) = ''14028518''"
    "?after ''time'' \<noteq> None \<and> CHR 0x22 \<in> set (the (?after ''time''))
      \<and> takeWhile (\<lambda>c. c \<noteq> CHR 0x22) (the (?after ''time'')) = ''2024-02-28T09:02:23.475693096Z''"
    by code_simp+
  have "member_text key InitialHeaderStr = Some v"
    if "?after key \<noteq> None \<and> CHR 0x22 \<in> set (the (?after key)) \<and> takeWhile (\<lambda>c. c \<noteq> CHR 0x22) (the (?after key)) = v" for key v
    using that member_text_append [of key "unlines genesis_top" _ "CHR 0x0A # unlines genesis_rest"]
    unfolding genesis_head by auto
  with top show "member_text ''chain_id'' InitialHeaderStr = Some ''0x2710''"
    "member_text ''height'' InitialHeaderStr = Some ''14028518''"
    "member_text ''time'' InitialHeaderStr = Some ''2024-02-28T09:02:23.475693096Z''"
    by blast+
qed

lemma genesis_time: "rfc3339_ns ''2024-02-28T09:02:23.475693096Z'' = Some 1709110943475693096"
  by (simp add: rfc3339_ns_def days_since_1970_def digit_value_def Let_def)

lemma genesis_trusted_until:
  "rfc3339_ns ''2024-03-13T09:02:23.475693096Z'' = Some (1709110943475693096 + trusting_period)"
  by (simp add: rfc3339_ns_def days_since_1970_def digit_value_def trusting_period_def Let_def)

section \<open>A service that starts today\<close>

lemma fresh_start_reads_genesis:
  assumes "svc_main D J initial addrs (Inr d) = Inr i"
  shows "\<exists>h. sj_header_Unmarshal J initial = Inr h \<and> in_latestTrustedHeader i = Some h \<and> in_db i = d
    \<and> in_smartBCHAddrList i = split_on (CHR '','') addrs \<and> recoveryLatestTrustedHeader D J d = Inl ErrKeyNotFound"
  using assms by (auto simp: svc_main_def initLatestTrustedHeader_def Let_def split: if_splits sum.splits db_err.splits)

text \<open>
  C28: the genesis header has expired. The service trusts the header of the 28th of February 2024 for two
  weeks. Started at any time after the 13th of March 2024, 9:02:23.475693096 in universal time, it never
  accepts a header, whatever the nodes answer and however often it turns: it goes on rotating its list of
  nodes, with the trusted header of the genesis text and the database it opened. (A service that has advanced
  before cannot be restarted either, so there is no way left to run it without another genesis text.)
\<close>

theorem genesis_has_expired:
  assumes "svc_main D J (bytes_of_string InitialHeaderStr) addrs (Inr d) = Inr i"
    and "\<And>h. sj_header_Unmarshal J (bytes_of_string InitialHeaderStr) = Inr h \<Longrightarrow>
      Some (time (Some h)) = Option.bind (member_text ''time'' InitialHeaderStr) rfc3339_ns"
    and "checks_age (le_tm L) time"
    and "\<And>v t. rfc3339_ns ''2024-03-13T09:02:23.475693096Z'' = Some t \<Longrightarrow> t \<le> le_Now L v"
    and "svc_start L D J n i w = Some (w', Inr i')"
  shows "in_latestTrustedHeader i' = in_latestTrustedHeader i \<and> in_db i' = d
    \<and> in_smartBCHAddrList i' = rotated n (split_on (CHR '','') addrs)"
proof -
  from fresh_start_reads_genesis [OF assms(1)] obtain h where h:
    "sj_header_Unmarshal J (bytes_of_string InitialHeaderStr) = Inr h" "in_latestTrustedHeader i = Some h" "in_db i = d"
    "in_smartBCHAddrList i = split_on (CHR '','') addrs" by blast
  have "time (Some h) = 1709110943475693096"
    using assms(2) [OF h(1)] by (simp add: genesis_members genesis_time)
  then have "\<forall>v. time (Some h) + trusting_period \<le> le_Now L v"
    using assms(4) [OF genesis_trusted_until] by simp
  moreover from assms(5) obtain addrs' h' d' where i': "i' = i\<lparr>in_smartBCHAddrList := addrs', in_latestTrustedHeader := h', in_db := d'\<rparr>"
    and run: "light_run L (in_chainId i) (svc_accept (le_tm L) D J) n
      (in_smartBCHAddrList i, in_latestTrustedHeader i, in_db i) w = Some (w', Inr (addrs', h', d'))"
    by (auto simp: svc_start_def)
  ultimately show ?thesis using expired_run [OF assms(3) _ run] h i' by simp
qed

text \<open>A decoder that keeps the time of a header, and a node that always has the next header, in the year 2025.\<close>

definition time_json :: "int svc_json" where
  "time_json = \<lparr>sj_txs = (\<lambda>t. []), sj_txs_Unmarshal = (\<lambda>b. Inr None), sj_datas = (\<lambda>d. []), sj_datas_Unmarshal = (\<lambda>b. Inr None),
     sj_header = (\<lambda>h. []),
     sj_header_Unmarshal = (\<lambda>b. case Option.bind (member_text ''time'' (string_of_bytes b)) rfc3339_ns of
       None \<Rightarrow> Inl ''no time'' | Some t \<Rightarrow> Inr t)\<rparr>"

definition late_light :: "(unit, int option, unit, unit, svc_block) light_env" where
  "late_light = \<lparr>
     le_net = \<lparr>nt_Get = (\<lambda>w url. (w, Inr ((200, ''200 OK''), Inr url))), nt_Sleep = (\<lambda>n w. w)\<rparr>,
     le_rpc = \<lparr>rpc_Envelope = Inr, rpc_Commit = (\<lambda>s. Inr (Some 1735689600000000000)), rpc_Validators = (\<lambda>s. Inr [()]),
       rpc_Block = (\<lambda>s. Inr (Some \<lparr>sb_Txs = Some [[1, 2]]\<rparr>))\<rparr>,
     le_tm = \<lparr>tl_Height = (\<lambda>h. if h = Some 1735689600000000000 then Some 14028519 else Some 14028518),
       tl_ValidatorSet = (\<lambda>v. Inr ()), tl_ValidateBasic = (\<lambda>c h v. None),
       tl_VerifyAdjacent = (\<lambda>h h' v p n d. if the h + p \<le> n then Some ''old header has expired'' else None),
       tl_LightHash = (\<lambda>h. [1]), tl_BlockHash = (\<lambda>b. if b = None then [] else [1]), tl_BlockHeight = (\<lambda>b. 0)\<rparr>,
     le_Now = (\<lambda>w. 1735689601000000000)\<rparr>"

theorem genesis_has_expired_witness:
  "\<exists>i i'. svc_main mem_badger time_json (bytes_of_string InitialHeaderStr) ''http://a:8545,http://b:8545'' (Inr Map.empty) = Inr i
    \<and> svc_start late_light mem_badger time_json 1 i () = Some ((), Inr i')
    \<and> in_latestTrustedHeader i = Some 1709110943475693096 \<and> in_latestTrustedHeader i' = Some 1709110943475693096
    \<and> in_smartBCHAddrList i' = [''http://b:8545'', ''http://a:8545'']"
proof -
  let ?as = "''http://a:8545,http://b:8545''" and ?L = late_light
  have J: "sj_header_Unmarshal time_json (bytes_of_string InitialHeaderStr) = Inr 1709110943475693096"
    by (simp add: time_json_def genesis_members genesis_time)
  have s: "split_on (CHR '','') ?as = [''http://a:8545'', ''http://b:8545'']" by simp
  obtain i where i: "svc_main mem_badger time_json (bytes_of_string InitialHeaderStr) ?as (Inr Map.empty) = Inr i"
    "in_latestTrustedHeader i = Some 1709110943475693096" "in_smartBCHAddrList i = [''http://a:8545'', ''http://b:8545'']"
    using J by (simp add: svc_main_def initLatestTrustedHeader_def recoveryLatestTrustedHeader_def db_view_def mem_badger_def)
  have f: "getSignedHeader (le_net ?L) (le_rpc ?L) [''http://a:8545'', b] n w = Some (w, Inr (Some 1735689600000000000))"
    "getValidators (le_net ?L) (le_rpc ?L) [''http://a:8545'', b] n w = Some (w, Inr [()])" for b n w
    unfolding getSignedHeader_def getValidators_def
    by (rule fetch_loop_now; simp add: getSignedHeaderByNumber_def getValidatorsByNumber_def get_result_def late_light_def)+
  have "verify_next ?L c [''http://a:8545'', b] (Some 1709110943475693096) ()
      = Some ((), Inr (Inl [b, ''http://a:8545'']))" for c b
    using f by (simp add: verify_next_def) (simp add: late_light_def rotateList_def trusting_period_def)
  then obtain i' where i': "svc_start ?L mem_badger time_json 1 i () = Some ((), Inr i')"
    using i by (simp add: svc_start_def light_turn_def)
  have "checks_age (le_tm ?L) the" by (simp add: checks_age_def late_light_def)
  from genesis_has_expired [OF i(1) _ this _ i'] i i' s
  show ?thesis
    by (auto simp: J genesis_members genesis_time genesis_trusted_until rotated_def late_light_def trusting_period_def)
qed

end
