(* ===== verification/Hash.thy ===== *)
theory Hash
  imports U256
begin

text \<open>
  The hash functions of the script, \<^verbatim>\<open>script/extension/hash.go\<close>. A hasher is the bytes written to it; the
  hash algorithms themselves are parameters.
\<close>

section \<open>The arguments\<close>

text \<open>
  \<^verbatim>\<open>for _, c := range s\<close> runs over the characters of the UTF-8 text; one above \<^verbatim>\<open>MaxASCII\<close> (or an invalid
  byte, which reads as U+FFFD) comes exactly from bytes above 127.
\<close>

definition isASCII :: "string \<Rightarrow> bool" where
  "isASCII s \<longleftrightarrow> list_all (\<lambda>c. (of_char c :: nat) \<le> 127) s"

text \<open>Among the wrapped Go values only \<^verbatim>\<open>Uint256\<close> (\<open>Inl\<close>) can be hashed.\<close>

primrec hashFunc :: "uint256_api \<Rightarrow> (Uint256 + 'y) jsval list \<Rightarrow> bytes \<Rightarrow> bytes res" where
  "hashFunc U [] h = Inr h"
| "hashFunc U (arg # args) h =
     (case arg of
        JStr v \<Rightarrow>
          if \<not> isASCII v then Inl (PValue ''Non-ascii string is not supported for hash'')
          else hashFunc U args (h @ bytes_of_string v)
      | JBuf v \<Rightarrow> hashFunc U args (h @ v)
      | JGo (Inl v) \<Rightarrow> hashFunc U args (h @ i256_WriteToArray32 U (uX v))
      | _ \<Rightarrow> Inl (PValue ''Unsupported type for hash''))"

section \<open>The functions\<close>

text \<open>The package hashes: bytes written to the digest that \<^verbatim>\<open>Sum\<close> (or \<^verbatim>\<open>Sum128\<close>, \<^verbatim>\<open>Sum32\<close>) yields.\<close>

record hash_api =
  hs_Keccak256 :: "bytes \<Rightarrow> bytes"
  hs_Sha256 :: "bytes \<Rightarrow> bytes"
  hs_Ripemd160 :: "bytes \<Rightarrow> bytes"
  hs_XxHash32 :: "bytes \<Rightarrow> uint32"
  hs_XxHash64 :: "bytes \<Rightarrow> bytes"
  hs_XxHash128 :: "bytes \<Rightarrow> bytes"

definition Keccak256 :: "hash_api \<Rightarrow> uint256_api \<Rightarrow> (Uint256 + 'y) jsval list \<Rightarrow> bytes res" where
  "Keccak256 H U args = bind_res (hashFunc U args []) (\<lambda>h. Inr (hs_Keccak256 H h))"

definition Sha256 :: "hash_api \<Rightarrow> uint256_api \<Rightarrow> (Uint256 + 'y) jsval list \<Rightarrow> bytes res" where
  "Sha256 H U args = bind_res (hashFunc U args []) (\<lambda>h. Inr (hs_Sha256 H h))"

definition Ripemd160 :: "hash_api \<Rightarrow> uint256_api \<Rightarrow> (Uint256 + 'y) jsval list \<Rightarrow> bytes res" where
  "Ripemd160 H U args = bind_res (hashFunc U args []) (\<lambda>h. Inr (hs_Ripemd160 H h))"

text \<open>\<^verbatim>\<open>Sum\<close> of the 32-bit hash appends its four bytes big-endian.\<close>

definition XxHash32 :: "hash_api \<Rightarrow> uint256_api \<Rightarrow> (Uint256 + 'y) jsval list \<Rightarrow> bytes res" where
  "XxHash32 H U args = bind_res (hashFunc U args []) (\<lambda>h. Inr (be_bytes 4 (unat (hs_XxHash32 H h))))"

definition XxHash64 :: "hash_api \<Rightarrow> uint256_api \<Rightarrow> (Uint256 + 'y) jsval list \<Rightarrow> bytes res" where
  "XxHash64 H U args = bind_res (hashFunc U args []) (\<lambda>h. Inr (hs_XxHash64 H h))"

definition XxHash128 :: "hash_api \<Rightarrow> uint256_api \<Rightarrow> (Uint256 + 'y) jsval list \<Rightarrow> bytes res" where
  "XxHash128 H U args = bind_res (hashFunc U args []) (\<lambda>h. Inr (hs_XxHash128 H h))"

definition XxHash32Int :: "hash_api \<Rightarrow> uint256_api \<Rightarrow> (Uint256 + 'y) jsval list \<Rightarrow> uint32 res" where
  "XxHash32Int H U args = bind_res (hashFunc U args []) (\<lambda>h. Inr (hs_XxHash32 H h))"

section \<open>What is hashed\<close>

text \<open>The bytes an argument stands for, if it is of a supported type.\<close>

fun arg_bytes :: "uint256_api \<Rightarrow> (Uint256 + 'y) jsval \<Rightarrow> bytes option" where
  "arg_bytes U (JStr s) = (if isASCII s then Some (bytes_of_string s) else None)"
| "arg_bytes U (JBuf b) = Some b"
| "arg_bytes U (JGo (Inl v)) = Some (i256_WriteToArray32 U (uX v))"
| "arg_bytes U _ = None"

definition hashable :: "uint256_api \<Rightarrow> (Uint256 + 'y) jsval list \<Rightarrow> bool" where
  "hashable U args \<longleftrightarrow> list_all (\<lambda>a. arg_bytes U a \<noteq> None) args"

definition hashed_bytes :: "uint256_api \<Rightarrow> (Uint256 + 'y) jsval list \<Rightarrow> bytes" where
  "hashed_bytes U args = concat (map (\<lambda>a. the (arg_bytes U a)) args)"

lemma hashFunc_Inr:
  "hashFunc U args h = Inr z \<longleftrightarrow> hashable U args \<and> z = h @ hashed_bytes U args"
  by (induction args arbitrary: h) (auto simp: hashable_def hashed_bytes_def split: jsval.split sum.split)

section \<open>Properties\<close>

text \<open>
  a hash depends only on the concatenation of its arguments' bytes - an ASCII string and a buffer
  of the same bytes hash alike, a \<^verbatim>\<open>Uint256\<close> counts as its 32 bytes - and it throws exactly when an
  argument is a non-ASCII string or of another type. In particular splitting the input differently
  over the arguments gives the same hash.
\<close>

theorem hash_of_concatenation:
  "(Keccak256 H U args = Inr d \<longleftrightarrow> hashable U args \<and> d = hs_Keccak256 H (hashed_bytes U args))
    \<and> (Sha256 H U args = Inr d \<longleftrightarrow> hashable U args \<and> d = hs_Sha256 H (hashed_bytes U args))
    \<and> (Ripemd160 H U args = Inr d \<longleftrightarrow> hashable U args \<and> d = hs_Ripemd160 H (hashed_bytes U args))
    \<and> (XxHash32 H U args = Inr d \<longleftrightarrow> hashable U args \<and> d = be_bytes 4 (unat (hs_XxHash32 H (hashed_bytes U args))))
    \<and> (XxHash64 H U args = Inr d \<longleftrightarrow> hashable U args \<and> d = hs_XxHash64 H (hashed_bytes U args))
    \<and> (XxHash128 H U args = Inr d \<longleftrightarrow> hashable U args \<and> d = hs_XxHash128 H (hashed_bytes U args))
    \<and> (XxHash32Int H U args = Inr n \<longleftrightarrow> hashable U args \<and> n = hs_XxHash32 H (hashed_bytes U args))
    \<and> Sha256 H U [JBuf (a @ b) :: (Uint256 + 'y) jsval] = Sha256 H U [JBuf a :: (Uint256 + 'y) jsval, JBuf b]"
  by (auto simp: Keccak256_def Sha256_def Ripemd160_def XxHash32_def XxHash64_def XxHash128_def
      XxHash32Int_def hashFunc_Inr hashable_def hashed_bytes_def)

end
