(* ===== verification/Crypto.thy ===== *)
theory Crypto
  imports Args KeyDerive GoStd
begin

text \<open>
  The cryptographic functions of the script, \<^verbatim>\<open>script/extension/crypto.go\<close>: AES-GCM with nonces of 16
  bytes, the methods of private and public keys, and Ethereum signatures. The ciphers, curves and the
  packages \<^verbatim>\<open>ecies\<close>, \<^verbatim>\<open>go-ethereum/crypto\<close>, \<^verbatim>\<open>bchutil\<close> and \<^verbatim>\<open>go-ecvrf\<close> are parameters.
\<close>

section \<open>AES-GCM\<close>

text \<open>\<open>ae_Open\<close> yields \<open>Inl\<close> when the message does not authenticate.\<close>

record aead_api =
  ae_Seal :: "bytes \<Rightarrow> bytes \<Rightarrow> bytes \<Rightarrow> bytes"
  ae_Open :: "bytes \<Rightarrow> bytes \<Rightarrow> bytes \<Rightarrow> string + bytes"

text \<open>
  \<^verbatim>\<open>aes.NewCipher\<close> accepts keys of 16, 24 and 32 bytes; \<^verbatim>\<open>NewGCMWithNonceSize\<close> does not fail on such a
  block; \<^verbatim>\<open>Seal\<close> and \<^verbatim>\<open>Open\<close> panic on a nonce of another size.
\<close>

definition nonce_panic :: go_panic where
  "nonce_panic = PError ''crypto/cipher: incorrect nonce length given to GCM''"

definition cipher_error :: "bytes \<Rightarrow> string option" where
  "cipher_error secret =
     (if length secret \<in> {16, 24, 32} then None
      else Some (''cannot create new aes block: crypto/aes: invalid key size '' @ decimal (length secret)))"

definition aesgcmEncrypt :: "aead_api \<Rightarrow> bytes \<Rightarrow> bytes \<Rightarrow> bytes \<Rightarrow> (string + bytes) res" where
  "aesgcmEncrypt A secret nonce msg =
     (case cipher_error secret of
        Some err \<Rightarrow> Inr (Inl err)
      | None \<Rightarrow>
          if length nonce \<noteq> 16 then Inl nonce_panic else Inr (Inr (ae_Seal A secret nonce msg)))"

definition aesgcmDecrypt :: "aead_api \<Rightarrow> bytes \<Rightarrow> bytes \<Rightarrow> bytes \<Rightarrow> (string + bytes) res" where
  "aesgcmDecrypt A secret nonce ciphertext =
     (case cipher_error secret of
        Some err \<Rightarrow> Inr (Inl err)
      | None \<Rightarrow>
          if length nonce \<noteq> 16 then Inl nonce_panic
          else (case ae_Open A secret nonce ciphertext of
             Inl err \<Rightarrow> Inr (Inl (''cannot decrypt ciphertext: '' @ err))
           | Inr plaintext \<Rightarrow> Inr (Inr plaintext)))"

definition AesGcmEncrypt :: "aead_api \<Rightarrow> 'x jsval list \<Rightarrow> bytes res" where
  "AesGcmEncrypt A args = bind_res (GetThreeArrayBuffers args) (\<lambda>(secret, nonce, msg).
     bind_res (aesgcmEncrypt A secret nonce msg) (\<lambda>r. case r of
       Inl err \<Rightarrow> Inl (PSymbol (''error in AesGcmEncrypt: '' @ err))
     | Inr bz \<Rightarrow> Inr bz))"

text \<open>The pair \<^verbatim>\<open>[nil, false]\<close> or \<^verbatim>\<open>[buffer, true]\<close>.\<close>

definition AesGcmDecrypt :: "aead_api \<Rightarrow> 'x jsval list \<Rightarrow> (bytes option \<times> bool) res" where
  "AesGcmDecrypt A args = bind_res (GetThreeArrayBuffers args) (\<lambda>(secret, nonce, ciphertext).
     bind_res (aesgcmDecrypt A secret nonce ciphertext) (\<lambda>r. case r of
       Inl err \<Rightarrow> Inr (None, False)
     | Inr bz \<Rightarrow> Inr (Some bz, True)))"

section \<open>Keys\<close>

text \<open>
  The key types of \<^verbatim>\<open>ecies\<close>: \<open>'s\<close> is a private key, \<open>'p\<close> a public key, \<open>None\<close> a nil pointer. Methods
  that check their argument for nil take the option; the others are called through \<open>deref\<close>. The
  signature packages take the key's curve point and number, which are the key.
\<close>

record ('s, 'p) key_api =
  ek_NewPrivateKeyFromBytes :: "bytes \<Rightarrow> 's"
  ek_NewPublicKeyFromBytes :: "bytes \<Rightarrow> string + 'p"
  ek_PublicKey :: "'s \<Rightarrow> 'p"
  ek_PrvBytes :: "'s \<Rightarrow> bytes"
  ek_PrvHex :: "'s \<Rightarrow> string"
  ek_PrvEquals :: "'s \<Rightarrow> 's \<Rightarrow> bool"
  ek_PubBytes :: "'p \<Rightarrow> bool \<Rightarrow> bytes"
  ek_PubHex :: "'p \<Rightarrow> bool \<Rightarrow> string"
  ek_PubEquals :: "'p \<Rightarrow> 'p \<Rightarrow> bool"
  ek_ECDH :: "'s \<Rightarrow> 'p option \<Rightarrow> string + bytes"
  ek_Encapsulate :: "'s \<Rightarrow> 'p option \<Rightarrow> string + bytes"
  ek_Decapsulate :: "'p \<Rightarrow> 's \<Rightarrow> string + bytes"
  ek_Decrypt :: "'s \<Rightarrow> bytes \<Rightarrow> string + bytes"
  gc_Sign :: "bytes \<Rightarrow> 's \<Rightarrow> string + bytes"
  gc_PubkeyToAddress :: "'p \<Rightarrow> bytes"
  gc_VerifySignature :: "bytes \<Rightarrow> bytes \<Rightarrow> bytes \<Rightarrow> bool"
  gc_Ecrecover :: "bytes \<Rightarrow> bytes \<Rightarrow> string + bytes"
  bu_Hash160 :: "bytes \<Rightarrow> bytes"
  vrf_Prove :: "'s \<Rightarrow> bytes \<Rightarrow> string + bytes \<times> bytes"
  vrf_Verify :: "'p \<Rightarrow> bytes \<Rightarrow> bytes \<Rightarrow> string + bytes"

record 's PrivateKey = prv_key :: 's
record 'p PublicKey = pub_key :: "'p option"

text \<open>The Go values among the arguments of a script call that the methods tell apart.\<close>

datatype ('s, 'p) go_key = GoPrivateKey "'s PrivateKey" | GoPublicKey "'p PublicKey" | GoOther

definition BufToPrivateKey :: "('s, 'p) key_api \<Rightarrow> bytes \<Rightarrow> 's PrivateKey" where
  "BufToPrivateKey X buf = \<lparr>prv_key = ek_NewPrivateKeyFromBytes X buf\<rparr>"

text \<open>The error is dropped; the key is then nil.\<close>

definition BufToPublicKey :: "('s, 'p) key_api \<Rightarrow> bytes \<Rightarrow> 'p PublicKey" where
  "BufToPublicKey X buf =
     \<lparr>pub_key = (case ek_NewPublicKeyFromBytes X buf of Inl err \<Rightarrow> None | Inr key \<Rightarrow> Some key)\<rparr>"

definition prv_GetPublicKey :: "('s, 'p) key_api \<Rightarrow> 's PrivateKey \<Rightarrow> 'p PublicKey" where
  "prv_GetPublicKey X prv = \<lparr>pub_key = Some (ek_PublicKey X (prv_key prv))\<rparr>"

text \<open>An argument list that must be one public (private) key.\<close>

definition one_public :: "('s, 'p) go_key jsval list \<Rightarrow> 'p PublicKey res" where
  "one_public args =
     (if length args \<noteq> 1 then Inl IncorrectArgumentCount
      else case args ! 0 of
        JGo (GoPublicKey pub) \<Rightarrow> Inr pub
      | _ \<Rightarrow> Inl (PSymbol ''The first argument must be PublicKey''))"

definition one_private :: "('s, 'p) go_key jsval list \<Rightarrow> 's PrivateKey res" where
  "one_private args =
     (if length args \<noteq> 1 then Inl IncorrectArgumentCount
      else case args ! 0 of
        JGo (GoPrivateKey prv) \<Rightarrow> Inr prv
      | _ \<Rightarrow> Inl (PSymbol ''The first argument must be PrivateKey''))"

definition or_symbol :: "string \<Rightarrow> string + 'a \<Rightarrow> 'a res" where
  "or_symbol intro_text r = (case r of Inl err \<Rightarrow> Inl (PSymbol (intro_text @ err)) | Inr x \<Rightarrow> Inr x)"

definition prv_ECDH :: "('s, 'p) key_api \<Rightarrow> 's PrivateKey \<Rightarrow> ('s, 'p) go_key jsval list \<Rightarrow> bytes res" where
  "prv_ECDH X prv args = bind_res (one_public args) (\<lambda>pub.
     or_symbol ''error in ECDH: '' (ek_ECDH X (prv_key prv) (pub_key pub)))"

definition prv_Encapsulate :: "('s, 'p) key_api \<Rightarrow> 's PrivateKey \<Rightarrow> ('s, 'p) go_key jsval list \<Rightarrow> bytes res" where
  "prv_Encapsulate X prv args = bind_res (one_public args) (\<lambda>pub.
     or_symbol ''error in Encapsulate: '' (ek_Encapsulate X (prv_key prv) (pub_key pub)))"

definition prv_Sign :: "('s, 'p) key_api \<Rightarrow> 's PrivateKey \<Rightarrow> 'x jsval list \<Rightarrow> bytes res" where
  "prv_Sign X prv args = bind_res (GetOneArrayBuffer args) (\<lambda>msg.
     or_symbol ''error in Sign: '' (gc_Sign X msg (prv_key prv)))"

definition prv_Equal :: "('s, 'p) key_api \<Rightarrow> 's PrivateKey \<Rightarrow> 's PrivateKey \<Rightarrow> bool" where
  "prv_Equal X prv other = ek_PrvEquals X (prv_key prv) (prv_key other)"

definition prv_Hex :: "('s, 'p) key_api \<Rightarrow> 's PrivateKey \<Rightarrow> string" where
  "prv_Hex X prv = ek_PrvHex X (prv_key prv)"

definition prv_Serialize :: "('s, 'p) key_api \<Rightarrow> 's PrivateKey \<Rightarrow> 'x jsval list \<Rightarrow> bytes res" where
  "prv_Serialize X prv args =
     (if length args \<noteq> 0 then Inl IncorrectArgumentCount else Inr (ek_PrvBytes X (prv_key prv)))"

definition prv_Decrypt :: "('s, 'p) key_api \<Rightarrow> 's PrivateKey \<Rightarrow> 'x jsval list \<Rightarrow> (bytes option \<times> bool) res" where
  "prv_Decrypt X prv args = bind_res (GetOneArrayBuffer args) (\<lambda>buf.
     case ek_Decrypt X (prv_key prv) buf of
       Inl err \<Rightarrow> Inr (None, False)
     | Inr bz \<Rightarrow> Inr (Some bz, True))"

definition pub_Decapsulate :: "('s, 'p) key_api \<Rightarrow> 'p PublicKey \<Rightarrow> ('s, 'p) go_key jsval list \<Rightarrow> bytes res" where
  "pub_Decapsulate X pub args = bind_res (one_private args) (\<lambda>prv.
     bind_res (deref (pub_key pub)) (\<lambda>p.
     or_symbol ''error in Decapsulate: '' (ek_Decapsulate X p (prv_key prv))))"

definition pub_Equal :: "('s, 'p) key_api \<Rightarrow> 'p PublicKey \<Rightarrow> 'p PublicKey \<Rightarrow> bool res" where
  "pub_Equal X pub other = bind_res (deref (pub_key pub)) (\<lambda>p. bind_res (deref (pub_key other)) (\<lambda>q.
     Inr (ek_PubEquals X p q)))"

definition pub_Hex :: "('s, 'p) key_api \<Rightarrow> 'p PublicKey \<Rightarrow> bool \<Rightarrow> string res" where
  "pub_Hex X pub compressed = bind_res (deref (pub_key pub)) (\<lambda>p. Inr (ek_PubHex X p compressed))"

definition pub_toBuf :: "('s, 'p) key_api \<Rightarrow> 'p PublicKey \<Rightarrow> 'x jsval list \<Rightarrow> bool \<Rightarrow> bytes res" where
  "pub_toBuf X pub args compressed =
     (if length args \<noteq> 0 then Inl IncorrectArgumentCount
      else bind_res (deref (pub_key pub)) (\<lambda>p. Inr (ek_PubBytes X p compressed)))"

definition pub_SerializeCompressed :: "('s, 'p) key_api \<Rightarrow> 'p PublicKey \<Rightarrow> 'x jsval list \<Rightarrow> bytes res" where
  "pub_SerializeCompressed X pub args = pub_toBuf X pub args True"

definition pub_SerializeUncompressed :: "('s, 'p) key_api \<Rightarrow> 'p PublicKey \<Rightarrow> 'x jsval list \<Rightarrow> bytes res" where
  "pub_SerializeUncompressed X pub args = pub_toBuf X pub args False"

text \<open>\<open>h.Sum(entropy)\<close> appends the hash to the entropy, so the nonce is the start of that.\<close>

definition eciesEncrypt ::
  "('s, 'p) key_api \<Rightarrow> aead_api \<Rightarrow> (bytes \<Rightarrow> bytes) \<Rightarrow> 'p option \<Rightarrow> bytes \<Rightarrow> bytes \<Rightarrow> (string + bytes) res" where
  "eciesEncrypt X A sha256 pubkey msg entropy =
     (let h = sha256 (entropy @ msg); ek = ek_NewPrivateKeyFromBytes X h;
          ct = ek_PubBytes X (ek_PublicKey X ek) False in
      case ek_Encapsulate X ek pubkey of
        Inl err \<Rightarrow> Inr (Inl err)
      | Inr secret \<Rightarrow>
          if length (entropy @ h) < 16 then Inl PSliceBounds
          else let nonce = take 16 (entropy @ h); ct = ct @ nonce in
            bind_res (aesgcmEncrypt A secret nonce msg) (\<lambda>r. case r of
                Inl err \<Rightarrow> Inr (Inl err)
              | Inr ciphertext \<Rightarrow>
                  if length ciphertext < 16 then Inl PSliceBounds
                  else let tag = drop (length ciphertext - 16) ciphertext; ct = ct @ tag;
                           ciphertext = take (length ciphertext - length tag) ciphertext in
                    Inr (Inr (ct @ ciphertext))))"

definition pub_Encrypt ::
  "('s, 'p) key_api \<Rightarrow> aead_api \<Rightarrow> (bytes \<Rightarrow> bytes) \<Rightarrow> 'p PublicKey \<Rightarrow> 'x jsval list \<Rightarrow> bytes res" where
  "pub_Encrypt X A sha256 pub args = bind_res (GetTwoArrayBuffers args) (\<lambda>(buf, entropy).
     bind_res (eciesEncrypt X A sha256 (pub_key pub) buf entropy) (or_symbol ''error in Encrypt: ''))"

definition pub_ToEvmAddress :: "('s, 'p) key_api \<Rightarrow> 'p PublicKey \<Rightarrow> 'x jsval list \<Rightarrow> bytes res" where
  "pub_ToEvmAddress X pub args =
     (if length args \<noteq> 0 then Inl IncorrectArgumentCount
      else bind_res (deref (pub_key pub)) (\<lambda>key. Inr (gc_PubkeyToAddress X key)))"

definition pub_ToCashAddress :: "('s, 'p) key_api \<Rightarrow> 'p PublicKey \<Rightarrow> 'x jsval list \<Rightarrow> bytes res" where
  "pub_ToCashAddress X pub args =
     (if length args \<noteq> 0 then Inl IncorrectArgumentCount
      else bind_res (deref (pub_key pub)) (\<lambda>key. Inr (bu_Hash160 X (ek_PubBytes X key True))))"

definition prv_VrfProve :: "('s, 'p) key_api \<Rightarrow> 's PrivateKey \<Rightarrow> 'x jsval list \<Rightarrow> (bytes \<times> bytes) res" where
  "prv_VrfProve X prv args = bind_res (GetOneArrayBuffer args) (\<lambda>alpha.
     or_symbol ''error in VrfProve: '' (vrf_Prove X (prv_key prv) alpha))"

definition pub_VrfVerify :: "('s, 'p) key_api \<Rightarrow> 'p PublicKey \<Rightarrow> 'x jsval list \<Rightarrow> bytes res" where
  "pub_VrfVerify X pub args = bind_res (GetTwoArrayBuffers args) (\<lambda>(alpha, pi).
     bind_res (deref (pub_key pub)) (\<lambda>key. or_symbol ''error in VrfVerify: '' (vrf_Verify X key alpha pi)))"

section \<open>Signatures\<close>

definition GetEthSignedMessage :: "'x jsval list \<Rightarrow> bytes res" where
  "GetEthSignedMessage args = bind_res (GetOneArrayBuffer args) (\<lambda>msg.
     Inr ([0x19] @ bytes_of_string ''Ethereum Signed Message:'' @ [10]
          @ bytes_of_string (decimal (length msg)) @ msg))"

definition VerifySignature :: "('s, 'p) key_api \<Rightarrow> 'x jsval list \<Rightarrow> bool res" where
  "VerifySignature X args = bind_res (GetThreeArrayBuffers args) (\<lambda>(pubkey, digestHash, signature).
     if length pubkey \<noteq> 33 \<and> length pubkey \<noteq> 65
     then Inl (PSymbol ''invalid public key length, must be 33 or 65'')
     else if length digestHash \<noteq> 32
     then Inl (PSymbol ''invalid digestHash length, must be 32'')
     else if length signature \<noteq> 65
     then Inl (PSymbol ''invalid sig length, must be 65'')
     else Inr (gc_VerifySignature X pubkey digestHash (take 64 signature)))"

definition Ecrecover :: "('s, 'p) key_api \<Rightarrow> 'x jsval list \<Rightarrow> 'p PublicKey res" where
  "Ecrecover X args = bind_res (GetTwoArrayBuffers args) (\<lambda>(hash, sig).
     if length sig \<noteq> 65 then Inl (PSymbol ''invalid sig length, must be 65'')
     else bind_res (or_symbol ''error in Ecrecover: '' (gc_Ecrecover X hash sig)) (\<lambda>bz.
       bind_res (or_symbol ''error in NewPublicKeyFromBytes: '' (ek_NewPublicKeyFromBytes X bz)) (\<lambda>key.
         Inr \<lparr>pub_key = Some key\<rparr>)))"

section \<open>The documented packages\<close>

text \<open>
  An authenticated cipher with a tag of 16 bytes; key encapsulation between two key pairs; and the format
  \<^verbatim>\<open>ecies.Decrypt\<close> reads: the ephemeral public key (65 bytes), the nonce and the tag (16 bytes each) and a
  ciphertext that is not empty.
\<close>

locale aead =
  fixes A :: aead_api
  assumes length_Seal: "length (ae_Seal A k n m) = length m + 16"
    and Open_Seal: "ae_Open A k n (ae_Seal A k n m) = Inr m"

locale ecies = aead A
  for A :: aead_api +
  fixes X :: "('s, 'p) key_api"
  assumes length_PubBytes: "length (ek_PubBytes X p False) = 65"
    and parse_PubBytes: "ek_NewPublicKeyFromBytes X (ek_PubBytes X p False) = Inr p"
    and Decapsulate: "ek_Encapsulate X e (Some (ek_PublicKey X s)) = Inr k
      \<Longrightarrow> length k = 32 \<and> ek_Decapsulate X (ek_PublicKey X e) s = Inr k"
    and Decrypt: "ek_NewPublicKeyFromBytes X pb = Inr q \<Longrightarrow> length pb = 65 \<Longrightarrow> length n = 16 \<Longrightarrow> length t = 16
      \<Longrightarrow> body \<noteq> [] \<Longrightarrow> ek_Decapsulate X q s = Inr k \<Longrightarrow> ae_Open A k n (body @ t) = Inr m
      \<Longrightarrow> ek_Decrypt X s (pb @ n @ t @ body) = Inr m"

context aead
begin

lemma decrypt_encrypt:
  "AesGcmEncrypt A [JBuf secret, JBuf nonce, JBuf msg] = Inr c
    \<Longrightarrow> AesGcmDecrypt A [JBuf secret, JBuf nonce, JBuf c] = Inr (Some msg, True)"
  by (auto simp: AesGcmEncrypt_def AesGcmDecrypt_def aesgcmEncrypt_def aesgcmDecrypt_def Open_Seal
      split: option.splits if_splits)

end

context ecies
begin

lemma encrypt_layout:
  assumes "length (sha (entropy @ msg)) = 32"
    and k: "ek_Encapsulate X (ek_NewPrivateKeyFromBytes X (sha (entropy @ msg))) pubkey = Inr k" "length k = 32"
  defines "nonce \<equiv> take 16 (entropy @ sha (entropy @ msg))"
  defines "c \<equiv> ae_Seal A k nonce msg"
  shows "eciesEncrypt X A sha pubkey msg entropy =
    Inr (Inr (ek_PubBytes X (ek_PublicKey X (ek_NewPrivateKeyFromBytes X (sha (entropy @ msg)))) False
      @ nonce @ drop (length msg) c @ take (length msg) c))"
    and "length nonce = 16" "length c = length msg + 16"
proof -
  show n: "length nonce = 16" using assms(1) by (simp add: nonce_def)
  show c: "length c = length msg + 16" by (simp add: c_def length_Seal)
  have "aesgcmEncrypt A k nonce msg = Inr (Inr c)"
    using n k(2) by (simp add: aesgcmEncrypt_def cipher_error_def c_def)
  with c k(1) assms(1) show "eciesEncrypt X A sha pubkey msg entropy =
    Inr (Inr (ek_PubBytes X (ek_PublicKey X (ek_NewPrivateKeyFromBytes X (sha (entropy @ msg)))) False
      @ nonce @ drop (length msg) c @ take (length msg) c))"
    by (simp add: eciesEncrypt_def Let_def nonce_def)
qed

lemma encrypt_decrypt:
  assumes "msg \<noteq> []" "length (sha (entropy @ msg)) = 32"
    and k: "ek_Encapsulate X (ek_NewPrivateKeyFromBytes X (sha (entropy @ msg))) (Some (ek_PublicKey X s)) = Inr k"
  shows "\<exists>ct. pub_Encrypt X A sha \<lparr>pub_key = Some (ek_PublicKey X s)\<rparr> [JBuf msg, JBuf entropy] = Inr ct
    \<and> length ct = 97 + length msg \<and> prv_Decrypt X \<lparr>prv_key = s\<rparr> [JBuf ct] = Inr (Some msg, True)"
proof -
  let ?e = "ek_NewPrivateKeyFromBytes X (sha (entropy @ msg))"
  let ?n = "take 16 (entropy @ sha (entropy @ msg))"
  let ?c = "ae_Seal A k ?n msg"
  let ?pb = "ek_PubBytes X (ek_PublicKey X ?e) False"
  from Decapsulate [OF k] have d: "length k = 32" "ek_Decapsulate X (ek_PublicKey X ?e) s = Inr k" by simp_all
  note layout = encrypt_layout [where sha = sha, OF assms(2) k d(1)]
  have "ae_Open A k ?n (take (length msg) ?c @ drop (length msg) ?c) = Inr msg"
    by (simp add: Open_Seal)
  then have "ek_Decrypt X s (?pb @ ?n @ drop (length msg) ?c @ take (length msg) ?c) = Inr msg"
    using layout(2,3) assms(1) d(2) by (intro Decrypt [OF parse_PubBytes length_PubBytes]) auto
  then show ?thesis using layout length_PubBytes
    by (simp add: pub_Encrypt_def prv_Decrypt_def or_symbol_def)
qed

end

text \<open>A toy cipher and key pair.\<close>

definition mini_aead :: aead_api where
  "mini_aead = \<lparr>ae_Seal = (\<lambda>k n m. m @ replicate 16 7),
     ae_Open = (\<lambda>k n c. if drop (length c - 16) c = replicate 16 7 then Inr (take (length c - 16) c) else Inl ''auth'')\<rparr>"

definition mini_key :: "(unit, unit) key_api" where
  "mini_key = \<lparr>ek_NewPrivateKeyFromBytes = (\<lambda>b. ()), ek_NewPublicKeyFromBytes = (\<lambda>b. Inr ()),
     ek_PublicKey = (\<lambda>s. ()), ek_PrvBytes = (\<lambda>s. replicate 32 1), ek_PrvHex = (\<lambda>s. ''01''), ek_PrvEquals = (\<lambda>s t. True),
     ek_PubBytes = (\<lambda>p c. replicate 65 4), ek_PubHex = (\<lambda>p c. ''04''), ek_PubEquals = (\<lambda>p q. True),
     ek_ECDH = (\<lambda>s p. Inr (replicate 32 3)), ek_Encapsulate = (\<lambda>s p. Inr (replicate 32 2)),
     ek_Decapsulate = (\<lambda>p s. Inr (replicate 32 2)),
     ek_Decrypt = (\<lambda>s b. if length b \<le> 97 then Inl ''invalid length of message''
       else ae_Open mini_aead (replicate 32 2) (take 16 (drop 65 b)) (drop 97 b @ take 16 (drop 81 b))),
     gc_Sign = (\<lambda>m s. Inr (replicate 65 0)), gc_PubkeyToAddress = (\<lambda>p. replicate 20 0),
     gc_VerifySignature = (\<lambda>p d s. True), gc_Ecrecover = (\<lambda>h s. Inr (replicate 65 4)), bu_Hash160 = (\<lambda>b. replicate 20 0),
     vrf_Prove = (\<lambda>s a. Inr ([], [])), vrf_Verify = (\<lambda>p a q. Inr [])\<rparr>"

interpretation toy: ecies mini_aead mini_key
  by unfold_locales (auto simp: mini_aead_def mini_key_def)

section \<open>Properties\<close>

text \<open>
  AES-GCM. Encryption succeeds exactly on three buffers with a key of 16, 24 or 32 bytes and a nonce of
  16; what it yields decrypts to the message under the same key and nonce. A key of another size makes
  encryption throw and decryption return \<^verbatim>\<open>[null, false]\<close>; a nonce of another size makes both panic, also
  where decryption reports all other errors by its flag.
\<close>

theorem aes_gcm_round_trip:
  assumes "aead A"
  shows "(\<exists>c. AesGcmEncrypt A [JBuf secret, JBuf nonce, JBuf msg :: 'x jsval] = Inr c)
        = (length secret \<in> {16, 24, 32} \<and> length nonce = 16)
    \<and> (AesGcmEncrypt A [JBuf secret, JBuf nonce, JBuf msg :: 'x jsval] = Inr c \<longrightarrow>
        AesGcmDecrypt A [JBuf secret, JBuf nonce, JBuf c :: 'x jsval] = Inr (Some msg, True))
    \<and> (length secret \<notin> {16, 24, 32} \<longrightarrow>
        AesGcmDecrypt A [JBuf secret, JBuf nonce, JBuf c :: 'x jsval] = Inr (None, False))
    \<and> (length secret \<in> {16, 24, 32} \<and> length nonce \<noteq> 16 \<longrightarrow>
        AesGcmDecrypt A [JBuf secret, JBuf nonce, JBuf c :: 'x jsval] = Inl nonce_panic
        \<and> AesGcmEncrypt A [JBuf secret, JBuf nonce, JBuf msg :: 'x jsval] = Inl nonce_panic)"
proof (intro conjI impI)
  show "(\<exists>c. AesGcmEncrypt A [JBuf secret, JBuf nonce, JBuf msg :: 'x jsval] = Inr c)
        = (length secret \<in> {16, 24, 32} \<and> length nonce = 16)"
    by (auto simp: AesGcmEncrypt_def aesgcmEncrypt_def cipher_error_def)
  show "AesGcmEncrypt A [JBuf secret, JBuf nonce, JBuf msg :: 'x jsval] = Inr c \<Longrightarrow>
        AesGcmDecrypt A [JBuf secret, JBuf nonce, JBuf c :: 'x jsval] = Inr (Some msg, True)"
    by (rule aead.decrypt_encrypt [OF assms])
qed (auto simp: AesGcmEncrypt_def AesGcmDecrypt_def aesgcmEncrypt_def aesgcmDecrypt_def cipher_error_def)

theorem aes_gcm_round_trip_witness:
  "AesGcmDecrypt mini_aead [JBuf (replicate 16 1), JBuf (replicate 16 2), JBuf ([1, 2, 3] @ replicate 16 7) :: unit jsval]
    = Inr (Some [1, 2, 3], True)"
  using aes_gcm_round_trip [OF toy.aead_axioms, where 'x = unit, of "replicate 16 1" "replicate 16 2" "[1, 2, 3]"]
  by (simp add: AesGcmEncrypt_def aesgcmEncrypt_def cipher_error_def mini_aead_def)

text \<open>
  C24: public-key encryption. What \<^verbatim>\<open>Encrypt\<close> makes of a non-empty message for a key pair - 97 bytes longer
  than the message: ephemeral public key, nonce, tag, ciphertext - \<^verbatim>\<open>Decrypt\<close> of the private key turns
  back into the message.
\<close>

theorem encrypt_then_decrypt:
  assumes "ecies A X" "msg \<noteq> []" "length (sha (entropy @ msg)) = 32"
    and "ek_Encapsulate X (ek_NewPrivateKeyFromBytes X (sha (entropy @ msg))) (Some (ek_PublicKey X (prv_key prv))) = Inr k"
  shows "\<exists>ct. pub_Encrypt X A sha (prv_GetPublicKey X prv) [JBuf msg, JBuf entropy] = Inr ct
    \<and> length ct = 97 + length msg \<and> prv_Decrypt X prv [JBuf ct] = Inr (Some msg, True)"
  using ecies.encrypt_decrypt [where sha = sha and s = "prv_key prv", OF assms]
  by (cases prv) (simp add: prv_GetPublicKey_def)

theorem encrypt_then_decrypt_witness:
  "\<exists>ct. pub_Encrypt mini_key mini_aead (\<lambda>b. replicate 32 5) (prv_GetPublicKey mini_key \<lparr>prv_key = ()\<rparr>)
      [JBuf [1, 2], JBuf [] :: unit jsval] = Inr ct
    \<and> prv_Decrypt mini_key \<lparr>prv_key = ()\<rparr> [JBuf ct :: unit jsval] = Inr (Some [1, 2], True)"
proof -
  have "ek_Encapsulate mini_key e q = Inr (replicate 32 2)" for e q by (simp add: mini_key_def)
  from encrypt_then_decrypt [where msg = "[1, 2]" and sha = "\<lambda>b. replicate 32 5" and entropy = "[]" and prv = "\<lparr>prv_key = ()\<rparr>",
      OF toy.ecies_axioms _ _ this]
  show ?thesis by auto
qed

lemma length_decimal_mono: "n \<le> m \<Longrightarrow> length (decimal n) \<le> length (decimal m)"
proof (induction m arbitrary: n rule: decimal.induct)
  case (1 m)
  show ?case
  proof (cases "n < 10")
    case True
    moreover have "0 < length (decimal m)" by (subst decimal.simps) simp
    ultimately show ?thesis by (simp add: decimal.simps [of n] Suc_le_eq del: length_greater_0_conv)
  next
    case False
    with 1 have "length (decimal (n div 10)) \<le> length (decimal (m div 10))"
      by (intro "1.IH" div_le_mono) auto
    with False 1(2) show ?thesis by (simp add: decimal.simps [of n] decimal.simps [of m])
  qed
qed

text \<open>
  Ethereum messages. The text to sign determines the message: two buffers with the same
  \<^verbatim>\<open>GetEthSignedMessage\<close> are equal, although the length in it is written in decimal without a
  separator.
\<close>

theorem eth_message_is_injective:
  "GetEthSignedMessage [JBuf a :: 'x jsval] = GetEthSignedMessage [JBuf b :: 'x jsval] \<longleftrightarrow> a = b"
proof
  assume eq: "GetEthSignedMessage [JBuf a :: 'x jsval] = GetEthSignedMessage [JBuf b :: 'x jsval]"
  let ?d = "\<lambda>x :: bytes. bytes_of_string (decimal (length x))"
  have e: "?d a @ a = ?d b @ b" using eq by (simp add: GetEthSignedMessage_def)
  then have l: "length (decimal (length a)) + length a = length (decimal (length b)) + length b"
    by (metis length_append length_bytes_of_string)
  have "length a = length b"
  proof (rule ccontr)
    assume "length a \<noteq> length b"
    then consider "length a < length b" | "length b < length a" by linarith
    then show False
      using l length_decimal_mono [of "length a" "length b"] length_decimal_mono [of "length b" "length a"]
      by cases linarith+
  qed
  with e show "a = b" by simp
qed simp

end
