(* ===== verification/BchTx.thy ===== *)
theory BchTx
  imports Crypto Buffer
begin

text \<open>
  Bitcoin Cash transactions, \<^verbatim>\<open>script/extension/bch.go\<close>: parsing a transaction for the script, making and
  signing one, the locking and unlocking scripts, and partial Merkle blocks. The packages \<^verbatim>\<open>wire\<close>,
  \<^verbatim>\<open>txscript\<close>, \<^verbatim>\<open>chainhash\<close>, \<^verbatim>\<open>bchec\<close>, \<^verbatim>\<open>bchutil\<close> and \<^verbatim>\<open>merkleblock\<close> are the parameter \<open>W\<close>.
\<close>

section \<open>Types\<close>

record OutPoint =
  op_HexTxID :: string
  op_Index :: uint32

record TxIn =
  ti_PreviousOutPoint :: OutPoint
  ti_HexPubkey :: string
  ti_Sequence :: uint32
  ti_Value :: int64

record TxOut =
  to_Value :: int64
  to_HexPubkeyHash :: string
  to_HexDataElements :: "string list"

record BchTx =
  bt_HexTxID :: string
  bt_Version :: "32 word"
  bt_TxIn :: "TxIn list"
  bt_TxOut :: "TxOut list"
  bt_LockTime :: uint32

text \<open>The transaction type of \<^verbatim>\<open>wire\<close>, of which the code fills and reads these fields.\<close>

record wire_in =
  wi_Hash :: bytes
  wi_Index :: uint32
  wi_SignatureScript :: bytes
  wi_Sequence :: uint32

record wire_out =
  wo_Value :: int64
  wo_PkScript :: bytes

record wire_tx =
  wt_Version :: "32 word"
  wt_TxIn :: "wire_in list"
  wt_TxOut :: "wire_out list"
  wt_LockTime :: uint32

text \<open>What a script builder is given, in order.\<close>

datatype script_item = AddOp byte | AddData bytes

record 's bch_api =
  bc_PubCompressed :: "'s \<Rightarrow> bytes"
  bc_SignECDSA :: "'s \<Rightarrow> bytes \<Rightarrow> string + bytes"
  bc_Hash160 :: "bytes \<Rightarrow> bytes"
  bc_hexErr :: "string \<Rightarrow> string"
  ts_Script :: "script_item list \<Rightarrow> string + bytes"
  ts_PushedData :: "bytes \<Rightarrow> string + bytes list"
  ts_CalcSignatureHash :: "bytes \<Rightarrow> wire_tx \<Rightarrow> byte \<Rightarrow> wire_tx \<Rightarrow> nat \<Rightarrow> int64 \<Rightarrow> string + bytes"
  wr_Deserialize :: "bytes \<Rightarrow> string + wire_tx"
  wr_Serialize :: "wire_tx \<Rightarrow> bytes"
  wr_TxHash :: "wire_tx \<Rightarrow> bytes"
  ch_String :: "bytes \<Rightarrow> string"
  ch_NewHashFromStr :: "string \<Rightarrow> string + bytes"
  mb_BchDecode :: "bytes \<Rightarrow> string option"
  mb_Extract :: "bytes \<Rightarrow> bytes option \<times> bool \<times> bytes list"

definition OP_RETURN :: byte where "OP_RETURN = 0x6a"
definition OP_DUP :: byte where "OP_DUP = 0x76"
definition OP_HASH160 :: byte where "OP_HASH160 = 0xa9"
definition OP_EQUALVERIFY :: byte where "OP_EQUALVERIFY = 0x88"
definition OP_CHECKSIG :: byte where "OP_CHECKSIG = 0xac"
definition SigHashAll_ForkID :: byte where "SigHashAll_ForkID = or 0x01 0x40"

section \<open>Scripts\<close>

definition getPubkeyFromSigScript :: "'s bch_api \<Rightarrow> bytes \<Rightarrow> string + string" where
  "getPubkeyFromSigScript W sigScript =
     (case ts_PushedData W sigScript of
        Inl err \<Rightarrow> Inl (''failed to parse sigScript: '' @ err)
      | Inr pushes \<Rightarrow>
          if length pushes \<noteq> 2 then Inl ''invalid sigScript''
          else Inr (hex_EncodeToString (pushes ! 1)))"

definition getPubkeyHashFromPkScript :: "bytes \<Rightarrow> string" where
  "getPubkeyHashFromPkScript pkScript =
     (if length pkScript = 25 \<and> pkScript ! 0 = OP_DUP \<and> pkScript ! 1 = OP_HASH160
         \<and> pkScript ! 23 = OP_EQUALVERIFY \<and> pkScript ! 24 = OP_CHECKSIG
      then hex_EncodeToString (take 20 (drop 3 pkScript))
      else '''')"

text \<open>An error of \<^verbatim>\<open>PushedData\<close> is dropped, with a nil result. A nil slice and an empty one are one here.\<close>

definition getOpRetData :: "'s bch_api \<Rightarrow> bytes \<Rightarrow> string list" where
  "getOpRetData W pkScript =
     (if length pkScript > 1 \<and> pkScript ! 0 = OP_RETURN
      then (case ts_PushedData W pkScript of Inl err \<Rightarrow> [] | Inr data \<Rightarrow> map hex_EncodeToString data)
      else [])"

definition payToPubKeyHashPkScript :: "'s bch_api \<Rightarrow> bytes \<Rightarrow> string + bytes" where
  "payToPubKeyHashPkScript W pubKeyHash =
     ts_Script W [AddOp OP_DUP, AddOp OP_HASH160, AddData pubKeyHash, AddOp OP_EQUALVERIFY, AddOp OP_CHECKSIG]"

primrec decode_elements :: "'s bch_api \<Rightarrow> nat \<Rightarrow> string list \<Rightarrow> script_item list \<Rightarrow> string + script_item list" where
  "decode_elements W i [] builder = Inr builder"
| "decode_elements W i (dataHex # ds) builder =
     (case hex_DecodeString dataHex of
        None \<Rightarrow> Inl (''failed to decode data#'' @ decimal i @ '', '' @ bc_hexErr W dataHex)
      | Some data \<Rightarrow> decode_elements W (i + 1) ds (builder @ [AddData data]))"

definition opRetPkScript :: "'s bch_api \<Rightarrow> string list \<Rightarrow> string + bytes" where
  "opRetPkScript W hexDataElements =
     (case decode_elements W 0 hexDataElements [AddOp OP_RETURN] of
        Inl err \<Rightarrow> Inl err
      | Inr builder \<Rightarrow> ts_Script W builder)"

definition signTxSigHashECDSA :: "'s bch_api \<Rightarrow> 's \<Rightarrow> bytes \<Rightarrow> byte \<Rightarrow> string + bytes" where
  "signTxSigHashECDSA W privKey hash hashType =
     (case bc_SignECDSA W privKey hash of
        Inl err \<Rightarrow> Inl (''cannot sign tx input: '' @ err)
      | Inr signature \<Rightarrow> Inr (signature @ [hashType]))"

section \<open>Parsing\<close>

primrec parse_inputs :: "'s bch_api \<Rightarrow> nat \<Rightarrow> wire_in list \<Rightarrow> string + TxIn list" where
  "parse_inputs W i [] = Inr []"
| "parse_inputs W i (msgTxIn # ins) =
     (case getPubkeyFromSigScript W (wi_SignatureScript msgTxIn) of
        Inl err \<Rightarrow> Inl (''failed to get pubkey from unlocking script of input#'' @ decimal i @ '', '' @ err)
      | Inr pubkey \<Rightarrow>
          (case parse_inputs W (i + 1) ins of
             Inl err \<Rightarrow> Inl err
           | Inr l \<Rightarrow> Inr (\<lparr>ti_PreviousOutPoint = \<lparr>op_HexTxID = ch_String W (wi_Hash msgTxIn), op_Index = wi_Index msgTxIn\<rparr>,
               ti_HexPubkey = pubkey, ti_Sequence = wi_Sequence msgTxIn, ti_Value = 0\<rparr> # l)))"

definition parse_output :: "'s bch_api \<Rightarrow> wire_out \<Rightarrow> TxOut" where
  "parse_output W msgTxOut = \<lparr>to_Value = wo_Value msgTxOut,
     to_HexPubkeyHash = getPubkeyHashFromPkScript (wo_PkScript msgTxOut),
     to_HexDataElements = getOpRetData W (wo_PkScript msgTxOut)\<rparr>"

definition parseTxInHex :: "'s bch_api \<Rightarrow> string \<Rightarrow> string + BchTx" where
  "parseTxInHex W hexStr =
     (case hex_DecodeString hexStr of
        None \<Rightarrow> Inl (''failed to decode hex string: '' @ bc_hexErr W hexStr)
      | Some data \<Rightarrow>
          (case wr_Deserialize W data of
             Inl err \<Rightarrow> Inl (''failed to deserialize tx: '' @ err)
           | Inr msgTx \<Rightarrow>
               (case parse_inputs W 0 (wt_TxIn msgTx) of
                  Inl err \<Rightarrow> Inl err
                | Inr txIn \<Rightarrow> Inr \<lparr>bt_HexTxID = ch_String W (wr_TxHash W msgTx), bt_Version = wt_Version msgTx,
                    bt_TxIn = txIn, bt_TxOut = map (parse_output W) (wt_TxOut msgTx),
                    bt_LockTime = wt_LockTime msgTx\<rparr>)))"

definition ParseTxInHex :: "'s bch_api \<Rightarrow> string \<Rightarrow> BchTx res" where
  "ParseTxInHex W hexStr = or_symbol ''Error in ParseTxInHex: '' (parseTxInHex W hexStr)"

section \<open>Signing\<close>

text \<open>The input made for \<^verbatim>\<open>wire\<close> gets the outpoint only: no sequence number.\<close>

primrec build_inputs :: "'s bch_api \<Rightarrow> nat \<Rightarrow> TxIn list \<Rightarrow> string + wire_in list" where
  "build_inputs W idx [] = Inr []"
| "build_inputs W idx (i # ins) =
     (case ch_NewHashFromStr W (op_HexTxID (ti_PreviousOutPoint i)) of
        Inl err \<Rightarrow> Inl (''failed to decode prevTxHash of input#'' @ decimal idx @ '': '' @ err)
      | Inr prevTxHash \<Rightarrow>
          (case build_inputs W (idx + 1) ins of
             Inl err \<Rightarrow> Inl err
           | Inr l \<Rightarrow> Inr (\<lparr>wi_Hash = prevTxHash, wi_Index = op_Index (ti_PreviousOutPoint i),
               wi_SignatureScript = [], wi_Sequence = 0\<rparr> # l)))"

definition build_script :: "'s bch_api \<Rightarrow> nat \<Rightarrow> TxOut \<Rightarrow> string + bytes" where
  "build_script W idx out =
     (if to_HexPubkeyHash out \<noteq> '''' then
        (case hex_DecodeString (to_HexPubkeyHash out) of
           None \<Rightarrow> Inl (''failed to decode pubkeyHash of output#'' @ decimal idx @ '', ''
             @ bc_hexErr W (to_HexPubkeyHash out))
         | Some pubkeyHash \<Rightarrow>
             (case payToPubKeyHashPkScript W pubkeyHash of
                Inl err \<Rightarrow> Inl (''failed to create pkScript of output#'' @ decimal idx @ '', '' @ err)
              | Inr pkScript \<Rightarrow> Inr pkScript))
      else if length (to_HexDataElements out) > 0 then
        (case opRetPkScript W (to_HexDataElements out) of
           Inl err \<Rightarrow> Inl (''failed to create pkScript of output#'' @ decimal idx @ '', '' @ err)
         | Inr pkScript \<Rightarrow> Inr pkScript)
      else Inl (''output#'' @ decimal idx @ '' has no HexPubkeyHash or HexDataElements field''))"

primrec build_outputs :: "'s bch_api \<Rightarrow> nat \<Rightarrow> TxOut list \<Rightarrow> string + wire_out list" where
  "build_outputs W idx [] = Inr []"
| "build_outputs W idx (out # outs) =
     (case build_script W idx out of
        Inl err \<Rightarrow> Inl err
      | Inr pkScript \<Rightarrow>
          (case build_outputs W (idx + 1) outs of
             Inl err \<Rightarrow> Inl err
           | Inr l \<Rightarrow> Inr (\<lparr>wo_Value = to_Value out, wo_PkScript = pkScript\<rparr> # l)))"

definition key_map :: "'s bch_api \<Rightarrow> 's PrivateKey list \<Rightarrow> string \<rightharpoonup> 's" where
  "key_map W privateKeys =
     fold (\<lambda>k m. m(hex_EncodeToString (bc_PubCompressed W (prv_key k)) \<mapsto> prv_key k)) privateKeys Map.empty"

text \<open>The unlocking script of one input, in the transaction as it stands; \<open>bare\<close> gave the signature hashes.\<close>

definition sign_input ::
  "'s bch_api \<Rightarrow> (string \<rightharpoonup> 's) \<Rightarrow> wire_tx \<Rightarrow> nat \<Rightarrow> TxIn \<Rightarrow> wire_tx \<Rightarrow> string + bytes" where
  "sign_input W keyMap bare idx i msgTx =
     (case keyMap (ti_HexPubkey i) of
        None \<Rightarrow> Inl (''no corresponding private key for '' @ ti_HexPubkey i)
      | Some privKey \<Rightarrow>
     (let pubKeyBytes = (case hex_DecodeString (ti_HexPubkey i) of None \<Rightarrow> [] | Some b \<Rightarrow> b) in
      case payToPubKeyHashPkScript W (bc_Hash160 W pubKeyBytes) of
        Inl err \<Rightarrow> Inl (''failed to create locaking script of input#'' @ decimal idx @ '', '' @ err)
      | Inr pubkeyScript \<Rightarrow>
     (case ts_CalcSignatureHash W pubkeyScript bare SigHashAll_ForkID msgTx idx (ti_Value i) of
        Inl err \<Rightarrow> Inl (''failed to calc signature hash of input#'' @ decimal idx @ '', '' @ err)
      | Inr sigHash \<Rightarrow>
     (case signTxSigHashECDSA W privKey sigHash SigHashAll_ForkID of
        Inl err \<Rightarrow> Inl (''failed to sign sigHash of input#'' @ decimal idx @ '', '' @ err)
      | Inr sig \<Rightarrow>
     (case ts_Script W [AddData sig, AddData pubKeyBytes] of
        Inl err \<Rightarrow> Inl (''failed to create unlocking script of input#'' @ decimal idx @ '', '' @ err)
      | Inr sigScript \<Rightarrow> Inr sigScript)))))"

primrec sign_inputs ::
  "'s bch_api \<Rightarrow> (string \<rightharpoonup> 's) \<Rightarrow> wire_tx \<Rightarrow> nat \<Rightarrow> TxIn list \<Rightarrow> wire_tx \<Rightarrow> string + wire_tx" where
  "sign_inputs W keyMap bare idx [] msgTx = Inr msgTx"
| "sign_inputs W keyMap bare idx (i # ins) msgTx =
     (case sign_input W keyMap bare idx i msgTx of
        Inl err \<Rightarrow> Inl err
      | Inr sigScript \<Rightarrow> sign_inputs W keyMap bare (idx + 1) ins
          (msgTx\<lparr>wt_TxIn := (wt_TxIn msgTx)[idx := (wt_TxIn msgTx ! idx)\<lparr>wi_SignatureScript := sigScript\<rparr>]\<rparr>))"

definition signTxAndSerialize :: "'s bch_api \<Rightarrow> BchTx \<Rightarrow> 's PrivateKey list \<Rightarrow> string + string" where
  "signTxAndSerialize W tx privateKeys =
     (if length (bt_TxIn tx) \<noteq> length privateKeys
      then Inl ''length of tx inputs and private keys mismatch''
      else case build_inputs W 0 (bt_TxIn tx) of
        Inl err \<Rightarrow> Inl err
      | Inr ins \<Rightarrow>
          (case build_outputs W 0 (bt_TxOut tx) of
             Inl err \<Rightarrow> Inl err
           | Inr outs \<Rightarrow>
               (let msgTx = \<lparr>wt_Version = bt_Version tx, wt_TxIn = ins, wt_TxOut = outs, wt_LockTime = bt_LockTime tx\<rparr> in
                case sign_inputs W (key_map W privateKeys) msgTx 0 (bt_TxIn tx) msgTx of
                  Inl err \<Rightarrow> Inl err
                | Inr msgTx \<Rightarrow> Inr (hex_EncodeToString (wr_Serialize W msgTx)))))"

definition SignTxAndSerialize :: "'s bch_api \<Rightarrow> BchTx \<Rightarrow> 's PrivateKey list \<Rightarrow> string res" where
  "SignTxAndSerialize W tx privateKeys =
     or_symbol ''Error in SignTxAndSerialize: '' (signTxAndSerialize W tx privateKeys)"

section \<open>Merkle blocks\<close>

definition MerkleProofToRootAndMatches :: "'s bch_api \<Rightarrow> 'x jsval list \<Rightarrow> bytes list res" where
  "MerkleProofToRootAndMatches W args = bind_res (GetOneArrayBuffer args) (\<lambda>proof.
     case mb_BchDecode W proof of
       Some err \<Rightarrow> Inl (PSymbol (''Error in MerkleProofToRootAndMatches: '' @ err))
     | None \<Rightarrow>
         (case mb_Extract W proof of (merkleRoot, bad, matches) \<Rightarrow>
          (case merkleRoot of
             None \<Rightarrow> Inl (PSymbol ''Error extracting txn matches from merkle tree traversal'')
           | Some root \<Rightarrow>
               if bad \<or> length matches = 0
               then Inl (PSymbol ''Error extracting txn matches from merkle tree traversal'')
               else Inr (bytesReverse root # map bytesReverse matches))))"

section \<open>The documented packages\<close>

text \<open>
  Pushes of 20 bytes have a one-byte prefix; \<^verbatim>\<open>PushedData\<close> returns what was pushed (not the one-byte
  numbers, hence the lengths); \<^verbatim>\<open>Deserialize\<close> inverts \<^verbatim>\<open>Serialize\<close> and \<^verbatim>\<open>NewHashFromStr\<close> inverts
  \<^verbatim>\<open>String\<close>.
\<close>

locale bch =
  fixes W :: "'s bch_api"
  assumes Script_p2pkh: "length h = 20
      \<Longrightarrow> ts_Script W [AddOp OP_DUP, AddOp OP_HASH160, AddData h, AddOp OP_EQUALVERIFY, AddOp OP_CHECKSIG]
        = Inr ([OP_DUP, OP_HASH160, 20] @ h @ [OP_EQUALVERIFY, OP_CHECKSIG])"
    and Script_opret: "ts_Script W (AddOp OP_RETURN # map AddData ds) = Inr s \<Longrightarrow> ds \<noteq> []
      \<Longrightarrow> \<forall>d \<in> set ds. 2 \<le> length d \<Longrightarrow> ts_PushedData W s = Inr ds \<and> (\<exists>t. t \<noteq> [] \<and> s = OP_RETURN # t)"
    and Script_sig: "ts_Script W [AddData a, AddData b] = Inr s \<Longrightarrow> 2 \<le> length a \<Longrightarrow> 2 \<le> length b
      \<Longrightarrow> ts_PushedData W s = Inr [a, b]"
    and SignECDSA: "bc_SignECDSA W k d = Inr sig \<Longrightarrow> sig \<noteq> []"
    and PubCompressed: "length (bc_PubCompressed W k) = 33"
    and Deserialize: "wr_Deserialize W (wr_Serialize W t) = Inr t"
    and NewHashFromStr: "ch_NewHashFromStr W (ch_String W h) = Inr h"

text \<open>The outputs \<^verbatim>\<open>ParseTxInHex\<close> itself yields: a public-key hash, or non-trivial data.\<close>

definition standard_out :: "TxOut \<Rightarrow> bool" where
  "standard_out out \<longleftrightarrow>
     (\<exists>h. length h = 20 \<and> to_HexPubkeyHash out = hex_EncodeToString h \<and> to_HexDataElements out = [])
     \<or> (to_HexPubkeyHash out = '''' \<and> (\<exists>ds. ds \<noteq> [] \<and> (\<forall>d \<in> set ds. 2 \<le> length d)
          \<and> to_HexDataElements out = map hex_EncodeToString ds))"

lemma decode_elements_hex:
  "decode_elements W i (map hex_EncodeToString ds) b = Inr (b @ map AddData ds)"
  by (induction ds arbitrary: i b) auto

lemma key_map_hex: "key_map W ks p = Some k \<Longrightarrow> p = hex_EncodeToString (bc_PubCompressed W k)"
proof -
  have "fold (\<lambda>k m. m(hex_EncodeToString (bc_PubCompressed W (prv_key k)) \<mapsto> prv_key k)) ks m p = Some k \<longrightarrow>
      p = hex_EncodeToString (bc_PubCompressed W k)"
    if "\<And>p k. m p = Some k \<Longrightarrow> p = hex_EncodeToString (bc_PubCompressed W k)" for m
    using that
  proof (induction ks arbitrary: m)
    case (Cons a ks)
    have "(m(hex_EncodeToString (bc_PubCompressed W (prv_key a)) \<mapsto> prv_key a)) q = Some j \<Longrightarrow>
        q = hex_EncodeToString (bc_PubCompressed W j)" for q j
      using Cons.prems [of q j] by (cases "q = hex_EncodeToString (bc_PubCompressed W (prv_key a))") auto
    from Cons.IH [OF this] show ?case by simp
  qed simp
  from this [of Map.empty] show "key_map W ks p = Some k \<Longrightarrow> p = hex_EncodeToString (bc_PubCompressed W k)"
    by (simp add: key_map_def)
qed

text \<open>What a signed input reads back as.\<close>

definition reads_as :: "'s bch_api \<Rightarrow> wire_in \<Rightarrow> TxIn \<Rightarrow> bool" where
  "reads_as W w i \<longleftrightarrow> getPubkeyFromSigScript W (wi_SignatureScript w) = Inr (ti_HexPubkey i)
     \<and> ch_String W (wi_Hash w) = op_HexTxID (ti_PreviousOutPoint i)
     \<and> wi_Index w = op_Index (ti_PreviousOutPoint i) \<and> wi_Sequence w = 0"

lemma all_less_Suc_cases: "(\<forall>k < Suc n. P k) \<longleftrightarrow> P 0 \<and> (\<forall>k < n. P (Suc k))"
  by (auto simp: less_Suc_eq_0_disj)

lemma parse_inputs_reads:
  "list_all2 (reads_as W) ws ins \<Longrightarrow>
    parse_inputs W n ws = Inr (map (\<lambda>i. i\<lparr>ti_Sequence := 0, ti_Value := 0\<rparr>) ins)"
  by (induction arbitrary: n rule: list_all2_induct) (auto simp: reads_as_def)

context bch
begin

lemma parse_standard:
  assumes "build_script W n out = Inr s" "standard_out out"
  shows "parse_output W \<lparr>wo_Value = to_Value out, wo_PkScript = s\<rparr> = out"
  using assms(2) unfolding standard_out_def
proof (elim disjE conjE exE)
  fix h :: bytes
  assume h: "length h = 20" "to_HexPubkeyHash out = hex_EncodeToString h" "to_HexDataElements out = []"
  then have "hex_EncodeToString h \<noteq> []" by (cases h) auto
  with h assms(1) have "s = [OP_DUP, OP_HASH160, 20] @ h @ [OP_EQUALVERIFY, OP_CHECKSIG]"
    by (simp add: build_script_def payToPubKeyHashPkScript_def Script_p2pkh)
  with h have "getPubkeyHashFromPkScript s = hex_EncodeToString h" "getOpRetData W s = []"
    by (simp_all add: getPubkeyHashFromPkScript_def getOpRetData_def nth_append OP_DUP_def OP_RETURN_def)
  with h show ?thesis by (simp add: parse_output_def)
next
  fix ds :: "bytes list"
  assume ds: "to_HexPubkeyHash out = ''''" "ds \<noteq> []" "\<forall>d \<in> set ds. 2 \<le> length d"
    "to_HexDataElements out = map hex_EncodeToString ds"
  with assms(1) have "ts_Script W (AddOp OP_RETURN # map AddData ds) = Inr s"
    by (auto simp: build_script_def opRetPkScript_def decode_elements_hex split: sum.splits)
  from Script_opret [OF this ds(2,3)] obtain t where "ts_PushedData W s = Inr ds" "t \<noteq> []" "s = OP_RETURN # t"
    by blast
  then have "getPubkeyHashFromPkScript s = ''''" "getOpRetData W s = map hex_EncodeToString ds"
    by (simp_all add: getPubkeyHashFromPkScript_def getOpRetData_def OP_DUP_def OP_RETURN_def)
  with ds show ?thesis by (simp add: parse_output_def)
qed

lemma build_outputs_parse:
  "build_outputs W n outs = Inr l \<Longrightarrow> \<forall>out \<in> set outs. standard_out out \<Longrightarrow> map (parse_output W) l = outs"
  by (induction outs arbitrary: n l) (auto simp: parse_standard split: sum.splits)

lemma build_inputs_reads:
  assumes "build_inputs W n ins = Inr l" "\<forall>i \<in> set ins. \<exists>h. op_HexTxID (ti_PreviousOutPoint i) = ch_String W h"
  shows "list_all2 (\<lambda>w i. ch_String W (wi_Hash w) = op_HexTxID (ti_PreviousOutPoint i)
     \<and> wi_Index w = op_Index (ti_PreviousOutPoint i) \<and> wi_Sequence w = 0) l ins"
  using assms
proof (induction ins arbitrary: n l)
  case (Cons i ins)
  then obtain h where h: "op_HexTxID (ti_PreviousOutPoint i) = ch_String W h" by auto
  with Cons NewHashFromStr [of h] show ?case by (auto split: sum.splits)
qed simp

lemma sign_input_pubkey:
  assumes "sign_input W (key_map W ks) bare idx i t = Inr s"
  shows "getPubkeyFromSigScript W s = Inr (ti_HexPubkey i)"
proof -
  from assms obtain k sh sig where k: "key_map W ks (ti_HexPubkey i) = Some k"
    and sig: "signTxSigHashECDSA W k sh SigHashAll_ForkID = Inr sig"
    and s: "ts_Script W [AddData sig, AddData (case hex_DecodeString (ti_HexPubkey i) of None \<Rightarrow> [] | Some b \<Rightarrow> b)] = Inr s"
    by (auto simp: sign_input_def Let_def split: option.splits sum.splits)
  from key_map_hex [OF k] have p: "ti_HexPubkey i = hex_EncodeToString (bc_PubCompressed W k)" .
  from sig obtain x where "bc_SignECDSA W k sh = Inr x" "sig = x @ [SigHashAll_ForkID]"
    by (auto simp: signTxSigHashECDSA_def split: sum.splits)
  with SignECDSA [of k sh x] have "2 \<le> length sig" by (cases x) auto
  with s p PubCompressed [of k] have "ts_PushedData W s = Inr [sig, bc_PubCompressed W k]"
    by (intro Script_sig) simp_all
  with p show ?thesis by (simp add: getPubkeyFromSigScript_def)
qed

lemma sign_inputs_reads:
  assumes "sign_inputs W (key_map W ks) bare n ins t = Inr t'" "length (wt_TxIn t) = n + length ins"
  shows "wt_Version t' = wt_Version t \<and> wt_TxOut t' = wt_TxOut t \<and> wt_LockTime t' = wt_LockTime t
    \<and> length (wt_TxIn t') = length (wt_TxIn t)
    \<and> (\<forall>k < n. wt_TxIn t' ! k = wt_TxIn t ! k)
    \<and> (\<forall>k < length ins. \<exists>s. wt_TxIn t' ! (n + k) = (wt_TxIn t ! (n + k))\<lparr>wi_SignatureScript := s\<rparr>
          \<and> getPubkeyFromSigScript W s = Inr (ti_HexPubkey (ins ! k)))"
  using assms
proof (induction ins arbitrary: n t)
  case (Cons i ins)
  then obtain s where s: "sign_input W (key_map W ks) bare n i t = Inr s"
    and rest: "sign_inputs W (key_map W ks) bare (n + 1) ins
      (t\<lparr>wt_TxIn := (wt_TxIn t)[n := (wt_TxIn t ! n)\<lparr>wi_SignatureScript := s\<rparr>]\<rparr>) = Inr t'"
    by (auto split: sum.splits)
  note p = sign_input_pubkey [OF s]
  have len: "length (wt_TxIn (t\<lparr>wt_TxIn := (wt_TxIn t)[n := (wt_TxIn t ! n)\<lparr>wi_SignatureScript := s\<rparr>]\<rparr>))
      = n + 1 + length ins" using Cons.prems(2) by simp
  note IH = Cons.IH [OF rest len]
  have "wt_TxIn t' ! n = (wt_TxIn t ! n)\<lparr>wi_SignatureScript := s\<rparr>"
    using IH Cons.prems(2) by simp
  moreover have "\<exists>s. wt_TxIn t' ! (n + Suc k) = (wt_TxIn t ! (n + Suc k))\<lparr>wi_SignatureScript := s\<rparr>
      \<and> getPubkeyFromSigScript W s = Inr (ti_HexPubkey (ins ! k))" if "k < length ins" for k
    using IH that by (auto simp: nth_list_update)
  moreover have "wt_TxIn t' ! k = wt_TxIn t ! k" if "k < n" for k using IH that by simp
  ultimately have "\<forall>k < length (i # ins). \<exists>s. wt_TxIn t' ! (n + k) = (wt_TxIn t ! (n + k))\<lparr>wi_SignatureScript := s\<rparr>
      \<and> getPubkeyFromSigScript W s = Inr (ti_HexPubkey ((i # ins) ! k))" "\<forall>k < n. wt_TxIn t' ! k = wt_TxIn t ! k"
    using p by (auto simp: all_less_Suc_cases)
  with IH show ?case by simp
qed simp

lemma sign_parse:
  assumes "\<forall>out \<in> set (bt_TxOut tx). standard_out out"
    and "\<forall>i \<in> set (bt_TxIn tx). \<exists>h. op_HexTxID (ti_PreviousOutPoint i) = ch_String W h"
    and "SignTxAndSerialize W tx ks = Inr s"
  shows "\<exists>txid. ParseTxInHex W s = Inr (tx\<lparr>bt_HexTxID := txid,
      bt_TxIn := map (\<lambda>i. i\<lparr>ti_Sequence := 0, ti_Value := 0\<rparr>) (bt_TxIn tx)\<rparr>)"
proof -
  from assms(3) obtain ins outs t' where ins: "build_inputs W 0 (bt_TxIn tx) = Inr ins"
    and outs: "build_outputs W 0 (bt_TxOut tx) = Inr outs"
    and sign: "sign_inputs W (key_map W ks)
        \<lparr>wt_Version = bt_Version tx, wt_TxIn = ins, wt_TxOut = outs, wt_LockTime = bt_LockTime tx\<rparr> 0 (bt_TxIn tx)
        \<lparr>wt_Version = bt_Version tx, wt_TxIn = ins, wt_TxOut = outs, wt_LockTime = bt_LockTime tx\<rparr> = Inr t'"
    and s: "s = hex_EncodeToString (wr_Serialize W t')"
    by (auto simp: SignTxAndSerialize_def signTxAndSerialize_def or_symbol_def Let_def split: sum.splits if_splits)
  note r = build_inputs_reads [OF ins assms(2)]
  note t' = sign_inputs_reads [OF sign, simplified, OF list_all2_lengthD [OF r]]
  have "list_all2 (reads_as W) (wt_TxIn t') (bt_TxIn tx)"
    unfolding list_all2_conv_all_nth
  proof (intro conjI allI impI)
    show "length (wt_TxIn t') = length (bt_TxIn tx)" using t' list_all2_lengthD [OF r] by simp
    fix k assume "k < length (wt_TxIn t')"
    then have k: "k < length (bt_TxIn tx)" "k < length ins" using t' list_all2_lengthD [OF r] by simp_all
    from t' k(1) obtain sc where "wt_TxIn t' ! k = (ins ! k)\<lparr>wi_SignatureScript := sc\<rparr>"
      "getPubkeyFromSigScript W sc = Inr (ti_HexPubkey (bt_TxIn tx ! k))" by blast
    with list_all2_nthD [OF r k(2)] show "reads_as W (wt_TxIn t' ! k) (bt_TxIn tx ! k)"
      by (simp add: reads_as_def)
  qed
  from parse_inputs_reads [OF this, of 0] t' build_outputs_parse [OF outs assms(1)]
  show ?thesis
    by (intro exI [of _ "ch_String W (wr_TxHash W t')"], cases tx)
      (simp add: ParseTxInHex_def parseTxInHex_def or_symbol_def s Deserialize)
qed

end

section \<open>A small instance\<close>

text \<open>Scripts with pushes of up to 75 bytes, and a serialisation of transactions with unary lengths.\<close>

primrec mini_script :: "script_item list \<Rightarrow> bytes" where
  "mini_script [] = []"
| "mini_script (x # xs) = (case x of AddOp b \<Rightarrow> [b] | AddData d \<Rightarrow> of_nat (length d) # d) @ mini_script xs"

fun mini_pushes :: "bytes \<Rightarrow> bytes list" where
  "mini_pushes [] = []"
| "mini_pushes (b # bs) =
     (if 1 \<le> unat b \<and> unat b \<le> 75 then take (unat b) bs # mini_pushes (drop (unat b) bs) else mini_pushes bs)"

definition small_pushes :: "script_item list \<Rightarrow> bool" where
  "small_pushes xs \<longleftrightarrow> list_all (\<lambda>x. case x of AddOp b \<Rightarrow> True | AddData d \<Rightarrow> length d \<le> 75) xs"

definition put_nat :: "nat \<Rightarrow> bytes" where
  "put_nat n = replicate n 1 @ [0]"

primrec get_nat :: "bytes \<Rightarrow> nat \<times> bytes" where
  "get_nat [] = (0, [])"
| "get_nat (b # bs) = (if b = 0 then (0, bs) else case get_nat bs of (n, r) \<Rightarrow> (Suc n, r))"

definition put_buf :: "bytes \<Rightarrow> bytes" where
  "put_buf b = put_nat (length b) @ b"

definition get_buf :: "bytes \<Rightarrow> bytes \<times> bytes" where
  "get_buf b = (case get_nat b of (n, r) \<Rightarrow> (take n r, drop n r))"

definition put_in :: "wire_in \<Rightarrow> bytes" where
  "put_in i = put_buf (wi_Hash i) @ put_buf (wi_SignatureScript i) @ be_bytes 4 (unat (wi_Index i))
     @ be_bytes 4 (unat (wi_Sequence i))"

definition get_in :: "bytes \<Rightarrow> wire_in \<times> bytes" where
  "get_in b = (case get_buf b of (h, b) \<Rightarrow> case get_buf b of (s, b) \<Rightarrow>
     (\<lparr>wi_Hash = h, wi_Index = of_nat (be_val (take 4 b)), wi_SignatureScript = s,
       wi_Sequence = of_nat (be_val (take 4 (drop 4 b)))\<rparr>, drop 8 b))"

definition put_out :: "wire_out \<Rightarrow> bytes" where
  "put_out out = put_buf (wo_PkScript out) @ be_bytes 8 (unat (wo_Value out))"

definition get_out :: "bytes \<Rightarrow> wire_out \<times> bytes" where
  "get_out b = (case get_buf b of (s, b) \<Rightarrow>
     (\<lparr>wo_Value = of_nat (be_val (take 8 b)), wo_PkScript = s\<rparr>, drop 8 b))"

primrec get_many :: "(bytes \<Rightarrow> 'a \<times> bytes) \<Rightarrow> nat \<Rightarrow> bytes \<Rightarrow> 'a list \<times> bytes" where
  "get_many g 0 b = ([], b)"
| "get_many g (Suc n) b = (case g b of (x, b) \<Rightarrow> case get_many g n b of (xs, b) \<Rightarrow> (x # xs, b))"

definition put_tx :: "wire_tx \<Rightarrow> bytes" where
  "put_tx t = be_bytes 4 (unat (wt_Version t)) @ be_bytes 4 (unat (wt_LockTime t))
     @ put_nat (length (wt_TxIn t)) @ concat (map put_in (wt_TxIn t))
     @ put_nat (length (wt_TxOut t)) @ concat (map put_out (wt_TxOut t))"

definition get_tx :: "bytes \<Rightarrow> wire_tx" where
  "get_tx b = (case get_nat (drop 8 b) of (n, r) \<Rightarrow> case get_many get_in n r of (ins, r) \<Rightarrow>
     case get_nat r of (n, r) \<Rightarrow> case get_many get_out n r of (outs, r) \<Rightarrow>
     \<lparr>wt_Version = of_nat (be_val (take 4 b)), wt_TxIn = ins, wt_TxOut = outs,
      wt_LockTime = of_nat (be_val (take 4 (drop 4 b)))\<rparr>)"

definition mini_bch :: "byte bch_api" where
  "mini_bch = \<lparr>bc_PubCompressed = (\<lambda>k. replicate 33 k), bc_SignECDSA = (\<lambda>k d. Inr (k # take 4 d)),
     bc_Hash160 = (\<lambda>b. take 20 (b @ replicate 20 0)), bc_hexErr = (\<lambda>s. ''hex''),
     ts_Script = (\<lambda>xs. if small_pushes xs then Inr (mini_script xs) else Inl ''too long''),
     ts_PushedData = (\<lambda>s. Inr (mini_pushes s)),
     ts_CalcSignatureHash = (\<lambda>s bare ty t n v. Inr (take 8 s)),
     wr_Deserialize = (\<lambda>b. Inr (get_tx b)), wr_Serialize = put_tx, wr_TxHash = (\<lambda>t. [1, 2]),
     ch_String = (\<lambda>h. hex_EncodeToString (rev h)),
     ch_NewHashFromStr = (\<lambda>s. case hex_DecodeString s of None \<Rightarrow> Inl ''hex'' | Some b \<Rightarrow> Inr (rev b)),
     mb_BchDecode = (\<lambda>b. None), mb_Extract = (\<lambda>b. (Some b, False, [b]))\<rparr>"

lemma of_nat_unat_mod:
  "of_nat (unat (x :: 32 word) mod 4294967296) = x" "of_nat (unat (v :: 64 word) mod 18446744073709551616) = v"
proof -
  have "unat x < 4294967296" "unat v < 18446744073709551616"
    using unsigned_less [of x] unsigned_less [of v] by (simp_all add: word_less_nat_alt)
  then show "of_nat (unat x mod 4294967296) = x" "of_nat (unat v mod 18446744073709551616) = v" by simp_all
qed

lemma get_put_nat: "get_nat (put_nat n @ r) = (n, r)"
  by (induction n) (simp_all add: put_nat_def)

lemma get_put_buf: "get_buf (put_buf b @ r) = (b, r)"
  by (simp add: get_buf_def put_buf_def get_put_nat)

lemma get_put_in: "get_in (put_in i @ r) = (i, r)"
  by (cases i) (simp add: get_in_def put_in_def get_put_buf be_val_be_bytes of_nat_unat_mod)

lemma get_put_out: "get_out (put_out out @ r) = (out, r)"
  by (cases out) (simp add: get_out_def put_out_def get_put_buf be_val_be_bytes of_nat_unat_mod)

lemma get_put_many: "(\<And>x r. g (p x @ r) = (x, r)) \<Longrightarrow> get_many g (length xs) (concat (map p xs) @ r) = (xs, r)"
  by (induction xs) auto

lemma get_put_tx: "get_tx (put_tx t) = t"
  using get_put_many [of get_in put_in "wt_TxIn t"] get_put_many [of get_out put_out "wt_TxOut t" "[]"]
  by (cases t) (simp add: get_tx_def put_tx_def get_put_nat get_put_in get_put_out be_val_be_bytes of_nat_unat_mod)

lemma mini_pushes_data:
  "small_pushes (map AddData ds) \<Longrightarrow> \<forall>d \<in> set ds. 1 \<le> length d \<Longrightarrow> mini_pushes (mini_script (map AddData ds)) = ds"
proof (induction ds)
  case (Cons d ds)
  then have "unat (of_nat (length d) :: byte) = length d"
    by (simp add: small_pushes_def unat_of_nat)
  with Cons show ?case by (simp add: small_pushes_def)
qed simp

interpretation mini: bch mini_bch
proof unfold_locales
  fix h :: bytes
  assume "length h = 20"
  then show "ts_Script mini_bch [AddOp OP_DUP, AddOp OP_HASH160, AddData h, AddOp OP_EQUALVERIFY, AddOp OP_CHECKSIG]
      = Inr ([OP_DUP, OP_HASH160, 20] @ h @ [OP_EQUALVERIFY, OP_CHECKSIG])"
    by (simp add: mini_bch_def small_pushes_def)
next
  fix ds s
  assume "ts_Script mini_bch (AddOp OP_RETURN # map AddData ds) = Inr s" "ds \<noteq> []" "\<forall>d \<in> set ds. 2 \<le> length d"
  then have "small_pushes (map AddData ds)" "s = OP_RETURN # mini_script (map AddData ds)"
      "\<forall>d \<in> set ds. 1 \<le> length d" "mini_script (map AddData ds) \<noteq> []"
    by (auto simp: mini_bch_def small_pushes_def neq_Nil_conv split: if_splits)
  then show "ts_PushedData mini_bch s = Inr ds \<and> (\<exists>t. t \<noteq> [] \<and> s = OP_RETURN # t)"
    by (simp add: mini_bch_def mini_pushes_data OP_RETURN_def)
next
  fix a b s
  assume "ts_Script mini_bch [AddData a, AddData b] = Inr s" "2 \<le> length a" "2 \<le> length b"
  then show "ts_PushedData mini_bch s = Inr [a, b]"
    using mini_pushes_data [of "[a, b]"] by (auto simp: mini_bch_def split: if_splits)
qed (auto simp: mini_bch_def get_put_tx)

section \<open>Properties\<close>


definition spend_tx :: BchTx where
  "spend_tx = \<lparr>bt_HexTxID = '''', bt_Version = 2,
     bt_TxIn = [\<lparr>ti_PreviousOutPoint = \<lparr>op_HexTxID = hex_EncodeToString [10, 11], op_Index = 1\<rparr>,
       ti_HexPubkey = hex_EncodeToString (replicate 33 7), ti_Sequence = 4294967295, ti_Value = 500\<rparr>],
     bt_TxOut = [\<lparr>to_Value = 400, to_HexPubkeyHash = hex_EncodeToString (replicate 20 9), to_HexDataElements = []\<rparr>,
       \<lparr>to_Value = 0, to_HexPubkeyHash = '''', to_HexDataElements = [hex_EncodeToString [1, 2, 3]]\<rparr>],
     bt_LockTime = 0\<rparr>"


end
