(* ===== verification/Printing.thy ===== *)
theory Printing
  imports GoText
begin

text \<open>
  What a script prints: \<^verbatim>\<open>script/extension/print.go\<close>, over the part of the standard package \<^verbatim>\<open>fmt\<close> it uses. Both
  functions append to the standard output of the process, which is an argument and the result.
\<close>

section \<open>Printed values\<close>

text \<open>
  The arguments as the engine exports them to \<^verbatim>\<open>any\<close>: a string, an integer, a boolean, nil (for \<^verbatim>\<open>null\<close> and
  \<^verbatim>\<open>undefined\<close>), an array; any other value is of the type \<open>'f\<close>.
\<close>

datatype 'f exported =
    EStr string
  | EInt int64
  | EBool bool
  | ENil
  | ESlice "'f exported list"
  | EOther 'f

text \<open>
  The parameters: how the other values are printed, the names of their types, and what \<^verbatim>\<open>Printf\<close> does from a
  directive on that is neither \<^verbatim>\<open>%v\<close> nor \<^verbatim>\<open>%%\<close>.
\<close>

record 'f fmt_api =
  fm_value :: "'f \<Rightarrow> string"
  fm_type :: "'f \<Rightarrow> string"
  fm_rest :: "string \<Rightarrow> 'f exported list \<Rightarrow> string"

primrec join_with :: "string \<Rightarrow> string list \<Rightarrow> string" where
  "join_with sep [] = ''''"
| "join_with sep (s # ss) = (if ss = [] then s else s @ sep @ join_with sep ss)"

text \<open>The verb \<^verbatim>\<open>%v\<close>.\<close>

fun fmt_v :: "'f fmt_api \<Rightarrow> 'f exported \<Rightarrow> string" where
  "fmt_v F (EStr s) = s"
| "fmt_v F (EInt i) = itoa (sint i)"
| "fmt_v F (EBool b) = (if b then ''true'' else ''false'')"
| "fmt_v F ENil = ''<nil>''"
| "fmt_v F (ESlice l) = ''['' @ join_with '' '' (map (fmt_v F) l) @ '']''"
| "fmt_v F (EOther x) = fm_value F x"

text \<open>Arguments no directive used: nil as it is, any other with its type.\<close>

fun fmt_extra :: "'f fmt_api \<Rightarrow> 'f exported \<Rightarrow> string" where
  "fmt_extra F (EStr s) = ''string='' @ s"
| "fmt_extra F (EInt i) = ''int64='' @ fmt_v F (EInt i)"
| "fmt_extra F (EBool b) = ''bool='' @ fmt_v F (EBool b)"
| "fmt_extra F ENil = ''<nil>''"
| "fmt_extra F (ESlice l) = ''[]interface {}='' @ fmt_v F (ESlice l)"
| "fmt_extra F (EOther x) = fm_type F x @ ''='' @ fm_value F x"

definition fmt_end :: "'f fmt_api \<Rightarrow> 'f exported list \<Rightarrow> string" where
  "fmt_end F args = (if args = [] then '''' else ''%!(EXTRA '' @ join_with '', '' (map (fmt_extra F) args) @ '')'')"

fun fmt_format :: "'f fmt_api \<Rightarrow> string \<Rightarrow> 'f exported list \<Rightarrow> string" where
  "fmt_format F [] args = fmt_end F args"
| "fmt_format F [c] args = (if c = CHR ''%'' then ''%!(NOVERB)'' @ fmt_end F args else c # fmt_end F args)"
| "fmt_format F (c # v # s) args =
     (if c \<noteq> CHR ''%'' then c # fmt_format F (v # s) args
      else if v = CHR ''%'' then CHR ''%'' # fmt_format F s args
      else if v = CHR ''v'' then
        (case args of
           [] \<Rightarrow> ''%!v(MISSING)'' @ fmt_format F s []
         | a # args \<Rightarrow> fmt_v F a @ fmt_format F s args)
      else fm_rest F (c # v # s) args)"

section \<open>print.go\<close>

definition Println :: "'f fmt_api \<Rightarrow> 'f exported list \<Rightarrow> bytes \<Rightarrow> bytes" where
  "Println F a out = out @ bytes_of_string (join_with '' '' (map (fmt_v F) a)) @ [10]"

definition Printf :: "'f fmt_api \<Rightarrow> string \<Rightarrow> 'f exported list \<Rightarrow> bytes \<Rightarrow> bytes" where
  "Printf F format a out = out @ bytes_of_string (fmt_format F format a)"

section \<open>Lemmas\<close>

text \<open>A text without a percent sign is printed as it is, after it come the unused arguments.\<close>

lemma fmt_format_plain: "CHR ''%'' \<notin> set s \<Longrightarrow> fmt_format F s args = s @ fmt_end F args"
  by (induction F s args rule: fmt_format.induct) auto

lemma fmt_format_text: "CHR ''%'' \<notin> set s \<Longrightarrow> fmt_format F (s @ t) args = s @ fmt_format F t args"
proof (induction s)
  case (Cons c s)
  then show ?case by (cases "s @ t") auto
qed simp

text \<open>\<^verbatim>\<open>Printf\<close> of a line of \<^verbatim>\<open>%v\<close> separated by spaces is \<^verbatim>\<open>Println\<close>.\<close>

lemma fmt_format_verbs:
  "args \<noteq> [] \<Longrightarrow> fmt_format F (join_with '' '' (replicate (length args) ''%v'') @ t) args
    = join_with '' '' (map (fmt_v F) args) @ fmt_format F t []"
proof (induction args)
  case (Cons a args)
  show ?case
  proof (cases args)
    case (Cons b bs)
    then have "join_with '' '' (replicate (length (a # args)) ''%v'') = ''%v '' @ join_with '' '' (replicate (length args) ''%v'')"
      by simp
    moreover have "fmt_format F ('' '' @ s) as = '' '' @ fmt_format F s as" for s as
      by (rule fmt_format_text) simp
    ultimately show ?thesis using Cons.IH Cons by simp
  qed simp
qed simp

lemma Printf_is_Println:
  assumes "args \<noteq> []"
  shows "Printf F (join_with '' '' (replicate (length args) ''%v'') @ [CHR 0x0A]) args out = Println F args out"
  using fmt_format_verbs [OF assms, of F "[CHR 0x0A]"]
  by (simp add: Printf_def Println_def fmt_end_def bytes_of_string_def)

text \<open>Printing only adds to the output; a text that is a line by itself is one line of it.\<close>

lemma Println_line:
  "clean_line (bytes_of_string s) \<Longrightarrow> \<exists>l. clean_line l \<and> Println F [EStr s] out = out @ l @ [10]"
  by (auto simp: Println_def)

text \<open>The two calls of the tests.\<close>

lemma print_test_values:
  "Println F [ESlice [EStr ''1234abcd1'', EStr ''1234abcd2'', EStr ''1234abcd3'']] []
    = bytes_of_string (''[1234abcd1 1234abcd2 1234abcd3]'' @ [CHR 0x0A])"
  "Printf F (''%v-%v'' @ [CHR 0x0A]) [EStr ''abc'', EStr ''1234''] [] = bytes_of_string (''abc-1234'' @ [CHR 0x0A])"
  by (simp_all add: Println_def Printf_def fmt_end_def bytes_of_string_def)

lemma print_directives:
  "fmt_format F ''100%%'' [] = ''100%''" "fmt_format F ''a%'' [] = ''a%!(NOVERB)''"
  "fmt_format F ''%v'' [] = ''%!v(MISSING)''" "fmt_format F ''%v'' [ENil, EBool True, ENil] = ''<nil>%!(EXTRA bool=true, <nil>)''"
  by (simp_all add: fmt_end_def)

end
