(* ===== verification/ScriptRuntime.thy ===== *)
theory ScriptRuntime
  imports Args GoText KeyStore Printing
begin

text \<open>
  What a script runs on: the main program of \<^verbatim>\<open>script/cmd/main.go\<close>, which feeds the lines of its standard
  input to the script, and the small functions of \<^verbatim>\<open>script/extension\<close> on the processor
  (\<^verbatim>\<open>cpu.go\<close>), on compression (\<^verbatim>\<open>compress.go\<close>) and on time (\<^verbatim>\<open>system.go\<close>). The script engine, the
  counters of the processor and the compression package are parameters.
\<close>

section \<open>The main program\<close>

text \<open>
  \<open>se_Run\<close> makes an engine with the functions registered and runs the script; \<open>se_has\<close> tells whether a
  global is a function; \<open>se_call\<close> calls it, giving an error and a result; \<open>se_Export\<close> is the result as a
  string, as \<^verbatim>\<open>ExportTo\<close> leaves it. Running and calling also give what the script printed meanwhile, with
  the functions of \<open>Printing\<close>.
\<close>

record ('vm, 'r) script_env =
  se_Run :: "string \<Rightarrow> bytes \<times> (string + 'vm)"
  se_has :: "'vm \<Rightarrow> string \<Rightarrow> bool"
  se_call :: "'vm \<Rightarrow> string \<Rightarrow> string \<Rightarrow> 'vm \<times> bytes \<times> string option \<times> 'r"
  se_Export :: "'vm \<Rightarrow> 'r \<Rightarrow> string res"

text \<open>
  The loop over the lines: what appears on the standard output, from the script and from the loop, and the
  engine or the panic it ends with.
\<close>

primrec script_lines :: "('vm, 'r) script_env \<Rightarrow> bytes list \<Rightarrow> 'vm \<Rightarrow> bytes \<times> 'vm res" where
  "script_lines V [] vm = ([], Inr vm)"
| "script_lines V (line # ls) vm =
     (case se_call V vm ''handleInput'' (string_of_bytes line) of
        (vm, printed, err, r) \<Rightarrow>
          (case se_Export V vm r of
             Inl p \<Rightarrow> (printed, Inl p)
           | Inr outStr \<Rightarrow>
               (case script_lines V ls vm of
                  (out, e) \<Rightarrow> (printed @ bytes_of_string outStr @ [10] @ out, e))))"

definition script_main ::
  "('vm, 'r) script_env \<Rightarrow> string \<Rightarrow> string \<Rightarrow> fs \<Rightarrow> bytes \<Rightarrow> bytes \<times> 'vm res" where
  "script_main V randomSeedStr fileName f stdin =
     (case f fileName of
        None \<Rightarrow> ([], Inl (PExit (''unable to read file: open '' @ fileName @ '': no such file or directory'')))
      | Some script \<Rightarrow>
     (case se_Run V (string_of_bytes script) of
        (printed, Inl err) \<Rightarrow> (printed, Inl (PExit (''unable to execute script file: '' @ err)))
      | (printed, Inr vm) \<Rightarrow>
          if \<not> se_has V vm ''setRandomSeed'' then (printed, Inl (PExit ''cannot find the 'setRandomSeed' function''))
          else if \<not> se_has V vm ''handleInput'' then (printed, Inl (PExit ''cannot find the 'handleInput' function''))
          else (case se_call V vm ''setRandomSeed'' randomSeedStr of
             (vm, seeding, Some err, _) \<Rightarrow> (printed @ seeding, Inl (PExit (''failed to run setRandomSeed: '' @ err)))
           | (vm, seeding, None, _) \<Rightarrow>
               (case script_lines V (scan_lines stdin) vm of (out, e) \<Rightarrow> (printed @ seeding @ out, e)))))"

text \<open>For each line what the script prints and its answer, when no export panics.\<close>

primrec outputs :: "('vm, 'r) script_env \<Rightarrow> bytes list \<Rightarrow> 'vm \<Rightarrow> (bytes \<times> string) list res" where
  "outputs V [] vm = Inr []"
| "outputs V (line # ls) vm =
     (case se_call V vm ''handleInput'' (string_of_bytes line) of (vm, printed, err, r) \<Rightarrow>
      bind_res (se_Export V vm r) (\<lambda>s. bind_res (outputs V ls vm) (\<lambda>l. Inr ((printed, s) # l))))"

lemma script_lines_outputs:
  "outputs V ls vm = Inr ss \<Longrightarrow>
    fst (script_lines V ls vm) = concat (map (\<lambda>(p, s). p @ bytes_of_string s @ [10]) ss)
    \<and> (\<exists>vm'. snd (script_lines V ls vm) = Inr vm') \<and> length ss = length ls"
proof (induction ls arbitrary: vm ss)
  case (Cons l ls)
  obtain vm' printed err r where c: "se_call V vm ''handleInput'' (string_of_bytes l) = (vm', printed, err, r)"
    by (metis prod_cases4)
  with Cons.prems obtain s ss' where s: "se_Export V vm' r = Inr s" "outputs V ls vm' = Inr ss'" "ss = (printed, s) # ss'"
    by auto
  from Cons.IH [OF s(2)] c s show ?case by (auto split: prod.split)
qed simp

text \<open>The engine goes through the lines in order, whatever the input is cut into.\<close>

lemma script_lines_append:
  "script_lines V (xs @ ys) vm =
     (case script_lines V xs vm of
        (out, Inl p) \<Rightarrow> (out, Inl p)
      | (out, Inr vm) \<Rightarrow> (case script_lines V ys vm of (out', e) \<Rightarrow> (out @ out', e)))"
  by (induction xs arbitrary: vm) (auto split: prod.split sum.split)

lemma scan_printed_lines:
  assumes "\<forall>(pl, s) \<in> set os. (\<forall>l \<in> set pl. clean_line l) \<and> clean_line (bytes_of_string s)"
  shows "scan_lines (concat (map (\<lambda>(p, s). p @ bytes_of_string s @ [10]) (map (\<lambda>(pl, s). (as_lines pl, s)) os)))
    = concat (map (\<lambda>(pl, s). pl @ [bytes_of_string s]) os)"
proof -
  let ?ls = "concat (map (\<lambda>(pl, s). pl @ [bytes_of_string s]) os)"
  have "concat (map (\<lambda>(p, s). p @ bytes_of_string s @ [10]) (map (\<lambda>(pl, s). (as_lines pl, s)) os)) = as_lines ?ls"
    by (induction os) (auto simp: as_lines_def)
  moreover have "\<forall>l \<in> set ?ls. clean_line l" using assms by auto
  ultimately show ?thesis using scan_lines_join [of ?ls] by (simp add: as_lines_def)
qed

lemma answers_alone_iff:
  "concat (map (\<lambda>(pl, s). pl @ [f s]) os) = map (\<lambda>(pl, s). f s) os \<longleftrightarrow> (\<forall>(pl, s) \<in> set os. pl = [])"
proof
  assume eq: "concat (map (\<lambda>(pl, s). pl @ [f s]) os) = map (\<lambda>(pl, s). f s) os"
  have "length (concat (map (\<lambda>(pl, s). pl @ [f s]) os)) = length os + sum_list (map (\<lambda>(pl, s). length pl) os)"
    by (induction os) auto
  with eq have "sum_list (map (\<lambda>(pl, s). length pl) os) = 0" by simp
  then show "\<forall>(pl, s) \<in> set os. pl = []" by (auto simp: sum_list_eq_0_iff)
qed (induction os, auto)

text \<open>
  C21: the runner answers line by line as long as the script is silent. A reader that scans the output by
  lines, as the invoker does, gets for each line of input first the lines the script printed meanwhile and
  then its answer, if none of them contains a newline, ends in a carriage return or fills the buffer of the
  scanner. So it gets the answers, one for each line of input, exactly if no call printed anything: printing,
  meant for debugging, makes the reader take a printed line for an answer.
\<close>

theorem runner_answers_line_by_line:
  assumes "outputs V ls vm = Inr (map (\<lambda>(pl, s). (as_lines pl, s)) os)"
    and "\<forall>(pl, s) \<in> set os. (\<forall>l \<in> set pl. clean_line l) \<and> clean_line (bytes_of_string s)"
  shows "scan_lines (fst (script_lines V ls vm)) = concat (map (\<lambda>(pl, s). pl @ [bytes_of_string s]) os)
    \<and> length os = length ls
    \<and> (scan_lines (fst (script_lines V ls vm)) = map (\<lambda>(pl, s). bytes_of_string s) os \<longleftrightarrow> (\<forall>(pl, s) \<in> set os. pl = []))"
  using script_lines_outputs [OF assms(1)] scan_printed_lines [OF assms(2)] answers_alone_iff [of bytes_of_string os]
  by simp

text \<open>A script that prints the line it is given before it answers.\<close>

definition echo_script :: "(nat, string) script_env" where
  "echo_script = \<lparr>se_Run = (\<lambda>s. ([], Inr 0)), se_has = (\<lambda>vm n. True),
     se_call = (\<lambda>vm n a. (Suc vm, Println \<lparr>fm_value = id, fm_type = id, fm_rest = (\<lambda>s a. '''')\<rparr> [EStr a] [], None, ''ok'')),
     se_Export = (\<lambda>vm r. Inr r)\<rparr>"

theorem runner_answers_line_by_line_witness:
  "scan_lines (fst (script_lines echo_script [[97], [98]] 0)) = [[97], [111, 107], [98], [111, 107]]"
proof -
  have "outputs echo_script [[97], [98]] 0 = Inr (map (\<lambda>(pl, s). (as_lines pl, s)) [([[97]], ''ok''), ([[98]], ''ok'')])"
    by (simp add: echo_script_def Println_def)
  from runner_answers_line_by_line [OF this] show ?thesis
    by (simp add: clean_line_def bytes_of_string_def)
qed

section \<open>cpu.go\<close>

text \<open>The three counter functions differ in the value they read.\<close>

definition tsc_buffer :: "uint64 \<Rightarrow> 'x jsval list \<Rightarrow> bytes res" where
  "tsc_buffer tsc args =
     (if length args \<noteq> 0 then Inl IncorrectArgumentCount else Inr (be_bytes 8 (unat tsc)))"

definition GetTSC :: "uint64 \<Rightarrow> 'x jsval list \<Rightarrow> bytes res" where
  "GetTSC TSCOverhead args = tsc_buffer TSCOverhead args"

definition GetTSCBenchStart :: "uint64 \<Rightarrow> 'x jsval list \<Rightarrow> bytes res" where
  "GetTSCBenchStart BenchStart args = tsc_buffer BenchStart args"

definition GetTSCBenchEnd :: "uint64 \<Rightarrow> 'x jsval list \<Rightarrow> bytes res" where
  "GetTSCBenchEnd BenchEnd args = tsc_buffer BenchEnd args"

text \<open>The processor's description, marshalled to JSON.\<close>

definition GetCPUID :: "string + string \<Rightarrow> string res" where
  "GetCPUID marshalled =
     (case marshalled of Inl err \<Rightarrow> Inl (PSymbol (''Failed to marshal CPU info: '' @ err)) | Inr bz \<Rightarrow> Inr bz)"

lemma GetTSC_reads_back: "GetTSC t [] = Inr b \<Longrightarrow> length b = 8 \<and> of_nat (be_val b) = t"
proof -
  have "unat t < 256 ^ 8" using unsigned_less [of t] by (simp add: word_less_nat_alt)
  then show "GetTSC t [] = Inr b \<Longrightarrow> length b = 8 \<and> of_nat (be_val b) = t"
    by (auto simp: GetTSC_def tsc_buffer_def be_val_be_bytes)
qed

section \<open>compress.go\<close>

record zstd_api =
  zs_EncodeAll :: "bytes \<Rightarrow> bytes"
  zs_DecodeAll :: "bytes \<Rightarrow> string + bytes"

definition ZstdDecompress :: "zstd_api \<Rightarrow> 'x jsval list \<Rightarrow> bytes res" where
  "ZstdDecompress Z args = bind_res (GetOneArrayBuffer args) (\<lambda>src.
     case zs_DecodeAll Z src of
       Inl err \<Rightarrow> Inl (PSymbol (''error in ZstdDecompress: '' @ err))
     | Inr bz \<Rightarrow> Inr bz)"

definition ZstdCompress :: "zstd_api \<Rightarrow> 'x jsval list \<Rightarrow> bytes res" where
  "ZstdCompress Z args = bind_res (GetOneArrayBuffer args) (\<lambda>src. Inr (zs_EncodeAll Z src))"

definition ND_ReadTsc :: uint64 where "ND_ReadTsc = 0"
definition ND_GetEphemeralID :: string where "ND_GetEphemeralID = ''''"

lemma Zstd_round_trip:
  assumes "\<And>b. zs_DecodeAll Z (zs_EncodeAll Z b) = Inr b" "ZstdCompress Z args = Inr c"
  shows "\<exists>b. args = [JBuf b] \<and> ZstdDecompress Z [JBuf c] = Inr b"
  using assms by (auto simp: ZstdCompress_def ZstdDecompress_def)

section \<open>system.go\<close>

text \<open>
  The duration, in nanoseconds, that is slept; \<^verbatim>\<open>time.Sleep\<close> returns at once unless it is positive. The
  product is taken in 64 bits.
\<close>

definition Sleep_ns :: "uint64 \<Rightarrow> int64" where "Sleep_ns seconds = 1000000000 * seconds"
definition SleepMs_ns :: "uint64 \<Rightarrow> int64" where "SleepMs_ns ms = 1000000 * ms"

lemma Sleep_ns_exact:
  assumes "unat s \<le> 9223372036"
  shows "sint (Sleep_ns s) = 1000000000 * int (unat s)"
proof -
  have "- (2 ^ 63) \<le> 1000000000 * int n \<and> 1000000000 * int n < 2 ^ 63" if "n \<le> 9223372036" for n
    using that by simp
  note r = this [OF assms]
  have e: "(of_int (1000000000 * int (unat s)) :: int64) = 1000000000 * s" by simp
  show ?thesis
    using sint_of_int64 [OF conjunct1 [OF r] conjunct2 [OF r]] unfolding e Sleep_ns_def .
qed

text \<open>One second more and the sleep is over at once.\<close>

lemma Sleep_ns_wraps: "sint (Sleep_ns 9223372037) < 0"
  by (simp add: Sleep_ns_def)

end
