(* ===== verification/ScriptNatives.thy ===== *)
theory ScriptNatives
  imports MapCodec KeyDerive Merkle Hash Crypto BchTx HttpRequests ScriptRuntime
begin

text \<open>
  The functions a script finds in its engine: the table of \<^verbatim>\<open>script/cmd/register.go\<close> (the one of
  \<^verbatim>\<open>indexer/register.go\<close> is the same). A Go function that takes the call itself is installed as it is; the
  engine wraps any other, converting the arguments by reflection, which is code of the engine.
\<close>

section \<open>Values and libraries\<close>

text \<open>Among the Go values a script holds the functions tell apart \<^verbatim>\<open>Uint256\<close> and the ordered maps.\<close>

type_synonym ('ti, 'ts, 'tb, 'z) script_val = "(Uint256 + ('ti, 'ts, 'tb) script_map + 'z) jsval"

text \<open>What \<^verbatim>\<open>SerializeMaps\<close> sees of its arguments.\<close>

fun map_arg :: "('ti, 'ts, 'tb, 'z) script_val \<Rightarrow> ('ti, 'ts, 'tb) script_map jsval" where
  "map_arg (JGo (Inr (Inl m))) = JGo m"
| "map_arg (JGo v) = JOther"
| "map_arg (JInt i) = JInt i"
| "map_arg (JStr s) = JStr s"
| "map_arg (JBuf b) = JBuf b"
| "map_arg JOther = JOther"

datatype ('ti, 'ts, 'tb, 'p, 'k) outcome =
    RBuf bytes
  | RStr string
  | RBool bool
  | RInt int
  | RU32 uint32
  | RResult "bytes option" bool
  | RPublicKey "'p PublicKey"
  | RBip32Key "'k Bip32Key"
  | RMap "('ti, 'ts, 'tb) script_map" bytes
  | RReader OrderedMapReader
  | RBufs "bytes list"
  | RVerdict bool string

text \<open>The packages, and the two things of the outside world the functions read: counters and the network.\<close>

record ('ti, 'ei, 'ts, 'es, 'tb, 'eb, 's, 'p, 'k, 'q, 'w, 'u, 'c) script_libs =
  lb_int :: "('ti, 'ei, int64) btree_api"
  lb_str :: "('ts, 'es, string) btree_api"
  lb_buf :: "('tb, 'eb, bytes) btree_api"
  lb_msgp :: msgp_api
  lb_u256 :: uint256_api
  lb_hash :: hash_api
  lb_geth :: geth_api
  lb_aead :: aead_api
  lb_key :: "('s, 'p) key_api"
  lb_bip32 :: "'k bip32_api"
  lb_bch :: "'q bch_api"
  lb_zstd :: zstd_api
  lb_ego :: ego_api
  lb_https :: "('w, 'u, 'c) https_env"
  lb_tls :: "'c list option"
  lb_TSCOverhead :: "'w \<Rightarrow> uint64"
  lb_BenchStart :: "'w \<Rightarrow> uint64"
  lb_BenchEnd :: "'w \<Rightarrow> uint64"

text \<open>A call: \<open>None\<close> if it never returns, otherwise the world and a result or a panic.\<close>

type_synonym ('a, 'w, 'o) native = "'a list \<Rightarrow> 'w \<Rightarrow> ('w \<times> 'o res) option"

definition pure_native :: "('o \<Rightarrow> 'r) \<Rightarrow> ('a list \<Rightarrow> 'o res) \<Rightarrow> ('a, 'w, 'r) native" where
  "pure_native R f args w = Some (w, bind_res (f args) (\<lambda>x. Inr (R x)))"

definition tsc_native :: "('w \<Rightarrow> uint64) \<Rightarrow> (uint64 \<Rightarrow> 'a list \<Rightarrow> bytes res)
    \<Rightarrow> ('a, 'w, ('ti, 'ts, 'tb, 'p, 'k) outcome) native" where
  "tsc_native counter f args w = Some (w, bind_res (f (counter w) args) (\<lambda>b. Inr (RBuf b)))"

datatype ('a, 'w, 'o) go_func = Native "('a, 'w, 'o) native" | Wrapped string

section \<open>The table\<close>

definition registered ::
  "('ti, 'ei, 'ts, 'es, 'tb, 'eb, 's, 'p, 'k, 'q, 'w, 'u, 'c) script_libs
     \<Rightarrow> (string \<times> (('ti, 'ts, 'tb, 'z) script_val, 'w, ('ti, 'ts, 'tb, 'p, 'k) outcome) go_func) list" where
  "registered V =
    [(''U256'', Wrapped ''types.U256''),
     (''HexToU256'', Wrapped ''types.HexToU256''),
     (''BufToU256'', Wrapped ''types.BufToU256''),
     (''S256'', Wrapped ''types.S256''),
     (''HexToS256'', Wrapped ''types.HexToS256''),
     (''BufToS256'', Wrapped ''types.BufToS256''),
     (''SerializeMaps'', Native (\<lambda>args w. map_option (\<lambda>r. (w, bind_res r (\<lambda>b. Inr (RBuf b))))
        (SerializeMaps (lb_int V) (lb_str V) (lb_buf V) (lb_msgp V) (map map_arg args)))),
     (''DeserializeMap'', Native (pure_native (\<lambda>(m, b). RMap m b)
        (DeserializeMap (lb_int V) (lb_str V) (lb_buf V) (lb_msgp V)))),
     (''NewOrderedMapReader'', Native (pure_native RReader NewOrderedMapReader)),
     (''NewOrderedIntMap'', Wrapped ''types.NewOrderedIntMap''),
     (''NewOrderedStrMap'', Wrapped ''types.NewOrderedStrMap''),
     (''NewOrderedBufMap'', Wrapped ''types.NewOrderedBufMap''),
     (''NewBufBuilder'', Wrapped ''types.NewBufBuilder''),
     (''ParseTxInHex'', Wrapped ''extension.ParseTxInHex''),
     (''SignTxAndSerialize'', Wrapped ''extension.SignTxAndSerialize''),
     (''MerkleProofToRootAndMatches'', Native (pure_native RBufs (MerkleProofToRootAndMatches (lb_bch V)))),
     (''AesGcmDecrypt'', Native (pure_native (\<lambda>(b, ok). RResult b ok) (AesGcmDecrypt (lb_aead V)))),
     (''AesGcmEncrypt'', Native (pure_native RBuf (AesGcmEncrypt (lb_aead V)))),
     (''BufToPrivateKey'', Wrapped ''extension.BufToPrivateKey''),
     (''BufToPublicKey'', Wrapped ''extension.BufToPublicKey''),
     (''Keccak256'', Native (pure_native RBuf (Keccak256 (lb_hash V) (lb_u256 V)))),
     (''Sha256'', Native (pure_native RBuf (Sha256 (lb_hash V) (lb_u256 V)))),
     (''Ripemd160'', Native (pure_native RBuf (Ripemd160 (lb_hash V) (lb_u256 V)))),
     (''XxHash32'', Native (pure_native RBuf (XxHash32 (lb_hash V) (lb_u256 V)))),
     (''XxHash64'', Native (pure_native RBuf (XxHash64 (lb_hash V) (lb_u256 V)))),
     (''XxHash128'', Native (pure_native RBuf (XxHash128 (lb_hash V) (lb_u256 V)))),
     (''XxHash32Int'', Native (pure_native RU32 (XxHash32Int (lb_hash V) (lb_u256 V)))),
     (''BufConcat'', Native (pure_native RBuf BufConcat)),
     (''HexToBuf'', Native (pure_native RBuf (HexToBuf (lb_geth V)))),
     (''UTF8StrToBuf'', Native (pure_native RBuf UTF8StrToBuf)),
     (''HexToPaddingBuf'', Native (pure_native RBuf (HexToPaddingBuf (lb_geth V)))),
     (''B64ToBuf'', Native (pure_native RBuf B64ToBuf)),
     (''BufToB64'', Native (pure_native RStr BufToB64)),
     (''BufToHex'', Native (pure_native RStr BufToHex)),
     (''BufEqual'', Native (pure_native RBool BufEqual)),
     (''BufCompare'', Native (pure_native RInt BufCompare)),
     (''BufReverse'', Native (pure_native RBuf BufReverse)),
     (''BufToU32BE'', Native (pure_native RU32 BufToU32BE)),
     (''BufToU32LE'', Native (pure_native RU32 BufToU32LE)),
     (''U64ToBufBE'', Native (pure_native RBuf U64ToBufBE)),
     (''U64ToBufLE'', Native (pure_native RBuf U64ToBufLE)),
     (''U32ToBufBE'', Native (pure_native RBuf U32ToBufBE)),
     (''U32ToBufLE'', Native (pure_native RBuf U32ToBufLE)),
     (''GetEthSignedMessage'', Native (pure_native RBuf GetEthSignedMessage)),
     (''VerifySignature'', Native (pure_native RBool (VerifySignature (lb_key V)))),
     (''Ecrecover'', Native (pure_native RPublicKey (Ecrecover (lb_key V)))),
     (''ZstdCompress'', Native (pure_native RBuf (ZstdCompress (lb_zstd V)))),
     (''ZstdDecompress'', Native (pure_native RBuf (ZstdDecompress (lb_zstd V)))),
     (''VerifyMerkleProofSha256'', Native (pure_native RBool (VerifyMerkleProofSha256 (hs_Sha256 (lb_hash V))))),
     (''VerifyMerkleProofKeccak256'', Native (pure_native RBool (VerifyMerkleProofKeccak256 (hs_Keccak256 (lb_hash V))))),
     (''GenerateRandomBip32Key'', Wrapped ''extension.GenerateRandomBip32Key''),
     (''B58ToBip32Key'', Wrapped ''extension.B58ToBip32Key''),
     (''BufToBip32Key'', Native (pure_native RBip32Key (BufToBip32Key (lb_bip32 V)))),
     (''GetCPUID'', Wrapped ''extension.GetCPUID''),
     (''GetTSC'', Native (tsc_native (lb_TSCOverhead V) GetTSC)),
     (''GetTSCBenchStart'', Native (tsc_native (lb_BenchStart V) GetTSCBenchStart)),
     (''GetTSCBenchEnd'', Native (tsc_native (lb_BenchEnd V) GetTSCBenchEnd)),
     (''Printf'', Wrapped ''extension.Printf''),
     (''Println'', Wrapped ''extension.Println''),
     (''Sleep'', Wrapped ''extension.Sleep''),
     (''SleepMs'', Wrapped ''extension.SleepMs''),
     (''HttpsRequest'', Wrapped ''request.HttpsRequest''),
     (''AttestEnclaveServer'', Native (\<lambda>args w. case AttestEnclaveServer (lb_https V) (lb_ego V) (lb_geth V)
          (hs_Sha256 (lb_hash V)) (lb_tls V) args w of
        (w, r) \<Rightarrow> Some (w, bind_res r (\<lambda>(ok, msg). Inr (RVerdict ok msg)))))]"

text \<open>The call of a global by its name; a name that is not registered as a native is not one here.\<close>

definition call_native ::
  "('ti, 'ei, 'ts, 'es, 'tb, 'eb, 's, 'p, 'k, 'q, 'w, 'u, 'c) script_libs \<Rightarrow> string
     \<Rightarrow> ('ti, 'ts, 'tb, 'z) script_val list \<Rightarrow> 'w \<Rightarrow> ('w \<times> ('ti, 'ts, 'tb, 'p, 'k) outcome res) option" where
  "call_native V name args w =
     (case map_of (registered V) name of Some (Native f) \<Rightarrow> f args w | _ \<Rightarrow> None)"

lemma registered_distinct: "distinct (map fst (registered V))"
  by (simp add: registered_def)

section \<open>Calls that throw\<close>

text \<open>A panic with a JavaScript value is an exception the script can catch; any other ends the process.\<close>

definition throws :: "go_panic \<Rightarrow> bool" where
  "throws p \<longleftrightarrow> (\<exists>m. p = PSymbol m \<or> p = PValue m)"

lemma throws_simps [simp]:
  "throws (PSymbol m)" "throws (PValue m)" "throws IncorrectArgumentCount" "throws LargerThanMaxInteger"
  by (simp_all add: throws_def IncorrectArgumentCount_def LargerThanMaxInteger_def)

lemma bind_res_eq_Inl: "bind_res m f = Inl p \<longleftrightarrow> m = Inl p \<or> (\<exists>x. m = Inr x \<and> f x = Inl p)"
  by (cases m) auto

lemma case_sum_eq_Inl:
  "(case r of Inl e \<Rightarrow> f e | Inr x \<Rightarrow> g x) = Inl p \<longleftrightarrow> (\<exists>e. r = Inl e \<and> f e = Inl p) \<or> (\<exists>x. r = Inr x \<and> g x = Inl p)"
  by (cases r) auto

lemma args_throw:
  "GetOneUint64 args = Inl p \<Longrightarrow> throws p"
  "GetOneArrayBuffer args = Inl p \<Longrightarrow> throws p"
  "GetTwoArrayBuffers args = Inl p \<Longrightarrow> throws p"
  "GetThreeArrayBuffers args = Inl p \<Longrightarrow> throws p"
  "one_string args = Inl p \<Longrightarrow> throws p"
  "concat_parts args data = Inl p \<Longrightarrow> throws p"
  "attest_args args = Inl p \<Longrightarrow> throws p"
  by (auto simp: GetOneUint64_def GetOneArrayBuffer_def GetTwoArrayBuffers_def GetThreeArrayBuffers_def
      one_string_def attest_args_def split: if_splits jsval.splits)
    (induction args arbitrary: data; force split: jsval.splits)

lemma hash_throws: "hashFunc U args h = Inl p \<Longrightarrow> throws p"
  by (induction args arbitrary: h) (auto split: jsval.splits sum.splits if_splits)

lemma or_symbol_throws: "or_symbol msg r = Inl p \<Longrightarrow> throws p"
  by (auto simp: or_symbol_def split: sum.splits)

lemma bch_throws: "MerkleProofToRootAndMatches W args = Inl p \<Longrightarrow> throws p"
  by (auto simp: MerkleProofToRootAndMatches_def bind_res_eq_Inl args_throw split: option.splits prod.splits if_splits)

lemma merkle_throws: "verifyMerkleProof H args = Inl p \<Longrightarrow> throws p"
  by (auto simp: verifyMerkleProof_def bind_res_eq_Inl args_throw split: if_splits)

lemma hex_padding_throws: "HexToPaddingBuf G args = Inl p \<Longrightarrow> throws p"
  by (auto simp: HexToPaddingBuf_def split: if_splits jsval.splits)

lemma key_throws:
  "VerifySignature X args = Inl p \<Longrightarrow> throws p"
  "Ecrecover X args = Inl p \<Longrightarrow> throws p"
  by (auto simp: VerifySignature_def Ecrecover_def bind_res_eq_Inl args_throw or_symbol_throws split: if_splits)

lemma bip32_throws: "BufToBip32Key K args = Inl p \<Longrightarrow> throws p"
proof (cases "GetOneArrayBuffer args")
  case (Inr b)
  obtain k e where "bip_Deserialize K b = (k, e)" by fastforce
  moreover assume "BufToBip32Key K args = Inl p"
  ultimately show ?thesis using Inr by (cases e) (auto simp: BufToBip32Key_def)
qed (simp add: BufToBip32Key_def args_throw)

lemma reader_throws: "NewOrderedMapReader args = Inl p \<Longrightarrow> throws p"
  by (auto simp: NewOrderedMapReader_def split: if_splits jsval.splits)

lemma https_throws: "snd (HttpsRequest E tls meth url body hs w) = Inl p \<Longrightarrow> throws p"
  by (auto simp: HttpsRequest_def split: if_splits sum.splits prod.splits)

lemma get_attestation_throws: "snd (get_attestation E tls what url w) = Inl p \<Longrightarrow> throws p"
  using https_throws [of E tls "''GET''" url "''''" "[''Content-Type:application/json'']" w]
  by (auto simp: get_attestation_def split: if_splits sum.splits prod.splits)

section \<open>Calls that crash\<close>

text \<open>Where a panic of the Go run time or of a library comes out of a native, and for which arguments.\<close>

definition crash_point :: "string \<Rightarrow> ('ti, 'ts, 'tb, 'z) script_val list \<Rightarrow> go_panic \<Rightarrow> bool" where
  "crash_point name args p \<longleftrightarrow>
     (name \<in> {''BufToU32BE'', ''BufToU32LE''} \<and> p = PIndexOutOfRange \<and> (\<exists>b. args = [JBuf b] \<and> length b < 4))
   \<or> (name \<in> {''AesGcmEncrypt'', ''AesGcmDecrypt''} \<and> p = nonce_panic
        \<and> (\<exists>k n m. args = [JBuf k, JBuf n, JBuf m] \<and> length k \<in> {16, 24, 32} \<and> length n \<noteq> 16))
   \<or> (name = ''DeserializeMap'' \<and> p = PNilDeref
        \<and> (\<exists>b t. args = [JBuf b, JInt t] \<and> b \<noteq> [] \<and> 0 \<le> sint t \<and> sint t \<le> 2))
   \<or> (name = ''SerializeMaps'' \<and> p \<in> {PMakeLen, PNilDeref} \<and> (\<exists>m. JGo (Inr (Inl m)) \<in> set args))
   \<or> (name = ''AttestEnclaveServer'' \<and> p \<in> {PSliceBounds, PIndexOutOfRange}
        \<and> (\<exists>a b c. args = [JStr a, JStr b, JStr c]))"

definition throws_or_crashes ::
  "string \<times> (('ti, 'ts, 'tb, 'z) script_val, 'w, 'o) go_func \<Rightarrow> bool" where
  "throws_or_crashes nf \<longleftrightarrow> (case nf of (name, Wrapped g) \<Rightarrow> True
     | (name, Native f) \<Rightarrow> \<forall>args w w' p. f args w = Some (w', Inl p) \<longrightarrow> throws p \<or> crash_point name args p)"

lemma Wrapped_ok [simp]: "throws_or_crashes (name, Wrapped g)"
  by (simp add: throws_or_crashes_def)

lemma pure_ok:
  "(\<And>args p. f args = Inl p \<Longrightarrow> throws p \<or> crash_point name args p) \<Longrightarrow>
    throws_or_crashes (name, Native (pure_native R f))"
  by (auto simp: throws_or_crashes_def pure_native_def bind_res_eq_Inl)

lemma pure_throws:
  "(\<And>args p. f args = Inl p \<Longrightarrow> throws p) \<Longrightarrow> throws_or_crashes (name, Native (pure_native R f))"
  by (rule pure_ok) blast

lemma tsc_ok: "(\<And>t args p. f t args = Inl p \<Longrightarrow> throws p) \<Longrightarrow> throws_or_crashes (name, Native (tsc_native c f))"
  by (auto simp: throws_or_crashes_def tsc_native_def bind_res_eq_Inl)

lemma u32_crash:
  "throws_or_crashes (''BufToU32BE'', Native (pure_native R BufToU32BE))"
  "throws_or_crashes (''BufToU32LE'', Native (pure_native R BufToU32LE))"
  by (auto intro!: pure_ok simp: BufToU32BE_def BufToU32LE_def bind_res_eq_Inl args_throw crash_point_def
      BigEndian_Uint32_def LittleEndian_Uint32_def split: if_splits)

lemma aesgcm_Inl:
  "aesgcmEncrypt A k n m = Inl p \<longleftrightarrow> length k \<in> {16, 24, 32} \<and> length n \<noteq> 16 \<and> p = nonce_panic"
  "aesgcmDecrypt A k n m = Inl p \<longleftrightarrow> length k \<in> {16, 24, 32} \<and> length n \<noteq> 16 \<and> p = nonce_panic"
  by (auto simp: aesgcmEncrypt_def aesgcmDecrypt_def cipher_error_def split: sum.split)

lemma aes_crash:
  "throws_or_crashes (''AesGcmEncrypt'', Native (pure_native R (AesGcmEncrypt A)))"
  "throws_or_crashes (''AesGcmDecrypt'', Native (pure_native R' (AesGcmDecrypt A)))"
  by (auto intro!: pure_ok simp: AesGcmEncrypt_def AesGcmDecrypt_def aesgcm_Inl bind_res_eq_Inl args_throw
      crash_point_def case_sum_eq_Inl)

lemma deserialize_crash:
  "throws_or_crashes (''DeserializeMap'', Native (pure_native R (DeserializeMap BI BS BB M)))"
proof (rule pure_ok)
  fix args :: "(_, _, _, _) script_val list" and p
  assume e: "DeserializeMap BI BS BB M args = Inl p"
  have tag: "throws q \<or> q = PNilDeref" if "read_tag M msg b = Inl q" for msg b q
    using that by (auto simp: read_tag_def split: sum.splits if_splits)
  have load: "throws q" if "load_by_tag BI BS BB M tag b = Inl q" for tag b q
    using that by (auto simp: load_by_tag_def split: prod.splits sum.splits)
  show "throws p \<or> crash_point ''DeserializeMap'' args p"
  proof (cases "\<exists>b t. args = [JBuf b, JInt t]")
    case True
    then obtain b t where args: "args = [JBuf b, JInt t]" by blast
    from e show ?thesis unfolding args
      by (auto simp: DeserializeMap_def crash_point_def bind_res_eq_Inl tag_defs split: if_splits
        dest!: tag load)
  next
    case False
    then show ?thesis using e
      by (auto simp: DeserializeMap_def length_Suc_conv numeral_2_eq_2 split: if_splits jsval.splits)
  qed
qed

lemma map_arg_JGo: "map_arg a = JGo m \<Longrightarrow> a = JGo (Inr (Inl m))"
  by (cases a rule: map_arg.cases) auto

lemma total_size_cases:
  "total_size as n = Inl p \<Longrightarrow> throws p"
  "total_size as n = Inr z \<Longrightarrow> as \<noteq> [] \<Longrightarrow> \<exists>m. JGo m \<in> set as"
proof -
  show "total_size as n = Inl p \<Longrightarrow> throws p" by (induction as arbitrary: n) (auto split: jsval.splits)
  show "total_size as n = Inr z \<Longrightarrow> as \<noteq> [] \<Longrightarrow> \<exists>m. JGo m \<in> set as"
    by (cases as) (auto split: jsval.splits)
qed

lemma dump_tree_Inl: "dump_tree B M app t b = Some (Inl p) \<Longrightarrow> p = PNilDeref"
  by (auto simp: dump_tree_def Let_def split: if_splits sum.splits)

lemma dump_maps_Inl: "dump_maps BI BS BB M as b = Some (Inl p) \<Longrightarrow> p = PNilDeref"
proof (induction as arbitrary: b)
  case (Cons a as)
  have one: "q = PNilDeref" if "dump_map BI BS BB M m b = Some (Inl q)" for m q
    using that by (cases m) (auto simp: im_dumpTo_def sm_dumpTo_def bm_dumpTo_def dump_tree_Inl)
  show ?case using Cons one by (auto split: jsval.splits option.splits sum.splits)
qed simp

lemma serialize_crash:
  assumes "SerializeMaps BI BS BB M (map map_arg args) = Some (Inl p)"
  shows "throws p \<or> (p \<in> {PMakeLen, PNilDeref} \<and> (\<exists>m. JGo (Inr (Inl m)) \<in> set args))"
proof (cases "total_size (map map_arg args) 0")
  case (Inl q)
  with assms total_size_cases(1) show ?thesis by (auto simp: SerializeMaps_def)
next
  case (Inr z)
  have "p \<in> {PMakeLen, PNilDeref}" using assms Inr
    by (auto simp: SerializeMaps_def make_cap_def split: if_splits dest: dump_maps_Inl)
  moreover have "args \<noteq> []" using assms Inr by (auto simp: SerializeMaps_def make_cap_def go_maxAlloc_def)
  moreover from this obtain m where "JGo m \<in> set (map map_arg args)" using total_size_cases(2) [OF Inr] by auto
  then obtain a where "a \<in> set args" "map_arg a = JGo m" by auto
  with map_arg_JGo have "JGo (Inr (Inl m)) \<in> set args" by metis
  ultimately show ?thesis by blast
qed

lemma report_crash: "VerifyEnclaveReportBz E H a b c d = Inl p \<Longrightarrow> p \<in> {PSliceBounds, PIndexOutOfRange}"
  by (auto simp: VerifyEnclaveReportBz_def Let_def split: if_splits sum.splits)

lemma attest_crash:
  assumes "AttestEnclaveServer E X G H tls args w = (w', Inl p)"
  shows "throws p \<or> crash_point ''AttestEnclaveServer'' args p"
proof (cases "attest_args args")
  case (Inl q)
  with assms args_throw show ?thesis by (auto simp: AttestEnclaveServer_def)
next
  case (Inr v)
  obtain url signer unique where "v = (url, signer, unique)" by (cases v)
  with Inr have args: "args = [JStr url, JStr signer, JStr unique]" by simp
  obtain w1 pk where g1: "get_attestation E tls ''pubKey'' (url @ ''/pubkey'') w = (w1, pk)" by fastforce
  obtain w2 rp where g2: "get_attestation E tls ''report'' (url @ ''/pubkey_report'') w1 = (w2, rp)" by fastforce
  note thr = get_attestation_throws [of E tls "''pubKey''" "url @ ''/pubkey''" w] get_attestation_throws [of E tls "''report''" "url @ ''/pubkey_report''" w1]
  show ?thesis
  proof (cases pk)
    case (Inl q)
    then show ?thesis using assms g1 thr(1) by (simp add: AttestEnclaveServer_def args)
  next
    case pk: (Inr k)
    show ?thesis
    proof (cases rp)
      case (Inl q)
      then show ?thesis using assms g1 g2 pk thr(2) by (simp add: AttestEnclaveServer_def args)
    next
      case (Inr r)
      then show ?thesis using assms g1 g2 pk
        by (auto simp: AttestEnclaveServer_def args crash_point_def bind_res_eq_Inl dest: report_crash split: option.splits)
    qed
  qed
qed

lemma attest_ok:
  "throws_or_crashes (''AttestEnclaveServer'', Native (\<lambda>args w. case AttestEnclaveServer E X G H tls args w of
     (w, r) \<Rightarrow> Some (w, bind_res r (\<lambda>(ok, msg). Inr (RVerdict ok msg)))))"
  unfolding throws_or_crashes_def prod.case go_func.case
proof (intro allI impI)
  fix args :: "(_, _, _, _) script_val list" and w w' p
  assume e: "(case AttestEnclaveServer E X G H tls args w of
       (w, r) \<Rightarrow> Some (w, bind_res r (\<lambda>(ok, msg). Inr (RVerdict ok msg)))) = Some (w', Inl p)"
  obtain w1 r where a: "AttestEnclaveServer E X G H tls args w = (w1, r)" by fastforce
  with e have "r = Inl p" by (auto simp: bind_res_eq_Inl)
  with attest_crash [of E X G H tls args w w1 p] a show "throws p \<or> crash_point ''AttestEnclaveServer'' args p" by simp
qed

lemma registered_ok: "list_all throws_or_crashes (registered V)"
  unfolding registered_def list.pred_inject
  by (intro conjI TrueI Wrapped_ok u32_crash aes_crash deserialize_crash attest_ok pure_throws tsc_ok)
    (auto simp: throws_or_crashes_def bind_res_eq_Inl args_throw hash_throws bch_throws merkle_throws
      hex_padding_throws key_throws bip32_throws reader_throws crash_point_def
      Keccak256_def Sha256_def Ripemd160_def XxHash32_def XxHash64_def XxHash128_def XxHash32Int_def
      BufConcat_def HexToBuf_def UTF8StrToBuf_def B64ToBuf_def BufToB64_def BufToHex_def BufEqual_def BufCompare_def
      BufReverse_def U64ToBufBE_def U64ToBufLE_def U32ToBufBE_def U32ToBufLE_def GetEthSignedMessage_def
      ZstdCompress_def ZstdDecompress_def VerifyMerkleProofSha256_def VerifyMerkleProofKeccak256_def
      GetTSC_def GetTSCBenchStart_def GetTSCBenchEnd_def tsc_buffer_def case_sum_eq_Inl split: if_splits
      dest!: serialize_crash)

section \<open>Properties\<close>


text \<open>Small packages for the witness.\<close>

definition mini_libs ::
  "((string \<times> int64) list, int, (string \<times> string) list, int, (string \<times> bytes) list, int,
    unit, unit, bool \<times> uint32 list, byte, unit, string, unit) script_libs" where
  "mini_libs = \<lparr>lb_int = alist_btree 0, lb_str = alist_btree '''', lb_buf = alist_btree [], lb_msgp = mini_msgp,
     lb_u256 = i256_ref,
     lb_hash = \<lparr>hs_Keccak256 = id, hs_Sha256 = id, hs_Ripemd160 = id, hs_XxHash32 = (\<lambda>b. 0), hs_XxHash64 = id, hs_XxHash128 = id\<rparr>,
     lb_geth = geth_ref, lb_aead = mini_aead, lb_key = mini_key, lb_bip32 = path_bip32, lb_bch = mini_bch,
     lb_zstd = \<lparr>zs_EncodeAll = id, zs_DecodeAll = Inr\<rparr>, lb_ego = mini_ego, lb_https = mini_https, lb_tls = None,
     lb_TSCOverhead = (\<lambda>w. 1), lb_BenchStart = (\<lambda>w. 2), lb_BenchEnd = (\<lambda>w. 3)\<rparr>"


end
