(* ===== verification/IndexerNatives.thy ===== *)
theory IndexerNatives
  imports ScriptNatives
begin

text \<open>
  The functions a script finds when the library indexer runs it: the table of \<^verbatim>\<open>indexer/register.go\<close>, which the
  package keeps as a text of its own beside the one of the script runner.
\<close>

section \<open>The table\<close>

definition idx_registered ::
  "('ti, 'ei, 'ts, 'es, 'tb, 'eb, 's, 'p, 'k, 'q, 'w, 'u, 'c) script_libs
     \<Rightarrow> (string \<times> (('ti, 'ts, 'tb, 'z) script_val, 'w, ('ti, 'ts, 'tb, 'p, 'k) outcome) go_func) list" where
  "idx_registered V =
    [(''U256'', Wrapped ''types.U256''),
     (''HexToU256'', Wrapped ''types.HexToU256''),
     (''BufToU256'', Wrapped ''types.BufToU256''),
     (''S256'', Wrapped ''types.S256''),
     (''HexToS256'', Wrapped ''types.HexToS256''),
     (''BufToS256'', Wrapped ''types.BufToS256''),
     (''SerializeMaps'', Native (\<lambda>args w. map_option (\<lambda>r. (w, bind_res r (\<lambda>b. Inr (RBuf b))))
        (SerializeMaps (lb_int V) (lb_str V) (lb_buf V) (lb_msgp V) (map map_arg args)))),
     (''DeserializeMap'', Native (pure_native (\<lambda>(m, b). RMap m b)
        (DeserializeMap (lb_int V) (lb_str V) (lb_buf V) (lb_msgp V)))),
     (''NewOrderedMapReader'', Native (pure_native RReader NewOrderedMapReader)),
     (''NewOrderedIntMap'', Wrapped ''types.NewOrderedIntMap''),
     (''NewOrderedStrMap'', Wrapped ''types.NewOrderedStrMap''),
     (''NewOrderedBufMap'', Wrapped ''types.NewOrderedBufMap''),
     (''NewBufBuilder'', Wrapped ''types.NewBufBuilder''),
     (''ParseTxInHex'', Wrapped ''extension.ParseTxInHex''),
     (''SignTxAndSerialize'', Wrapped ''extension.SignTxAndSerialize''),
     (''MerkleProofToRootAndMatches'', Native (pure_native RBufs (MerkleProofToRootAndMatches (lb_bch V)))),
     (''AesGcmDecrypt'', Native (pure_native (\<lambda>(b, ok). RResult b ok) (AesGcmDecrypt (lb_aead V)))),
     (''AesGcmEncrypt'', Native (pure_native RBuf (AesGcmEncrypt (lb_aead V)))),
     (''BufToPrivateKey'', Wrapped ''extension.BufToPrivateKey''),
     (''BufToPublicKey'', Wrapped ''extension.BufToPublicKey''),
     (''Keccak256'', Native (pure_native RBuf (Keccak256 (lb_hash V) (lb_u256 V)))),
     (''Sha256'', Native (pure_native RBuf (Sha256 (lb_hash V) (lb_u256 V)))),
     (''Ripemd160'', Native (pure_native RBuf (Ripemd160 (lb_hash V) (lb_u256 V)))),
     (''XxHash32'', Native (pure_native RBuf (XxHash32 (lb_hash V) (lb_u256 V)))),
     (''XxHash64'', Native (pure_native RBuf (XxHash64 (lb_hash V) (lb_u256 V)))),
     (''XxHash128'', Native (pure_native RBuf (XxHash128 (lb_hash V) (lb_u256 V)))),
     (''XxHash32Int'', Native (pure_native RU32 (XxHash32Int (lb_hash V) (lb_u256 V)))),
     (''BufConcat'', Native (pure_native RBuf BufConcat)),
     (''HexToBuf'', Native (pure_native RBuf (HexToBuf (lb_geth V)))),
     (''UTF8StrToBuf'', Native (pure_native RBuf UTF8StrToBuf)),
     (''HexToPaddingBuf'', Native (pure_native RBuf (HexToPaddingBuf (lb_geth V)))),
     (''B64ToBuf'', Native (pure_native RBuf B64ToBuf)),
     (''BufToB64'', Native (pure_native RStr BufToB64)),
     (''BufToHex'', Native (pure_native RStr BufToHex)),
     (''BufEqual'', Native (pure_native RBool BufEqual)),
     (''BufCompare'', Native (pure_native RInt BufCompare)),
     (''BufReverse'', Native (pure_native RBuf BufReverse)),
     (''BufToU32BE'', Native (pure_native RU32 BufToU32BE)),
     (''BufToU32LE'', Native (pure_native RU32 BufToU32LE)),
     (''U64ToBufBE'', Native (pure_native RBuf U64ToBufBE)),
     (''U64ToBufLE'', Native (pure_native RBuf U64ToBufLE)),
     (''U32ToBufBE'', Native (pure_native RBuf U32ToBufBE)),
     (''U32ToBufLE'', Native (pure_native RBuf U32ToBufLE)),
     (''GetEthSignedMessage'', Native (pure_native RBuf GetEthSignedMessage)),
     (''VerifySignature'', Native (pure_native RBool (VerifySignature (lb_key V)))),
     (''Ecrecover'', Native (pure_native RPublicKey (Ecrecover (lb_key V)))),
     (''ZstdCompress'', Native (pure_native RBuf (ZstdCompress (lb_zstd V)))),
     (''ZstdDecompress'', Native (pure_native RBuf (ZstdDecompress (lb_zstd V)))),
     (''VerifyMerkleProofSha256'', Native (pure_native RBool (VerifyMerkleProofSha256 (hs_Sha256 (lb_hash V))))),
     (''VerifyMerkleProofKeccak256'', Native (pure_native RBool (VerifyMerkleProofKeccak256 (hs_Keccak256 (lb_hash V))))),
     (''GenerateRandomBip32Key'', Wrapped ''extension.GenerateRandomBip32Key''),
     (''B58ToBip32Key'', Wrapped ''extension.B58ToBip32Key''),
     (''BufToBip32Key'', Native (pure_native RBip32Key (BufToBip32Key (lb_bip32 V)))),
     (''GetCPUID'', Wrapped ''extension.GetCPUID''),
     (''GetTSC'', Native (tsc_native (lb_TSCOverhead V) GetTSC)),
     (''GetTSCBenchStart'', Native (tsc_native (lb_BenchStart V) GetTSCBenchStart)),
     (''GetTSCBenchEnd'', Native (tsc_native (lb_BenchEnd V) GetTSCBenchEnd)),
     (''Printf'', Wrapped ''extension.Printf''),
     (''Println'', Wrapped ''extension.Println''),
     (''Sleep'', Wrapped ''extension.Sleep''),
     (''SleepMs'', Wrapped ''extension.SleepMs''),
     (''HttpsRequest'', Wrapped ''request.HttpsRequest''),
     (''AttestEnclaveServer'', Native (\<lambda>args w. case AttestEnclaveServer (lb_https V) (lb_ego V) (lb_geth V)
          (hs_Sha256 (lb_hash V)) (lb_tls V) args w of
        (w, r) \<Rightarrow> Some (w, bind_res r (\<lambda>(ok, msg). Inr (RVerdict ok msg)))))]"

definition idx_call_native ::
  "('ti, 'ei, 'ts, 'es, 'tb, 'eb, 's, 'p, 'k, 'q, 'w, 'u, 'c) script_libs \<Rightarrow> string
     \<Rightarrow> ('ti, 'ts, 'tb, 'z) script_val list \<Rightarrow> 'w \<Rightarrow> ('w \<times> ('ti, 'ts, 'tb, 'p, 'k) outcome res) option" where
  "idx_call_native V name args w =
     (case map_of (idx_registered V) name of Some (Native f) \<Rightarrow> f args w | _ \<Rightarrow> None)"

section \<open>The two engines offer the same functions\<close>

text \<open>
  A script that has been tried in the runner finds in the indexer each function under the same name and with
  the same behaviour, in the same order of registration, and none besides.
\<close>

lemma same_table: "idx_registered V = registered V"
  unfolding idx_registered_def registered_def by (rule refl)

lemma same_calls: "idx_call_native V name args w = call_native V name args w"
  by (simp add: idx_call_native_def call_native_def same_table)

section \<open>Calls that do not look at the world\<close>

text \<open>The natives that read a counter of the processor or send requests.\<close>

definition world_readers :: "string set" where
  "world_readers = {''GetTSC'', ''GetTSCBenchStart'', ''GetTSCBenchEnd'', ''AttestEnclaveServer''}"

definition world_free :: "string \<times> ('a, 'w, 'o) go_func \<Rightarrow> bool" where
  "world_free nf \<longleftrightarrow> (case nf of (name, Wrapped g) \<Rightarrow> True
     | (name, Native f) \<Rightarrow> name \<notin> world_readers \<longrightarrow>
         (\<forall>args w w' r. f args w = Some (w', r) \<longrightarrow> w' = w \<and> (\<forall>v. f args v = Some (v, r))))"

lemma world_free_simps [simp]:
  "world_free (name, Wrapped g)"
  "world_free (name, Native (pure_native R f))"
  "world_free (name, Native (\<lambda>args w. map_option (\<lambda>r. (w, h r)) (k args)))"
  by (auto simp: world_free_def pure_native_def)

lemma reader_world_free: "name \<in> world_readers \<Longrightarrow> world_free (name, g)"
  by (cases g) (simp_all add: world_free_def)

lemma registered_world_free: "list_all world_free (registered V)"
  unfolding registered_def list.pred_inject
  by (intro conjI TrueI) (simp_all add: reader_world_free world_readers_def)

lemma native_world_free:
  assumes "idx_call_native V name args w = Some (w', r)" "name \<notin> world_readers"
  shows "w' = w \<and> idx_call_native V name args v = Some (v, r)"
proof -
  from assms(1) obtain f where f: "map_of (registered V) name = Some (Native f)" "f args w = Some (w', r)"
    by (auto simp: same_calls call_native_def split: option.splits go_func.splits)
  from map_of_SomeD [OF f(1)] registered_world_free [of V] have "world_free (name, Native f)"
    by (auto simp: list_all_iff)
  with f assms(2) show ?thesis by (auto simp: world_free_def same_calls call_native_def)
qed

section \<open>A script as the calls it makes\<close>

text \<open>
  At most \<open>n\<close> calls: what the script calls next, if anything, depends on the results so far.
\<close>

primrec script_calls ::
  "('ti, 'ei, 'ts, 'es, 'tb, 'eb, 's, 'p, 'k, 'q, 'w, 'u, 'c) script_libs \<Rightarrow> nat
     \<Rightarrow> (('ti, 'ts, 'tb, 'p, 'k) outcome res list \<Rightarrow> (string \<times> ('ti, 'ts, 'tb, 'z) script_val list) option)
     \<Rightarrow> ('ti, 'ts, 'tb, 'p, 'k) outcome res list \<Rightarrow> 'w \<Rightarrow> ('w \<times> ('ti, 'ts, 'tb, 'p, 'k) outcome res list) option" where
  "script_calls V 0 nxt rs w = Some (w, rs)"
| "script_calls V (Suc n) nxt rs w =
     (case nxt rs of
        None \<Rightarrow> Some (w, rs)
      | Some (name, args) \<Rightarrow>
          (case idx_call_native V name args w of
             None \<Rightarrow> None
           | Some (w, r) \<Rightarrow> script_calls V n nxt (rs @ [r]) w))"

lemma BenchStart_read:
  "idx_call_native V ''GetTSCBenchStart'' [] w = Some (w, Inr (RBuf (be_bytes 8 (unat (lb_BenchStart V w)))))"
  by (simp add: same_calls call_native_def registered_def tsc_native_def GetTSCBenchStart_def tsc_buffer_def)


text \<open>A script that encodes a buffer twice, in a world that is a clock.\<close>

definition clock_libs ::
  "((string \<times> int64) list, int, (string \<times> string) list, int, (string \<times> bytes) list, int,
    unit, unit, bool \<times> uint32 list, byte, nat, string, unit) script_libs" where
  "clock_libs = \<lparr>lb_int = alist_btree 0, lb_str = alist_btree '''', lb_buf = alist_btree [], lb_msgp = mini_msgp,
     lb_u256 = i256_ref,
     lb_hash = \<lparr>hs_Keccak256 = id, hs_Sha256 = id, hs_Ripemd160 = id, hs_XxHash32 = (\<lambda>b. 0), hs_XxHash64 = id, hs_XxHash128 = id\<rparr>,
     lb_geth = geth_ref, lb_aead = mini_aead, lb_key = mini_key, lb_bip32 = path_bip32, lb_bch = mini_bch,
     lb_zstd = \<lparr>zs_EncodeAll = id, zs_DecodeAll = Inr\<rparr>, lb_ego = mini_ego,
     lb_https = \<lparr>hx_ParseURL = Inr, hx_Do = (\<lambda>tls r w. (Suc w, Inl ''offline'')), hx_PemDecode = (\<lambda>s. None),
       hx_ParseCertificate = (\<lambda>b. Inr ()), hx_Unmarshal = (\<lambda>s. Inl ''unexpected end'')\<rparr>, lb_tls = None,
     lb_TSCOverhead = of_nat, lb_BenchStart = of_nat, lb_BenchEnd = of_nat\<rparr>"

definition two_calls :: "'r list \<Rightarrow> (string \<times> (_, _, _, unit) script_val list) option" where
  "two_calls rs = (if length rs < 2 then Some (''BufToHex'', [JBuf [1, 2]]) else None)"


end
