(* ===== verification/Spec2Isabelle.thy ===== *)
theory Spec2Isabelle
  imports U256 S256 IntOrder OrderedIntMap OrderedStrMap OrderedBufMap MapCodec BufBuilder
    Buffer Merkle KeyDerive Attestation KeyGrantor KeyStore KeySync HttpServers ClientKeys ClientAttest
    Sandbox SandboxSpec FirstJob Invoker JobClients
    TmRpc LightClient ServiceRpc GoText IndexerContext IndexerRun IndexerService Genesis Hash Crypto BchTx
    HttpRequests Printing ScriptRuntime ScriptNatives IndexerNatives
begin

text \<open>
  The enclave-guarded virtual machine of the repository runs JavaScript in SGX enclaves. This
  development models its Go code as functions and step relations and proves what makes each part correct,
  and, where the code does not do what it means to, what it does instead.

  \<^bold>\<open>The parts and how they interact.\<close>

  \<^item> The \<^emph>\<open>key grantor\<close> (\<^verbatim>\<open>keygrantor/\<close>) keeps an extended private key in an enclave, hands it to
    grantors of the same enclave and hands keys derived from it to other enclaves.
    \<open>Attestation\<close> holds the checks of reports and tokens, \<open>KeyDerive\<close> the derivation along nine child
    indices, \<open>KeyGrantor\<close> the HTTP handlers and the client, \<open>KeyStore\<close> the random numbers, the sealed key
    file, the start and the simple client, \<open>KeySync\<close> several grantors that start from one another,
    \<open>HttpServers\<close> the registration of the handlers and the client's certificate, and \<open>ClientKeys\<close> the keys a
    client gets from such a cluster of grantors.
  \<^item> The \<^emph>\<open>script library\<close> (\<^verbatim>\<open>script/\<close>) is what a script finds in its engine. \<open>Args\<close> holds the checks of
    arguments, \<open>U256\<close> and \<open>S256\<close> the 256-bit integers, \<open>IntOrder\<close> their order as instances of \<open>linorder\<close>,
    \<open>OrderedIntMap\<close>, \<open>OrderedStrMap\<close> and \<open>OrderedBufMap\<close> the ordered maps and their iterators, \<open>MapCodec\<close> their serial form, \<open>BufBuilder\<close>,
    \<open>Buffer\<close>, \<open>Hash\<close>, \<open>Merkle\<close>, \<open>Crypto\<close>, \<open>BchTx\<close> and \<open>HttpRequests\<close> the functions of the files of those
    names, \<open>KeyDerive\<close> also the BIP-32 keys of scripts, \<open>Printing\<close> what a script prints, \<open>ScriptRuntime\<close> the main
    program and the functions on the processor, on compression and on time, \<open>ScriptNatives\<close> the table of
    \<^verbatim>\<open>register.go\<close> that makes all of them callable by name, and \<open>ClientAttest\<close> a script that attests the client's server.
  \<^item> The \<^emph>\<open>invoker\<close> (\<^verbatim>\<open>egvm-invoker/\<close>) hands jobs that arrive over HTTP to a pool of enclave processes:
    \<open>Sandbox\<close> has one process and the pool, with concurrent calls as the step relation \<open>mstep\<close>,
    \<open>SandboxSpec\<close> the abstract pool it implements, \<open>FirstJob\<close> the first result of a sandbox from the bytes the
    process writes, \<open>Invoker\<close> the handler, \<open>JobClients\<close> the command-line programs that build jobs.
  \<^item> The two \<^emph>\<open>indexers\<close> follow a chain with a Tendermint light client. \<open>TmRpc\<close> has the requests to nodes
    and \<open>LightClient\<close> the loop, which both run; \<open>IndexerContext\<close> and \<open>IndexerRun\<close> the library
    \<^verbatim>\<open>indexer/\<close>, which feeds blocks to a script and keeps logs and recovery files, with \<open>IndexerNatives\<close>, the
    table of functions its scripts find; \<open>IndexerService\<close> the program \<^verbatim>\<open>egvm-indexer/\<close>, which stores blocks in a
    database and scans them in jobs, \<open>ServiceRpc\<close> the service's own copies of the requests, and \<open>Genesis\<close> the
    header it starts from.

  \<^bold>\<open>Conventions.\<close> \<open>Prelude\<close> has the types of Go, strings as byte sequences, the panics \<open>go_panic\<close> and the
  result type \<open>res\<close>, whose left side is a panic; \<open>GoStd\<close> and \<open>GoText\<close> write out the functions of the
  standard library the code relies on (hexadecimal, base64, byte orders, splitting, scanning lines, decimal
  numbers). Definitions have the names of the source, methods of the types \<^verbatim>\<open>Uint256\<close>, \<^verbatim>\<open>Sint256\<close>, the maps and
  the keys the prefixes \<open>U256_\<close>, \<open>S256_\<close>, \<open>im_\<close>, \<open>sm_\<close>, \<open>bm_\<close>, \<open>bb_\<close>, \<open>bk_\<close>. Machine integers
  are words of their width. A nil pointer, map or slice is \<open>None\<close> where the code can meet it, and using it is a branch.
  An error is the left side of a sum or \<open>Some\<close> text, as the source returns it; state is passed explicitly. The
  world of a program that talks to the network is an argument of a type of its own.

  \<^bold>\<open>Packages the repository only calls\<close> are records of functions (\<open>ego_api\<close>, \<open>bip32_api\<close>, \<open>uint256_api\<close>,
  \<open>btree_api\<close>, \<open>msgp_api\<close>, \<open>ecies_api\<close>, \<open>bch_api\<close>, \<open>badger_api\<close>, \<open>tm_light\<close> and others). What the code relies
  on is stated as locales over them: \<open>uint256\<close>, \<open>btree\<close>, \<open>msgp\<close>, \<open>bip32\<close>, \<open>geth\<close>, \<open>aead\<close> and \<open>ecies\<close>,
  \<open>bch\<close>, \<open>badger\<close>, \<open>key_exchange\<close> and its extension \<open>key_sync\<close>, \<open>job_codec\<close>. The clients' lemmas are proved
  in them, and each is interpreted: \<open>i256_ref\<close> is integer arithmetic modulo 2 to the 256, \<open>alist_btree\<close> a sorted
  association list, \<open>mini_msgp\<close> a prefix code, \<open>path_bip32\<close> keys that are their paths; the others are the
  small packages the witnesses run on. \<open>ordered_map\<close> is the contract of the three maps (the locales
  \<open>int_map\<close>, \<open>str_map\<close> and \<open>buf_map\<close> are sublocales of it), proved once in \<open>OrderedMap_Core\<close> and \<open>OrderedMap_Spec\<close>.

  \<^bold>\<open>What the lemmas show.\<close> Integers: every operation equals exact arithmetic or panics, with the three cases
  of missed overflow of the signed ones. Maps: the operations refine a finite map with sorted keys, iterators
  visit it in order, and serialisation is read back, up to the maps no script should make. Keys: derivation
  ends and equals the walk over the nine parts of the hash; a key leaves a grantor only for a vetted request;
  client and server, grantor and grantor, and a restart with the key file agree on the key; the number of
  machines and restarts does not matter, and an enclave gets one key from the cluster for ever; but the client
  trusts any server, and a script cannot attest the client's server. Sandboxes: the manager refines a pool of
  free, held and lost sandboxes, no two jobs share one, which errors take one away for ever, and which first
  results are read as they were written. Light client: whatever the nodes answer, trust moves only along verified headers, it moves if one node is honest, and it does
  not move once it has run out, as the one built into the service has. Indexers: blocks are stored under their
  height, and nothing stored is read back. Scripts: every native returns or throws, with five exceptions, and all
  but four give the same result in any world; the runner answers line by line if the script prints nothing. Merkle proofs
  are sound and complete; transactions, cipher texts and attestations are read back as they were made.

  \<^bold>\<open>Loops.\<close> Loops over data are structural recursion or have a termination proof. Loops without a bound are
  \<open>partial_function (option)\<close>, where \<open>None\<close> is a loop that does not end (key generation, the retry of a
  derivation, the search for a node, \<^verbatim>\<open>Job.Start\<close>), and theorems about them say when they end. The endless
  loops of the fetcher and the service are given a number of turns, over which the theorems quantify, so no
  bound is a limit; counters of heights and lengths are limited to the range of their words where it matters.

  \<^bold>\<open>Not modelled.\<close> The JavaScript engine, including the conversion of arguments by which it wraps Go functions that do not
  take the call; the code of third-party packages, and the C and assembler code below \<^verbatim>\<open>rdrand16\<close>; TLS and
  sockets, the parsing of command lines, HTTP redirections and host patterns; the addition of response
  headers that allow any origin; data races between handlers and loops other than the calls of the sandbox
  manager; the directives of \<^verbatim>\<open>Printf\<close> other than \<^verbatim>\<open>%v\<close>. Code the repository has twice is modelled
  twice (\<^verbatim>\<open>tm.go\<close>, \<^verbatim>\<open>rotateList\<close>, \<^verbatim>\<open>register.go\<close>) and proved equal. The types of jobs and results,
  generated in a package the repository does not have, are parameters with the fields the programs set. Running time and memory are not modelled,
  apart from the bounds on lengths the run time checks.
\<close>

end
